(* ===== verification/Prelude.thy ===== *)
theory Prelude
  imports Main "HOL-Library.Word" "HOL-Library.Multiset" "HOL-Library.Product_Lexorder"
begin

text \<open>
  Shared vocabulary of the memory-planning development: the machine integer type of the
  planner's sizes and offsets, the error values that stand for the C++ assertions and
  checks, the association-list model of the \<open>std::unordered_map\<close> and \<open>std::map\<close>
  containers the pass uses (in insertion order), and generic lemmas on lists and
  unsigned words that the component theories share.
\<close>

section \<open>Types and errors\<close>

text \<open>\<open>uint64_t\<close> and \<open>size_t\<close> byte counts: 64-bit words, so \<open>+\<close> and \<open>*\<close> wrap.\<close>

type_synonym u64 = "64 word"

text \<open>
  Every failure of the source becomes a value: \<open>TORCH_INTERNAL_ASSERT\<close>,
  \<open>TORCH_CHECK\<close>, \<open>value()\<close> of an empty \<open>c10::optional\<close>, and the places where the C++ has undefined behaviour
  (dereferencing an end iterator, \<open>top()\<close> of an empty stack, a call through a
  dangling allocator pointer).
\<close>

datatype error =
    InternalAssert string
  | TorchCheck string
  | BadOptionalAccess
  | UndefinedBehaviour string

named_theorems model_simps "simplification rules of the model's operations"

text \<open>
  Conversions of the C++ integer types: \<open>uint64_t\<close> to the \<open>int64_t\<close> of a node
  attribute, the \<open>int64_t\<close> read back, and \<open>static_cast<int8_t>\<close>.
\<close>

definition to_int64 :: "u64 \<Rightarrow> int" where
  "to_int64 w = sint w"

definition from_int64 :: "int \<Rightarrow> u64" where
  "from_int64 x = word_of_int x"

definition int8_cast :: "int \<Rightarrow> int" where
  "int8_cast x = sint (word_of_int x :: 8 word)"

section \<open>Maps as association lists\<close>

text \<open>
  \<open>std::unordered_map::insert\<close> does not overwrite a present key; the model keeps
  the keys in insertion order, which is one admissible iteration order of the hash map.
\<close>

definition alist_insert :: "'k \<Rightarrow> 'v \<Rightarrow> ('k \<times> 'v) list \<Rightarrow> ('k \<times> 'v) list" where
  "alist_insert k v xs = (if k \<in> set (map fst xs) then xs else xs @ [(k, v)])"

text \<open>\<open>m[k] = v\<close>: assignment through \<open>operator[]\<close>, which overwrites.\<close>

definition alist_assign :: "'k \<Rightarrow> 'v \<Rightarrow> ('k \<times> 'v) list \<Rightarrow> ('k \<times> 'v) list" where
  "alist_assign k v xs =
     (if k \<in> set (map fst xs) then map (\<lambda>(k', v'). (k', if k' = k then v else v')) xs
      else xs @ [(k, v)])"

text \<open>\<open>m[k]\<close> read through \<open>operator[]\<close>: a missing key yields the value-initialised default.\<close>

definition lookup_default :: "'v \<Rightarrow> ('k \<times> 'v) list \<Rightarrow> 'k \<Rightarrow> 'v" where
  "lookup_default d xs k = (case map_of xs k of Some v \<Rightarrow> v | None \<Rightarrow> d)"

lemma keys_alist_insert [simp]:
  "fst ` set (alist_insert k v xs) = insert k (fst ` set xs)"
  by (auto simp: alist_insert_def)

lemma distinct_alist_insert [simp]:
  "distinct (map fst xs) \<Longrightarrow> distinct (map fst (alist_insert k v xs))"
  by (auto simp: alist_insert_def)

lemma alist_insert_nonempty [simp]: "alist_insert k v xs \<noteq> []"
  by (auto simp: alist_insert_def)

lemma map_of_alist_insert:
  "map_of (alist_insert k v xs) =
     (if k \<in> set (map fst xs) then map_of xs else (map_of xs)(k \<mapsto> v))"
proof (cases "k \<in> set (map fst xs)")
  case True
  then show ?thesis by (simp add: alist_insert_def)
next
  case False
  then have "map_of xs k = None" by (simp add: map_of_eq_None_iff)
  with False show ?thesis
    by (auto simp: alist_insert_def map_add_def fun_eq_iff split: option.split)
qed

lemma map_fst_pointwise [simp]: "map fst (map (\<lambda>(k', v'). (k', f k' v')) xs) = map fst xs"
  by (induction xs) auto

lemma lookup_default_distinct:
  "distinct (map fst xs) \<Longrightarrow> (k, v) \<in> set xs \<Longrightarrow> lookup_default d xs k = v"
  by (simp add: lookup_default_def)

lemma lookup_default_mem:
  "k \<in> fst ` set xs \<Longrightarrow> (k, lookup_default d xs k) \<in> set xs"
  by (cases "map_of xs k") (auto simp: lookup_default_def map_of_eq_None_iff dest: map_of_SomeD)

lemma keys_alist_assign [simp]:
  "fst ` set (alist_assign k v xs) = insert k (fst ` set xs)"
proof -
  have "set (map fst (alist_assign k v xs)) = insert k (set (map fst xs))"
    unfolding alist_assign_def
    by (cases "k \<in> set (map fst xs)")
      (simp_all only: if_True if_False map_fst_pointwise insert_absorb, simp)
  then show ?thesis by simp
qed

lemma distinct_alist_assign:
  "distinct (map fst xs) \<Longrightarrow> distinct (map fst (alist_assign k v xs))"
  unfolding alist_assign_def
  by (cases "k \<in> set (map fst xs)") (simp_all only: if_True if_False map_fst_pointwise, simp)

lemma map_of_pointwise:
  "map_of (map (\<lambda>(k', v'). (k', f k' v')) xs) k = map_option (f k) (map_of xs k)"
  by (induction xs) auto

lemma map_of_alist_assign:
  "map_of (alist_assign k v xs) k' = (if k' = k then Some v else map_of xs k')"
proof (cases "k \<in> set (map fst xs)")
  case True
  then obtain w where "map_of xs k = Some w"
    by (metis map_of_eq_None_iff not_None_eq set_map)
  with True show ?thesis by (auto simp: alist_assign_def map_of_pointwise option.map_ident)
next
  case False
  then have "map_of xs k = None" by (simp add: map_of_eq_None_iff)
  with False show ?thesis by (auto simp: alist_assign_def map_add_def split: option.split)
qed

lemma lookup_default_map_of:
  "map_of xs k = Some v \<Longrightarrow> lookup_default d xs k = v"
  by (simp add: lookup_default_def)

section \<open>Unsigned words\<close>

text \<open>A sum that stays below \<open>2\<^sup>6\<^sup>4\<close> does not wrap.\<close>

lemma unat_add_no_wrap:
  "unat (a::u64) + unat b < 2 ^ 64 \<Longrightarrow> unat (a + b) = unat a + unat b"
  using unat_add_lem [of a b] by simp

lemma unat_add_no_wrap_le:
  "unat (a::u64) + unat b \<le> n \<Longrightarrow> n < 2 ^ 64 \<Longrightarrow> unat (a + b) = unat a + unat b"
  by (rule unat_add_no_wrap) simp

lemma unat_u64_bound [simp]: "unat (w::u64) < 2 ^ 64"
  using unsigned_less [of w] by simp

lemma word_le_unat_le: "(a::u64) \<le> b \<Longrightarrow> unat a \<le> unat b"
  by (simp add: word_le_nat_alt)

lemma from_to_int64 [simp]: "from_int64 (to_int64 w) = w"
  by (simp add: from_int64_def to_int64_def)

section \<open>Lists\<close>

lemma sum_list_map_mono_le:
  "x \<in> set xs \<Longrightarrow> (f x :: nat) \<le> sum_list (map f xs)"
  by (induction xs) auto

lemma sorted_last_max:
  "sorted (xs :: 'a::linorder list) \<Longrightarrow> x \<in> set xs \<Longrightarrow> x \<le> last xs"
  by (induction xs rule: induct_list012) (auto simp: sorted_append)

text \<open>Inserting an element into a list adds its image to the multiset of a concat-map.\<close>

lemma mset_concat_map_insert:
  "mset (concat (map f (take p xs @ y # drop p xs))) = mset (concat (map f xs)) + mset (f y)"
proof -
  have "mset (concat (map f xs)) = mset (concat (map f (take p xs))) + mset (concat (map f (drop p xs)))"
    by (metis append_take_drop_id concat_append map_append mset_append)
  then show ?thesis by simp
qed

lemma map_list_update_same:
  "p < length xs \<Longrightarrow> f y = f (xs ! p) \<Longrightarrow> map f (xs[p := y]) = map f xs"
  by (metis length_map list_update_id map_update nth_map)

end
