(* ===== verification/Arena.thy ===== *)
theory Arena
  imports Prelude
begin

text \<open>
  The arena model (spec component A): the value types \<open>LiveRange\<close>, \<open>Region\<close> and
  \<open>FrameNodeId\<close> declared in \<open>memory_planning.h\<close>, their comparison predicates,
  the correctness predicate of an allocation plan, and \<open>getTotalAllocationSize\<close>
  of \<open>memory_planning.cpp\<close>. A plan, the \<open>unordered_map<LiveRange, Region>\<close>
  the heuristics return, is an association list.
\<close>

section \<open>Data\<close>

record live_range =
  lr_begin :: nat
  lr_end :: nat

record region =
  reg_offset :: u64
  reg_size :: u64

record frame_node_id =
  fid_pc :: nat
  fid_schema :: string
  fid_header :: string

type_synonym plan = "(live_range \<times> region) list"

text \<open>\<open>managed_live_ranges\<close>: the sizes the heuristics are asked to place.\<close>

type_synonym sized_ranges = "(live_range \<times> u64) list"

section \<open>Predicates\<close>

text \<open>Closed intervals \<open>[begin, end]\<close> overlap when they intersect.\<close>

definition overlap :: "live_range \<Rightarrow> live_range \<Rightarrow> bool" where
  "overlap a b \<longleftrightarrow> lr_begin a \<le> lr_end b \<and> lr_begin b \<le> lr_end a"

text \<open>Regions collide when the byte intervals \<open>[offset, offset + size)\<close> intersect.\<close>

definition collide :: "region \<Rightarrow> region \<Rightarrow> bool" where
  "collide g h \<longleftrightarrow>
     unat (reg_offset g) < unat (reg_offset h) + unat (reg_size h) \<and>
     unat (reg_offset h) < unat (reg_offset g) + unat (reg_size g)"

text \<open>\<open>live_range_start_cmp\<close>: ordering by \<open>begin\<close> only; \<open>frame_node_id_cmp\<close>: by pc.\<close>

definition live_range_start_cmp :: "live_range \<Rightarrow> live_range \<Rightarrow> bool" where
  "live_range_start_cmp a b \<longleftrightarrow> lr_begin a < lr_begin b"

definition frame_node_id_cmp :: "frame_node_id \<Rightarrow> frame_node_id \<Rightarrow> bool" where
  "frame_node_id_cmp f g \<longleftrightarrow> fid_pc f < fid_pc g"

text \<open>The correctness invariant of an allocation plan (spec, section 3).\<close>

definition plan_valid :: "plan \<Rightarrow> bool" where
  "plan_valid pl \<longleftrightarrow>
     (\<forall>(l, g) \<in> set pl. \<forall>(l', g') \<in> set pl. l \<noteq> l' \<longrightarrow> overlap l l' \<longrightarrow> \<not> collide g g')"

text \<open>The end of a region, as the unbounded number the spec means.\<close>

definition reg_end :: "region \<Rightarrow> nat" where
  "reg_end g = unat (reg_offset g) + unat (reg_size g)"

text \<open>\<open>getTotalAllocationSize\<close>: a running \<open>std::max\<close> of \<open>offset + size\<close> in \<open>uint64_t\<close>.\<close>

definition getTotalAllocationSize :: "plan \<Rightarrow> u64" where
  "getTotalAllocationSize allocations =
     foldl (\<lambda>total_size (l, g). max total_size (reg_offset g + reg_size g)) 0 allocations"

section \<open>Lemmas\<close>

lemma overlap_sym: "overlap a b \<longleftrightarrow> overlap b a"
  by (auto simp: overlap_def)

lemma collide_sym: "collide g h \<longleftrightarrow> collide h g"
  by (auto simp: collide_def)

lemma overlap_refl: "lr_begin a \<le> lr_end a \<Longrightarrow> overlap a a"
  by (simp add: overlap_def)

lemma foldl_max_ge_start:
  "(t::u64) \<le> foldl (\<lambda>total_size (l, g). max total_size (reg_offset g + reg_size g)) t xs"
  by (induction xs arbitrary: t) (auto intro: order_trans [OF max.cobounded1])

lemma foldl_max_ge_elem:
  "(l, g) \<in> set xs \<Longrightarrow>
     reg_offset g + reg_size g \<le> foldl (\<lambda>total_size (l, g). max total_size (reg_offset g + reg_size g)) t xs"
proof (induction xs arbitrary: t)
  case Nil
  then show ?case by simp
next
  case (Cons x xs)
  then show ?case
    by (cases x) (auto intro: order_trans [OF _ foldl_max_ge_start])
qed

lemma foldl_max_cases:
  "foldl (\<lambda>total_size (l, g). max total_size (reg_offset g + reg_size g)) t xs = t \<or>
   (\<exists>(l, g) \<in> set xs. foldl (\<lambda>total_size (l, g). max total_size (reg_offset g + reg_size g)) t xs =
      reg_offset g + reg_size g)"
proof (induction xs arbitrary: t)
  case Nil
  then show ?case by simp
next
  case (Cons x xs)
  obtain l g where x: "x = (l, g)" by (cases x)
  from Cons.IH [of "max t (reg_offset g + reg_size g)"] x show ?case
    by (auto simp: max_def split: if_splits)
qed

lemma total_size_ge:
  "(l, g) \<in> set pl \<Longrightarrow> reg_offset g + reg_size g \<le> getTotalAllocationSize pl"
  unfolding getTotalAllocationSize_def by (rule foldl_max_ge_elem)

lemma total_size_cases:
  "getTotalAllocationSize pl = 0 \<or>
   (\<exists>(l, g) \<in> set pl. getTotalAllocationSize pl = reg_offset g + reg_size g)"
  unfolding getTotalAllocationSize_def by (rule foldl_max_cases)

end
