(* ===== verification/Graph.thy ===== *)
theory Graph
  imports Arena
begin

text \<open>
  The part of the TorchScript graph IR the planner reads and rewrites (spec section 6):
  values identified by number with their types, nodes with a kind, ordered inputs and
  outputs, a canonical schema string and integer attributes, and a graph that is the
  node list in topological order. A \<open>Node*\<close> the planner keeps (\<open>out_nodes\<close>) is the
  node's index at planning time. The library facts used by \<open>memory_planning.cpp\<close>
  (\<open>c10::elementSize\<close>, \<open>at::detail::defaultStrides\<close>, the \<open>ScalarType\<close>
  numbering) are given here from their definitions in c10/ATen.
\<close>

section \<open>Types of values\<close>

datatype scalar_type =
    kByte | kChar | kShort | kInt | kLong | kHalf | kFloat | kDouble
  | kComplexHalf | kComplexFloat | kComplexDouble | kBool | kQInt8 | kQUInt8 | kQInt32 | kBFloat16

text \<open>\<open>static_cast<int8_t>(scalar_type)\<close>: the enumerator's number in \<open>c10::ScalarType\<close>.\<close>

fun scalar_type_code :: "scalar_type \<Rightarrow> int" where
  "scalar_type_code kByte = 0" | "scalar_type_code kChar = 1" | "scalar_type_code kShort = 2"
| "scalar_type_code kInt = 3" | "scalar_type_code kLong = 4" | "scalar_type_code kHalf = 5"
| "scalar_type_code kFloat = 6" | "scalar_type_code kDouble = 7" | "scalar_type_code kComplexHalf = 8"
| "scalar_type_code kComplexFloat = 9" | "scalar_type_code kComplexDouble = 10"
| "scalar_type_code kBool = 11" | "scalar_type_code kQInt8 = 12" | "scalar_type_code kQUInt8 = 13"
| "scalar_type_code kQInt32 = 14" | "scalar_type_code kBFloat16 = 15"

fun elementSize :: "scalar_type \<Rightarrow> u64" where
  "elementSize kByte = 1" | "elementSize kChar = 1" | "elementSize kShort = 2"
| "elementSize kInt = 4" | "elementSize kLong = 8" | "elementSize kHalf = 2"
| "elementSize kFloat = 4" | "elementSize kDouble = 8" | "elementSize kComplexHalf = 4"
| "elementSize kComplexFloat = 8" | "elementSize kComplexDouble = 16" | "elementSize kBool = 1"
| "elementSize kQInt8 = 1" | "elementSize kQUInt8 = 1" | "elementSize kQInt32 = 4"
| "elementSize kBFloat16 = 2"

text \<open>
  What a \<open>TensorType\<close> reports: its scalar type, concrete sizes and strides when they
  are known (\<open>concrete_sizes()\<close>), and \<open>numel()\<close>.
\<close>

record tensor_type =
  tt_scalar_type :: "scalar_type option"
  tt_sizes :: "int list option"
  tt_strides :: "int list option"
  tt_numel :: "u64 option"

datatype value_type = TensorT tensor_type | OtherT string

text \<open>\<open>at::detail::defaultStrides\<close>: contiguous strides, the product of the later sizes.\<close>

definition defaultStrides :: "int list \<Rightarrow> int list" where
  "defaultStrides sizes = map (\<lambda>i. prod_list (drop (Suc i) sizes)) [0..<length sizes]"

section \<open>Nodes and graphs\<close>

datatype attr_val = AttrInt int | AttrInts "int list"

record node =
  n_kind :: string
  n_inputs :: "nat list"
  n_outputs :: "nat list"
  n_header :: string
  n_attrs :: "(string \<times> attr_val) list"

record graph =
  g_nodes :: "node list"
  g_types :: "nat \<Rightarrow> value_type"
  g_next_value :: nat

text \<open>\<open>graph->create(kind, n)\<close>: a detached node with \<open>n\<close> fresh output values.\<close>

definition create_node :: "graph \<Rightarrow> string \<Rightarrow> nat \<Rightarrow> node \<times> graph" where
  "create_node g kind n =
     (\<lparr>n_kind = kind, n_inputs = [], n_outputs = [g_next_value g..<g_next_value g + n],
       n_header = kind, n_attrs = []\<rparr>,
      g\<lparr>g_next_value := g_next_value g + n\<rparr>)"

text \<open>\<open>n->insertBefore(nodes[i])\<close>.\<close>

definition insert_node_at :: "nat \<Rightarrow> node \<Rightarrow> graph \<Rightarrow> graph" where
  "insert_node_at i n g = g\<lparr>g_nodes := take i (g_nodes g) @ [n] @ drop i (g_nodes g)\<rparr>"

text \<open>\<open>nodes[i]->addInput(v)\<close>.\<close>

definition add_input_at :: "nat \<Rightarrow> nat \<Rightarrow> graph \<Rightarrow> graph" where
  "add_input_at i v g =
     g\<lparr>g_nodes := (g_nodes g)[i := (g_nodes g ! i)\<lparr>n_inputs := n_inputs (g_nodes g ! i) @ [v]\<rparr>]\<rparr>"

text \<open>\<open>n->i_(name, x)\<close> and \<open>n->is_(name, xs)\<close> set or overwrite an attribute.\<close>

definition set_attr :: "string \<Rightarrow> attr_val \<Rightarrow> node \<Rightarrow> node" where
  "set_attr name x n = n\<lparr>n_attrs := alist_assign name x (n_attrs n)\<rparr>"

text \<open>\<open>n->i(name)\<close>: reading an integer attribute throws when it is missing.\<close>

definition get_attr_i :: "node \<Rightarrow> string \<Rightarrow> error + int" where
  "get_attr_i n name =
     (case map_of (n_attrs n) name of
        Some (AttrInt x) \<Rightarrow> Inr x
      | _ \<Rightarrow> Inl (TorchCheck ''required attribute not found''))"

text \<open>\<open>value->node()\<close>: the index of the node that produces a value.\<close>

definition producer_index :: "graph \<Rightarrow> nat \<Rightarrow> nat option" where
  "producer_index g v = find (\<lambda>i. v \<in> set (n_outputs (g_nodes g ! i))) [0..<length (g_nodes g)]"

section \<open>Lemmas\<close>

lemma length_insert_node_at [simp]:
  "i \<le> length (g_nodes g) \<Longrightarrow> length (g_nodes (insert_node_at i n g)) = Suc (length (g_nodes g))"
  by (simp add: insert_node_at_def)

lemma insert_node_at_nth_self:
  "i \<le> length (g_nodes g) \<Longrightarrow> g_nodes (insert_node_at i n g) ! i = n"
  by (simp add: insert_node_at_def nth_append)

lemma length_add_input_at [simp]: "length (g_nodes (add_input_at i v g)) = length (g_nodes g)"
  by (simp add: add_input_at_def)

lemma producer_index_Some:
  "producer_index g v = Some i \<Longrightarrow> i < length (g_nodes g) \<and> v \<in> set (n_outputs (g_nodes g ! i))"
  by (auto simp: producer_index_def find_Some_iff)

lemma producer_index_None:
  "producer_index g v = None \<longleftrightarrow> (\<forall>i < length (g_nodes g). v \<notin> set (n_outputs (g_nodes g ! i)))"
  by (auto simp: producer_index_def find_None_iff)

lemma producer_index_produced:
  assumes "v \<in> set (concat (map n_outputs (g_nodes g)))"
  shows "\<exists>p. producer_index g v = Some p"
proof (rule ccontr)
  assume "\<nexists>p. producer_index g v = Some p"
  then have "\<forall>i < length (g_nodes g). v \<notin> set (n_outputs (g_nodes g ! i))"
    using producer_index_None [of g v] by auto
  moreover from assms obtain n where "n \<in> set (g_nodes g)" and "v \<in> set (n_outputs n)" by auto
  ultimately show False by (metis in_set_conv_nth)
qed

lemma get_attr_i_set_attr [simp]: "get_attr_i (set_attr name (AttrInt x) n) name = Inr x"
  by (simp add: get_attr_i_def set_attr_def map_of_alist_assign)

lemma get_attr_i_set_attr_other [simp]:
  "name' \<noteq> name \<Longrightarrow> get_attr_i (set_attr name x n) name' = get_attr_i n name'"
  by (simp add: get_attr_i_def set_attr_def map_of_alist_assign)

lemma n_kind_set_attr [simp]: "n_kind (set_attr name x n) = n_kind n"
  by (simp add: set_attr_def)

lemma n_inputs_set_attr [simp]: "n_inputs (set_attr name x n) = n_inputs n"
  by (simp add: set_attr_def)

lemma n_outputs_set_attr [simp]: "n_outputs (set_attr name x n) = n_outputs n"
  by (simp add: set_attr_def)

lemma length_defaultStrides [simp]: "length (defaultStrides sizes) = length sizes"
  by (simp add: defaultStrides_def)

text \<open>
  A rewrite that keeps the outputs of the old nodes and adds exactly the fresh values
  \<open>[next ..< next']\<close> keeps the graph well formed.
\<close>

end
