(* ===== verification/Liveness.thy ===== *)
theory Liveness
  imports Graph
begin

text \<open>
  The static liveness extractor (spec component B) of \<open>memory_planning.cpp\<close>:
  \<open>computeStorageSize\<close> (a value's byte size, or none), \<open>hasOutVariant\<close> (does the
  operator registry hold a schema with an \<open>out\<close> argument), \<open>getManagedValues\<close>
  (the loop over the graph that classifies outputs as managed or leaked) and
  \<open>getManagedStuff\<close> (which intersects the sizes with the liveness map). The alias
  analysis is external: its always-alive set and liveness map are parameters, as is the
  operator registry (\<open>getAllOperatorsFor\<close>, each schema given by its argument names).
\<close>

type_synonym op_registry = "string \<Rightarrow> string list list"

section \<open>Operations\<close>

text \<open>
  \<open>computeStorageSize\<close>: every early return is a \<open>None\<close>; the scalar type is checked
  twice, as in the source; the product \<open>numel * element_size\<close> is a \<open>size_t\<close> product
  and wraps.
\<close>

definition computeStorageSize :: "value_type \<Rightarrow> u64 option" where
  "computeStorageSize ty =
     (case ty of
        OtherT _ \<Rightarrow> None
      | TensorT ttp \<Rightarrow>
          if tt_scalar_type ttp = None then None
          else if tt_sizes ttp = None then None
          else
            (case tt_scalar_type ttp of
               None \<Rightarrow> None
             | Some scalar_type \<Rightarrow>
                 (case tt_numel ttp of
                    None \<Rightarrow> None
                  | Some numel \<Rightarrow> Some (numel * elementSize scalar_type))))"

definition hasOutVariant :: "op_registry \<Rightarrow> node \<Rightarrow> bool" where
  "hasOutVariant registry node \<longleftrightarrow>
     (\<exists>variant_args \<in> set (registry (n_kind node)). ''out'' \<in> set variant_args)"

text \<open>The three collections the loop of \<open>getManagedValues\<close> builds.\<close>

record managed_acc =
  ma_managed_tensor_values :: "(nat \<times> u64) list"
  ma_leaked_values :: "nat list"
  ma_out_nodes :: "nat list"

text \<open>
  One output of a retained node. Both branches that do not manage the value leak it (the
  optimizable-container test only chooses whether a warning is printed).
\<close>

definition manage_output :: "graph \<Rightarrow> nat set \<Rightarrow> managed_acc \<Rightarrow> nat \<Rightarrow> managed_acc" where
  "manage_output g always_alive_values acc out_v =
     (if out_v \<in> always_alive_values then acc
      else (case computeStorageSize (g_types g out_v) of
              Some storage_size \<Rightarrow>
                if 0 < storage_size
                then acc\<lparr>ma_managed_tensor_values := alist_insert out_v storage_size (ma_managed_tensor_values acc)\<rparr>
                else acc\<lparr>ma_leaked_values := ma_leaked_values acc @ [out_v]\<rparr>
            | None \<Rightarrow> acc\<lparr>ma_leaked_values := ma_leaked_values acc @ [out_v]\<rparr>))"

definition manage_node :: "op_registry \<Rightarrow> graph \<Rightarrow> nat set \<Rightarrow> managed_acc \<Rightarrow> nat \<Rightarrow> managed_acc" where
  "manage_node registry g always_alive_values acc i =
     (let node = g_nodes g ! i
      in if \<not> hasOutVariant registry node then acc
         else foldl (manage_output g always_alive_values)
                (acc\<lparr>ma_out_nodes := ma_out_nodes acc @ [i]\<rparr>) (n_outputs node))"

definition managed_acc_init :: managed_acc where
  "managed_acc_init = \<lparr>ma_managed_tensor_values = [], ma_leaked_values = [], ma_out_nodes = []\<rparr>"

definition getManagedValues ::
  "op_registry \<Rightarrow> graph \<Rightarrow> nat set \<Rightarrow> nat list \<times> (nat \<times> u64) list" where
  "getManagedValues registry g always_alive_values =
     (let acc = foldl (manage_node registry g always_alive_values) managed_acc_init
                  [0..<length (g_nodes g)]
      in (ma_out_nodes acc, ma_managed_tensor_values acc))"

text \<open>
  \<open>getManagedStuff\<close>, with the alias analysis's results as parameters: the always-alive
  values and the liveness map (in its iteration order).
\<close>

definition getManagedStuff ::
  "op_registry \<Rightarrow> graph \<Rightarrow> nat set \<Rightarrow> (nat \<times> live_range) list \<Rightarrow>
   nat list \<times> (nat \<times> u64) list \<times> (nat \<times> live_range) list" where
  "getManagedStuff registry g always_alive live_ranges =
     (let (out_nodes, managed_tensor_values) = getManagedValues registry g always_alive;
          managed_ranges =
            foldl (\<lambda>acc (v, lvr). if v \<in> set (map fst managed_tensor_values)
                                  then alist_insert v lvr acc else acc) [] live_ranges
      in (out_nodes, managed_tensor_values, managed_ranges))"

section \<open>Lemmas\<close>

lemma computeStorageSize_Some:
  "computeStorageSize ty = Some s \<longleftrightarrow>
     (\<exists>ttp st numel. ty = TensorT ttp \<and> tt_scalar_type ttp = Some st \<and> tt_sizes ttp \<noteq> None \<and>
        tt_numel ttp = Some numel \<and> s = numel * elementSize st)"
  by (auto simp: computeStorageSize_def split: value_type.splits option.splits)

lemma manage_output_out_nodes [simp]:
  "ma_out_nodes (manage_output g aa acc v) = ma_out_nodes acc"
  by (simp add: manage_output_def split: option.split)

lemma foldl_manage_output_out_nodes [simp]:
  "ma_out_nodes (foldl (manage_output g aa) acc vs) = ma_out_nodes acc"
  by (induction vs arbitrary: acc) auto

text \<open>What one output contributes to the managed map.\<close>

definition output_managed :: "graph \<Rightarrow> nat set \<Rightarrow> nat \<Rightarrow> u64 \<Rightarrow> bool" where
  "output_managed g aa v s \<longleftrightarrow> v \<notin> aa \<and> computeStorageSize (g_types g v) = Some s \<and> 0 < s"

lemma manage_output_managed:
  "set (ma_managed_tensor_values (manage_output g aa acc v)) =
     set (ma_managed_tensor_values acc) \<union>
     (if v \<notin> set (map fst (ma_managed_tensor_values acc))
      then {(v, s) | s. output_managed g aa v s} else {})"
  by (auto simp: manage_output_def output_managed_def alist_insert_def split: option.split)

lemma keys_manage_output:
  "set (map fst (ma_managed_tensor_values (manage_output g aa acc v))) =
     set (map fst (ma_managed_tensor_values acc)) \<union> {v | s. output_managed g aa v s}"
  by (auto simp: manage_output_def output_managed_def split: option.split)

lemma distinct_manage_output:
  "distinct (map fst (ma_managed_tensor_values acc)) \<Longrightarrow>
   distinct (map fst (ma_managed_tensor_values (manage_output g aa acc v)))"
  by (simp add: manage_output_def split: option.split)

lemma output_managed_unique: "output_managed g aa v s \<Longrightarrow> output_managed g aa v s' \<Longrightarrow> s = s'"
  by (simp add: output_managed_def)

definition managed_inv :: "graph \<Rightarrow> nat set \<Rightarrow> managed_acc \<Rightarrow> bool" where
  "managed_inv g aa acc \<longleftrightarrow>
     distinct (map fst (ma_managed_tensor_values acc)) \<and>
     (\<forall>(v, s) \<in> set (ma_managed_tensor_values acc). output_managed g aa v s)"

lemma manage_output_inv: "managed_inv g aa acc \<Longrightarrow> managed_inv g aa (manage_output g aa acc v)"
  unfolding managed_inv_def
  using distinct_manage_output [of acc g aa v] manage_output_managed [of g aa acc v] by auto

lemma foldl_manage_output:
  "managed_inv g aa acc \<Longrightarrow>
   managed_inv g aa (foldl (manage_output g aa) acc vs) \<and>
   fst ` set (ma_managed_tensor_values (foldl (manage_output g aa) acc vs)) =
     fst ` set (ma_managed_tensor_values acc) \<union> {v \<in> set vs. \<exists>s. output_managed g aa v s}"
proof (induction vs arbitrary: acc)
  case Nil
  then show ?case by simp
next
  case (Cons v vs)
  from Cons.IH [OF manage_output_inv [OF Cons.prems]] keys_manage_output [of g aa acc v]
  show ?case by auto
qed

lemma manage_node_props:
  assumes "managed_inv g aa acc"
  shows "managed_inv g aa (manage_node registry g aa acc i) \<and>
    ma_out_nodes (manage_node registry g aa acc i) =
      ma_out_nodes acc @ (if hasOutVariant registry (g_nodes g ! i) then [i] else []) \<and>
    fst ` set (ma_managed_tensor_values (manage_node registry g aa acc i)) =
      fst ` set (ma_managed_tensor_values acc) \<union>
      {v. hasOutVariant registry (g_nodes g ! i) \<and> v \<in> set (n_outputs (g_nodes g ! i)) \<and>
          (\<exists>s. output_managed g aa v s)}"
proof -
  have inv': "managed_inv g aa (acc\<lparr>ma_out_nodes := ma_out_nodes acc @ [i]\<rparr>)"
    using assms by (simp add: managed_inv_def)
  show ?thesis
    using foldl_manage_output [OF inv', of "n_outputs (g_nodes g ! i)"] assms
    by (auto simp: manage_node_def Let_def)
qed

lemma foldl_manage_node:
  "managed_inv g aa acc \<Longrightarrow>
   managed_inv g aa (foldl (manage_node registry g aa) acc idxs) \<and>
   ma_out_nodes (foldl (manage_node registry g aa) acc idxs) =
     ma_out_nodes acc @ filter (\<lambda>i. hasOutVariant registry (g_nodes g ! i)) idxs \<and>
   fst ` set (ma_managed_tensor_values (foldl (manage_node registry g aa) acc idxs)) =
     fst ` set (ma_managed_tensor_values acc) \<union>
     {v. \<exists>i \<in> set idxs. hasOutVariant registry (g_nodes g ! i) \<and> v \<in> set (n_outputs (g_nodes g ! i)) \<and>
          (\<exists>s. output_managed g aa v s)}"
proof (induction idxs arbitrary: acc)
  case Nil
  then show ?case by simp
next
  case (Cons i idxs)
  note step = manage_node_props [OF Cons.prems, of registry i]
  from Cons.IH [OF conjunct1 [OF step]] step show ?case by auto
qed

lemma managed_inv_init: "managed_inv g aa managed_acc_init"
  by (simp add: managed_inv_def managed_acc_init_def)

lemma getManagedValues_set:
  "set (snd (getManagedValues registry g aa)) =
     {(v, s). (\<exists>i < length (g_nodes g). hasOutVariant registry (g_nodes g ! i) \<and>
                 v \<in> set (n_outputs (g_nodes g ! i))) \<and>
              v \<notin> aa \<and> computeStorageSize (g_types g v) = Some s \<and> 0 < s}"
proof -
  let ?acc = "foldl (manage_node registry g aa) managed_acc_init [0..<length (g_nodes g)]"
  note f = foldl_manage_node [OF managed_inv_init, of g aa registry "[0..<length (g_nodes g)]"]
  have inv: "managed_inv g aa ?acc" using f by blast
  have keys: "fst ` set (ma_managed_tensor_values ?acc) =
     {v. \<exists>i < length (g_nodes g). hasOutVariant registry (g_nodes g ! i) \<and>
          v \<in> set (n_outputs (g_nodes g ! i)) \<and> (\<exists>s. output_managed g aa v s)}"
    using f by (auto simp: managed_acc_init_def)
  have "set (ma_managed_tensor_values ?acc) =
     {(v, s). (\<exists>i < length (g_nodes g). hasOutVariant registry (g_nodes g ! i) \<and>
                 v \<in> set (n_outputs (g_nodes g ! i))) \<and> output_managed g aa v s}"
  proof (intro set_eqI iffI)
    fix x assume x: "x \<in> set (ma_managed_tensor_values ?acc)"
    obtain v s where vs: "x = (v, s)" by (cases x)
    from inv x vs have om: "output_managed g aa v s" by (auto simp: managed_inv_def)
    from x vs have "v \<in> fst ` set (ma_managed_tensor_values ?acc)" by force
    with keys om vs show "x \<in> {(v, s). (\<exists>i < length (g_nodes g). hasOutVariant registry (g_nodes g ! i) \<and>
                 v \<in> set (n_outputs (g_nodes g ! i))) \<and> output_managed g aa v s}" by auto
  next
    fix x assume x: "x \<in> {(v, s). (\<exists>i < length (g_nodes g). hasOutVariant registry (g_nodes g ! i) \<and>
                 v \<in> set (n_outputs (g_nodes g ! i))) \<and> output_managed g aa v s}"
    obtain v s where vs: "x = (v, s)" by (cases x)
    with x keys have "v \<in> fst ` set (ma_managed_tensor_values ?acc)" by auto
    then obtain s' where s': "(v, s') \<in> set (ma_managed_tensor_values ?acc)" by force
    with inv have "output_managed g aa v s'" by (auto simp: managed_inv_def)
    with x vs output_managed_unique have "s = s'" by auto
    with s' vs show "x \<in> set (ma_managed_tensor_values ?acc)" by simp
  qed
  then show ?thesis
    by (simp add: getManagedValues_def output_managed_def Let_def)
qed

lemma getManagedValues_out_nodes_distinct:
  "fst (getManagedValues registry g aa) =
     filter (\<lambda>i. hasOutVariant registry (g_nodes g ! i)) [0..<length (g_nodes g)] \<and>
   distinct (map fst (snd (getManagedValues registry g aa)))"
proof -
  note f = foldl_manage_node [OF managed_inv_init, of g aa registry "[0..<length (g_nodes g)]"]
  then show ?thesis
    by (simp add: getManagedValues_def managed_acc_init_def managed_inv_def)
qed

text \<open>A managed value is produced by a node and has a tensor type with a scalar type.\<close>

lemma getManagedValues_tensor:
  assumes "v \<in> fst ` set (snd (getManagedValues registry g aa))"
  shows "(\<exists>i < length (g_nodes g). v \<in> set (n_outputs (g_nodes g ! i))) \<and>
         (\<exists>ttp st. g_types g v = TensorT ttp \<and> tt_scalar_type ttp = Some st)"
  using assms unfolding getManagedValues_set by (force simp: computeStorageSize_Some)

text \<open>
  C6. \<open>getManagedValues\<close> returns the out-variant nodes in graph order, and a map
  with one entry per managed value: exactly the outputs of those nodes that are not
  always alive and whose storage size is known and positive, each with that size.
\<close>

theorem getManagedValues_correct:
  "fst (getManagedValues registry g aa) =
     filter (\<lambda>i. hasOutVariant registry (g_nodes g ! i)) [0..<length (g_nodes g)] \<and>
   distinct (map fst (snd (getManagedValues registry g aa))) \<and>
   set (snd (getManagedValues registry g aa)) =
     {(v, s). (\<exists>i < length (g_nodes g). hasOutVariant registry (g_nodes g ! i) \<and>
                 v \<in> set (n_outputs (g_nodes g ! i))) \<and>
              v \<notin> aa \<and> computeStorageSize (g_types g v) = Some s \<and> 0 < s}"
  using getManagedValues_out_nodes_distinct getManagedValues_set by blast

text \<open>
  C7. A value has a storage size exactly when it is a tensor whose scalar type,
  concrete sizes and element count are known; the size is the \<open>size_t\<close> product of
  the element count and the element size, that is, the byte count modulo \<open>2\<^sup>6\<^sup>4\<close>.
\<close>

theorem computeStorageSize_bytes:
  "computeStorageSize ty = Some s \<longleftrightarrow>
     (\<exists>ttp st numel. ty = TensorT ttp \<and> tt_scalar_type ttp = Some st \<and> tt_sizes ttp \<noteq> None \<and>
        tt_numel ttp = Some numel \<and> unat s = (unat numel * unat (elementSize st)) mod 2 ^ 64)"
proof -
  have "unat (numel * elementSize st) = (unat numel * unat (elementSize st)) mod 2 ^ 64" for numel st
    by (simp add: unat_word_ariths)
  then have eq: "(s = numel * elementSize st) \<longleftrightarrow> unat s = (unat numel * unat (elementSize st)) mod 2 ^ 64"
    for numel st
    by (metis word_unat_eq_iff)
  show ?thesis
    unfolding computeStorageSize_Some eq ..
qed

end
