(* ===== verification/Trace.thy ===== *)
theory Trace
  imports Arena
begin

text \<open>
  The trace-based liveness extractor (spec component C) of \<open>memory_planning.cpp\<close>:
  \<open>getLiveRangesFromMemEvents\<close>, which sweeps a recorded allocation trace and pairs
  each \<open>Free\<close> with its \<open>Allocate\<close>, and \<open>collectLiveRangesPerNode\<close>, which
  groups the resulting live ranges by the frame that allocated them. The sweep keeps the
  C++ state: the map \<open>allocs\<close> from pointer strings to open allocation events, the map
  \<open>managed_live_ranges\<close> and the vector \<open>live_range_node_header\<close>.
\<close>

section \<open>Memory events\<close>

datatype event_type = Allocate | Free

text \<open>
  \<open>MemEvent\<close>, with the fields in the order of its aggregate initialisation in
  \<open>MemoryTracingAllocator::allocate\<close>: the first field is filled with the frame's pc.
\<close>

record mem_event =
  me_time :: nat
  me_allocation_trace :: string
  me_ptr_addr :: string
  me_node_schema :: string
  me_node_header :: string
  me_size :: u64
  me_type :: event_type

record trace_state =
  ts_managed_live_ranges :: sized_ranges
  ts_live_range_node_header :: "(live_range \<times> frame_node_id) list"
  ts_allocs :: "(string \<times> mem_event) list"

definition trace_init :: trace_state where
  "trace_init = \<lparr>ts_managed_live_ranges = [], ts_live_range_node_header = [], ts_allocs = []\<rparr>"

section \<open>The sweep\<close>

text \<open>
  One iteration of the loop over \<open>mem_events\<close>. The C++ assertion
  \<open>TORCH_INTERNAL_ASSERT(cond, alloc.node_header == mem_event.node_header)\<close> passes the
  header comparison as the message argument, so only \<open>cond\<close> is checked. The loop never
  erases the matched entry of \<open>allocs\<close>.
\<close>

definition trace_step :: "trace_state \<Rightarrow> mem_event \<Rightarrow> error + trace_state" where
  "trace_step st mem_event =
     (case me_type mem_event of
        Allocate \<Rightarrow> Inr (st\<lparr>ts_allocs := alist_insert (me_ptr_addr mem_event) mem_event (ts_allocs st)\<rparr>)
      | Free \<Rightarrow>
          (case map_of (ts_allocs st) (me_ptr_addr mem_event) of
             None \<Rightarrow> Inl (InternalAssert ''allocs.count(mem_event.ptr_addr) > 0'')
           | Some alloc \<Rightarrow>
               if me_type alloc = Allocate \<and> me_size alloc = me_size mem_event \<and>
                  me_time alloc < me_time mem_event \<and>
                  me_node_schema alloc = me_node_schema mem_event
               then
                 (let lvr = \<lparr>lr_begin = me_time alloc, lr_end = me_time mem_event\<rparr>
                  in Inr (st\<lparr>ts_managed_live_ranges :=
                              alist_insert lvr (me_size alloc) (ts_managed_live_ranges st),
                            ts_live_range_node_header := ts_live_range_node_header st @
                              [(lvr, \<lparr>fid_pc = me_time alloc, fid_schema = me_node_schema alloc,
                                      fid_header = me_node_header alloc\<rparr>)]\<rparr>))
               else Inl (InternalAssert ''alloc matches mem_event'')))"

fun trace_loop :: "trace_state \<Rightarrow> mem_event list \<Rightarrow> error + trace_state" where
  "trace_loop st [] = Inr st"
| "trace_loop st (e # es) = (case trace_step st e of Inl err \<Rightarrow> Inl err | Inr st' \<Rightarrow> trace_loop st' es)"

definition getLiveRangesFromMemEvents ::
  "mem_event list \<Rightarrow> error + (sized_ranges \<times> (live_range \<times> frame_node_id) list)" where
  "getLiveRangesFromMemEvents mem_events =
     (case trace_loop trace_init mem_events of
        Inl err \<Rightarrow> Inl err
      | Inr st \<Rightarrow>
          if ts_allocs st = [] then Inr (ts_managed_live_ranges st, ts_live_range_node_header st)
          else Inl (InternalAssert ''allocs.empty()''))"

section \<open>Grouping by frame\<close>

text \<open>
  \<open>node_live_ranges[frame_node_id].emplace_back(lvr)\<close>: append to the frame's group,
  creating it at the end when the frame is new.
\<close>

fun add_to_group ::
  "frame_node_id \<Rightarrow> live_range \<Rightarrow> (frame_node_id \<times> live_range list) list \<Rightarrow>
   (frame_node_id \<times> live_range list) list" where
  "add_to_group f l [] = [(f, [l])]"
| "add_to_group f l ((g, ls) # gs) =
     (if g = f then (g, ls @ [l]) # gs else (g, ls) # add_to_group f l gs)"

text \<open>
  \<open>collectLiveRangesPerNode\<close>: group, sort each group with \<open>live_range_start_cmp\<close>,
  sort the groups with \<open>frame_node_id_cmp\<close>. \<open>std::sort\<close> leaves the order of
  equivalent elements open; the stable \<open>sort_key\<close> is one of the orders it may produce,
  so only facts that hold for every such order are claimed of it (C14).
\<close>

definition collectLiveRangesPerNode ::
  "(live_range \<times> frame_node_id) list \<Rightarrow> (frame_node_id \<times> live_range list) list" where
  "collectLiveRangesPerNode live_range_node_header =
     (let node_live_ranges =
        foldl (\<lambda>gs (lvr, frame_node_id). add_to_group frame_node_id lvr gs) [] live_range_node_header
      in sort_key (\<lambda>(f, _). fid_pc f)
           (map (\<lambda>(f, lvrs). (f, sort_key lr_begin lvrs)) node_live_ranges))"

text \<open>
  The invariant of the sweep's results: the recorded live ranges are distinct keys, each
  ends after it begins, and every frame entry belongs to a recorded range.
\<close>

definition trace_inv :: "trace_state \<Rightarrow> bool" where
  "trace_inv st \<longleftrightarrow>
     distinct (map fst (ts_managed_live_ranges st)) \<and>
     (\<forall>(l, _) \<in> set (ts_managed_live_ranges st). lr_begin l < lr_end l) \<and>
     fst ` set (ts_live_range_node_header st) \<subseteq> fst ` set (ts_managed_live_ranges st)"

text \<open>The (range, frame) pairs a grouping holds, read back group by group.\<close>

definition group_pairs :: "(frame_node_id \<times> live_range list) list \<Rightarrow> (live_range \<times> frame_node_id) list" where
  "group_pairs gs = concat (map (\<lambda>(f, ls). map (\<lambda>l. (l, f)) ls) gs)"

section \<open>Lemmas on the sweep\<close>

lemma trace_step_allocs_mono:
  "trace_step st e = Inr st' \<Longrightarrow> set (map fst (ts_allocs st)) \<subseteq> set (map fst (ts_allocs st'))"
  by (auto simp: trace_step_def Let_def alist_insert_def split: event_type.splits option.splits if_splits)

lemma trace_step_alloc_nonempty:
  "trace_step st e = Inr st' \<Longrightarrow> me_type e = Allocate \<Longrightarrow> ts_allocs st' \<noteq> []"
  by (auto simp: trace_step_def)

lemma trace_step_free_empty:
  "ts_allocs st = [] \<Longrightarrow> me_type e = Free \<Longrightarrow> \<exists>err. trace_step st e = Inl err"
  by (simp add: trace_step_def)

lemma trace_loop_allocs_mono:
  "trace_loop st es = Inr st' \<Longrightarrow> set (map fst (ts_allocs st)) \<subseteq> set (map fst (ts_allocs st'))"
proof (induction es arbitrary: st)
  case Nil
  then show ?case by simp
next
  case (Cons e es)
  then obtain st1 where s1: "trace_step st e = Inr st1" and r: "trace_loop st1 es = Inr st'"
    by (auto split: sum.splits)
  from trace_step_allocs_mono [OF s1] Cons.IH [OF r] show ?case by blast
qed

lemma trace_loop_nonempty_stays:
  "trace_loop st es = Inr st' \<Longrightarrow> ts_allocs st \<noteq> [] \<Longrightarrow> ts_allocs st' \<noteq> []"
  using trace_loop_allocs_mono [of st es st'] by auto

text \<open>
  From an empty \<open>allocs\<close>, a sweep over a non-empty trace either fails or leaves
  \<open>allocs\<close> non-empty: the first event is a \<open>Free\<close> with no partner, or an
  \<open>Allocate\<close> whose entry is never erased.
\<close>

lemma trace_loop_from_empty:
  assumes "ts_allocs st = []" and "es \<noteq> []" and "trace_loop st es = Inr st'"
  shows "ts_allocs st' \<noteq> []"
proof -
  from assms(2) obtain e es' where es: "es = e # es'" by (cases es) auto
  from assms(3) es obtain st1 where s1: "trace_step st e = Inr st1" and r: "trace_loop st1 es' = Inr st'"
    by (auto split: sum.splits)
  show ?thesis
  proof (cases "me_type e")
    case Allocate
    with s1 have "ts_allocs st1 \<noteq> []" by (rule trace_step_alloc_nonempty)
    with r show ?thesis by (rule trace_loop_nonempty_stays)
  next
    case Free
    from trace_step_free_empty [OF assms(1) Free] s1 show ?thesis by auto
  qed
qed

lemma getLiveRangesFromMemEvents_Inr:
  assumes ok: "getLiveRangesFromMemEvents mem_events = Inr r"
  shows "mem_events = [] \<and> r = ([], [])"
proof -
  from ok obtain st where loop: "trace_loop trace_init mem_events = Inr st"
    and empty: "ts_allocs st = []" and res: "r = (ts_managed_live_ranges st, ts_live_range_node_header st)"
    by (auto simp: getLiveRangesFromMemEvents_def split: sum.splits if_splits)
  have "mem_events = []"
  proof (rule ccontr)
    assume "mem_events \<noteq> []"
    with loop have "ts_allocs st \<noteq> []"
      by (intro trace_loop_from_empty [of trace_init]) (simp_all add: trace_init_def)
    with empty show False by simp
  qed
  with loop have "st = trace_init" by simp
  with res \<open>mem_events = []\<close> show ?thesis
    by (simp add: trace_init_def)
qed

lemma trace_step_inv:
  assumes inv: "trace_inv st" and ok: "trace_step st e = Inr st'"
  shows "trace_inv st'"
proof (cases "me_type e")
  case Allocate
  with ok have "st' = st\<lparr>ts_allocs := alist_insert (me_ptr_addr e) e (ts_allocs st)\<rparr>"
    by (simp add: trace_step_def)
  with inv show ?thesis by (simp add: trace_inv_def)
next
  case Free
  then obtain alloc where a: "map_of (ts_allocs st) (me_ptr_addr e) = Some alloc"
    using ok by (cases "map_of (ts_allocs st) (me_ptr_addr e)") (simp_all add: trace_step_def)
  let ?lvr = "\<lparr>lr_begin = me_time alloc, lr_end = me_time e\<rparr>"
  let ?f = "\<lparr>fid_pc = me_time alloc, fid_schema = me_node_schema alloc, fid_header = me_node_header alloc\<rparr>"
  from ok Free a have lt: "me_time alloc < me_time e" and
    st': "st' = st\<lparr>ts_managed_live_ranges := alist_insert ?lvr (me_size alloc) (ts_managed_live_ranges st),
                   ts_live_range_node_header := ts_live_range_node_header st @ [(?lvr, ?f)]\<rparr>"
    by (simp_all add: trace_step_def Let_def split: if_splits)
  have "set (alist_insert ?lvr (me_size alloc) (ts_managed_live_ranges st)) \<subseteq>
          insert (?lvr, me_size alloc) (set (ts_managed_live_ranges st))"
    by (auto simp: alist_insert_def)
  with inv lt show ?thesis
    by (auto simp: st' trace_inv_def distinct_alist_insert)
qed

section \<open>Lemmas on the grouping\<close>

lemma group_pairs_mset:
  "mset (group_pairs gs) = (\<Sum>g \<in># mset gs. mset (map (\<lambda>l. (l, fst g)) (snd g)))"
  by (induction gs) (auto simp: group_pairs_def)

lemma group_pairs_add_to_group:
  "mset (group_pairs (add_to_group f l gs)) = mset (group_pairs gs) + {#(l, f)#}"
  by (induction f l gs rule: add_to_group.induct) (auto simp: group_pairs_def)

lemma keys_add_to_group: "map fst (add_to_group f l gs) = (if f \<in> set (map fst gs) then map fst gs else map fst gs @ [f])"
  by (induction f l gs rule: add_to_group.induct) auto

lemma foldl_add_to_group:
  "mset (group_pairs (foldl (\<lambda>gs (lvr, f). add_to_group f lvr gs) gs xs)) = mset (group_pairs gs) + mset xs \<and>
   (distinct (map fst gs) \<longrightarrow> distinct (map fst (foldl (\<lambda>gs (lvr, f). add_to_group f lvr gs) gs xs)))"
proof (induction xs arbitrary: gs)
  case Nil
  then show ?case by simp
next
  case (Cons x xs)
  obtain lvr f where x: "x = (lvr, f)" by (cases x)
  from Cons.IH [of "add_to_group f lvr gs"] show ?case
    by (simp add: x group_pairs_add_to_group keys_add_to_group)
qed

lemma group_pairs_sort_groups:
  "mset (group_pairs (map (\<lambda>(f, lvrs). (f, sort_key lr_begin lvrs)) gs)) = mset (group_pairs gs)"
  by (induction gs) (auto simp: group_pairs_def mset_map)

section \<open>Properties\<close>

text \<open>
  C1. The sweep never erases a matched allocation, so the final assertion that
  \<open>allocs\<close> is empty fails on every trace that allocates, and a trace without an
  allocation fails at its first \<open>Free\<close>: \<open>getLiveRangesFromMemEvents\<close> succeeds
  exactly on the empty trace, and then returns no ranges.
\<close>

theorem getLiveRangesFromMemEvents_succeeds_iff:
  "getLiveRangesFromMemEvents mem_events = Inr r \<longleftrightarrow> mem_events = [] \<and> r = ([], [])"
proof
  assume "getLiveRangesFromMemEvents mem_events = Inr r"
  then show "mem_events = [] \<and> r = ([], [])" by (rule getLiveRangesFromMemEvents_Inr)
next
  assume "mem_events = [] \<and> r = ([], [])"
  then show "getLiveRangesFromMemEvents mem_events = Inr r"
    by (simp add: getLiveRangesFromMemEvents_def trace_init_def)
qed

text \<open>
  The trace of the spec's scenario (two allocations freed in reverse order) is rejected.
\<close>

theorem getLiveRangesFromMemEvents_succeeds_iff_witness:
  "getLiveRangesFromMemEvents
     [\<lparr>me_time = 1, me_allocation_trace = [], me_ptr_addr = ''X'', me_node_schema = ''aten::mm'',
       me_node_header = ''aten::mm'', me_size = 16, me_type = Allocate\<rparr>,
      \<lparr>me_time = 2, me_allocation_trace = [], me_ptr_addr = ''Y'', me_node_schema = ''aten::mm'',
       me_node_header = ''aten::mm'', me_size = 8, me_type = Allocate\<rparr>,
      \<lparr>me_time = 5, me_allocation_trace = [], me_ptr_addr = ''Y'', me_node_schema = ''aten::mm'',
       me_node_header = ''aten::mm'', me_size = 8, me_type = Free\<rparr>,
      \<lparr>me_time = 9, me_allocation_trace = [], me_ptr_addr = ''X'', me_node_schema = ''aten::mm'',
       me_node_header = ''aten::mm'', me_size = 16, me_type = Free\<rparr>]
   \<noteq> Inr ([(\<lparr>lr_begin = 2, lr_end = 5\<rparr>, 8), (\<lparr>lr_begin = 1, lr_end = 9\<rparr>, 16)],
          [(\<lparr>lr_begin = 2, lr_end = 5\<rparr>, \<lparr>fid_pc = 2, fid_schema = ''aten::mm'', fid_header = ''aten::mm''\<rparr>),
           (\<lparr>lr_begin = 1, lr_end = 9\<rparr>, \<lparr>fid_pc = 1, fid_schema = ''aten::mm'', fid_header = ''aten::mm''\<rparr>)])"
  by (simp only: getLiveRangesFromMemEvents_succeeds_iff) simp

text \<open>
  C14. \<open>collectLiveRangesPerNode\<close> returns one group per frame, the groups ordered by
  the frame's pc and each group's ranges ordered by \<open>begin\<close>, and it neither loses nor
  invents a (range, frame) pair: read back, the groups are a permutation of its input.
\<close>

theorem collectLiveRangesPerNode_correct:
  "sorted (map (\<lambda>(f, _). fid_pc f) (collectLiveRangesPerNode xs)) \<and>
   list_all (\<lambda>(f, ls). sorted (map lr_begin ls)) (collectLiveRangesPerNode xs) \<and>
   distinct (map fst (collectLiveRangesPerNode xs)) \<and>
   mset (group_pairs (collectLiveRangesPerNode xs)) = mset xs"
proof -
  define gs where "gs = foldl (\<lambda>gs (lvr, f). add_to_group f lvr gs) [] xs"
  define gs' where "gs' = map (\<lambda>(f, lvrs). (f, sort_key lr_begin lvrs)) gs"
  have r: "collectLiveRangesPerNode xs = sort_key (\<lambda>(f, _). fid_pc f) gs'"
    by (simp add: collectLiveRangesPerNode_def gs_def gs'_def)
  from foldl_add_to_group [of "[]" xs] have m: "mset (group_pairs gs) = mset xs"
    and d: "distinct (map fst gs)"
    by (simp_all add: gs_def group_pairs_def)
  have keys: "map fst (map (\<lambda>(f, lvrs). (f, sort_key lr_begin lvrs)) ys) = map fst ys" for ys
    by (induction ys) auto
  from d have d': "distinct (map fst gs')" by (simp only: gs'_def keys)
  have sorted_groups: "list_all (\<lambda>(f, ls). sorted (map lr_begin ls)) gs'"
    by (auto simp: gs'_def list_all_iff sorted_sort_key)
  have "mset (sort_key (\<lambda>(f, _). fid_pc f) gs') = mset gs'" by simp
  then have "mset (group_pairs (sort_key (\<lambda>(f, _). fid_pc f) gs')) = mset (group_pairs gs')"
    by (simp only: group_pairs_mset)
  moreover have "distinct (map fst (sort_key (\<lambda>(f, _). fid_pc f) gs'))"
    using d' by (metis mset_map mset_sort mset_eq_imp_distinct_iff)
  moreover have "list_all (\<lambda>(f, ls). sorted (map lr_begin ls)) (sort_key (\<lambda>(f, _). fid_pc f) gs')"
    using sorted_groups by (simp add: list_all_iff)
  ultimately show ?thesis
    using m group_pairs_sort_groups [of gs]
    by (simp add: r gs'_def sorted_sort_key)
qed

text \<open>
  C21. The sweep of \<open>getLiveRangesFromMemEvents\<close> keeps its invariant from any state
  that has it, whatever the events and however far it gets: the live ranges it has
  recorded are distinct keys of \<open>managed_live_ranges\<close>, each strictly ending after it
  begins, and every entry of \<open>live_range_node_header\<close> names a recorded range.
\<close>

theorem trace_loop_preserves_inv:
  assumes "trace_inv st" and "trace_loop st mem_events = Inr st'"
  shows "trace_inv st'"
  using assms
proof (induction mem_events arbitrary: st)
  case Nil
  then show ?case by simp
next
  case (Cons e es)
  then obtain st1 where s1: "trace_step st e = Inr st1" and r: "trace_loop st1 es = Inr st'"
    by (auto split: sum.splits)
  from Cons.IH [OF trace_step_inv [OF Cons.prems(1) s1] r] show ?case .
qed

text \<open>
  From the initial state, a tensor allocated at pc 1 and freed at pc 4 by the same
  operator: the sweep records \<open>[1, 4]\<close>.
\<close>

theorem trace_loop_preserves_inv_witness:
  "\<exists>st'. trace_loop trace_init
           [\<lparr>me_time = 1, me_allocation_trace = [], me_ptr_addr = ''0x10'', me_node_schema = ''aten::mm'',
             me_node_header = ''aten::mm'', me_size = 16, me_type = Allocate\<rparr>,
            \<lparr>me_time = 4, me_allocation_trace = [], me_ptr_addr = ''0x10'', me_node_schema = ''aten::mm'',
             me_node_header = ''aten::mm'', me_size = 16, me_type = Free\<rparr>] = Inr st' \<and>
         trace_inv st'"
proof -
  have init: "trace_inv trace_init" by (simp add: trace_init_def trace_inv_def)
  have "\<exists>st'. trace_loop trace_init
           [\<lparr>me_time = 1, me_allocation_trace = [], me_ptr_addr = ''0x10'', me_node_schema = ''aten::mm'',
             me_node_header = ''aten::mm'', me_size = 16, me_type = Allocate\<rparr>,
            \<lparr>me_time = 4, me_allocation_trace = [], me_ptr_addr = ''0x10'', me_node_schema = ''aten::mm'',
             me_node_header = ''aten::mm'', me_size = 16, me_type = Free\<rparr>] = Inr st'"
    by (simp add: trace_init_def trace_step_def alist_insert_def Let_def)
  then obtain st' where ok: "trace_loop trace_init
           [\<lparr>me_time = 1, me_allocation_trace = [], me_ptr_addr = ''0x10'', me_node_schema = ''aten::mm'',
             me_node_header = ''aten::mm'', me_size = 16, me_type = Allocate\<rparr>,
            \<lparr>me_time = 4, me_allocation_trace = [], me_ptr_addr = ''0x10'', me_node_schema = ''aten::mm'',
             me_node_header = ''aten::mm'', me_size = 16, me_type = Free\<rparr>] = Inr st'" by blast
  with trace_loop_preserves_inv [OF init ok] show ?thesis by blast
qed

end
