(* ===== verification/Materialize.thy ===== *)
theory Materialize
  imports Graph
begin

text \<open>
  The plan materializer (spec component E) of \<open>memory_planning.cpp\<close>:
  \<open>getSizesStrides\<close>, \<open>insertAllocStorageNode\<close>, which puts one
  \<open>prim::AllocateStorage\<close> node at the front of the graph, \<open>insertAllocTensorNodes\<close>
  (static mode), which puts a \<open>prim::AllocateTensor\<close> before the producer of every
  managed value and makes it an extra input of that producer, and
  \<open>insertPreAllocTensorNodes\<close> (trace mode), which walks a cursor through the graph
  and inserts \<open>prim::PreAllocateTensor\<close> nodes. Node attributes are \<open>int64_t\<close>:
  the \<open>uint64_t\<close> sizes and offsets are converted on the way in and out.
\<close>

section \<open>Attributes of an allocation\<close>

text \<open>Value-initialised \<open>Region{}\<close>, what \<open>allocations[lvr]\<close> yields for a missing key.\<close>

definition default_region :: region where
  "default_region = \<lparr>reg_offset = 0, reg_size = 0\<rparr>"

definition getSizesStrides :: "tensor_type \<Rightarrow> int list \<times> int list" where
  "getSizesStrides ttp =
     (let sizes = (case tt_sizes ttp of
                     Some s \<Rightarrow> if s \<noteq> [] \<and> hd s \<noteq> 0 then s else [0]
                   | None \<Rightarrow> [0]);
          strides = (case tt_strides ttp of
                       Some s \<Rightarrow> if s \<noteq> [] \<and> hd s \<noteq> 0 then s else defaultStrides sizes
                     | None \<Rightarrow> defaultStrides sizes)
      in (sizes, strides))"

section \<open>The storage node\<close>

text \<open>
  \<open>insertAllocStorageNode\<close>; \<open>device_type\<close> is what \<open>pickDeviceType(graph)\<close>
  returns (the enumerator of \<open>c10::DeviceType\<close>), \<open>kCPU = 0\<close> when it has none.
\<close>

definition insertAllocStorageNode :: "int option \<Rightarrow> graph \<Rightarrow> u64 \<Rightarrow> graph \<times> node" where
  "insertAllocStorageNode device_type graph total_size =
     (let (storage, graph1) = create_node graph ''prim::AllocateStorage'' 1;
          storage1 = set_attr ''total_size'' (AttrInt (to_int64 total_size)) storage;
          storage2 = set_attr ''device''
                       (AttrInt (int8_cast (case device_type of Some d \<Rightarrow> d | None \<Rightarrow> 0))) storage1
      in (insert_node_at 0 storage2 graph1, storage2))"

section \<open>Static mode\<close>

text \<open>
  One iteration of the loop of \<open>insertAllocTensorNodes\<close> over
  \<open>manage_range_values\<close>: \<open>allocations[lvr]\<close>, the producer \<open>value->node()\<close>, a
  fresh \<open>AllocateTensor\<close> node whose output becomes the producer's last input and
  whose input is the storage, the \<open>TORCH_CHECK\<close> on the region in \<open>uint64_t\<close>, and
  the attributes. An exception leaves the loop.
\<close>

definition alloc_tensor_step ::
  "graph \<Rightarrow> node \<Rightarrow> u64 \<Rightarrow> plan \<Rightarrow> live_range \<times> nat \<Rightarrow> error + graph" where
  "alloc_tensor_step graph storage total_size allocations =
     (\<lambda>(lvr, allocation).
       let region = lookup_default default_region allocations lvr
       in case producer_index graph allocation of
            None \<Rightarrow> Inl (UndefinedBehaviour ''value without a producing node'')
          | Some node \<Rightarrow>
              (let (alloc, graph1) = create_node graph ''prim::AllocateTensor'' 1;
                   graph2 = add_input_at node (hd (n_outputs alloc)) graph1;
                   alloc1 = alloc\<lparr>n_inputs := n_inputs alloc @ [hd (n_outputs storage)]\<rparr>
               in case g_types graph allocation of
                    OtherT _ \<Rightarrow> Inl (TorchCheck ''expected TensorType'')
                  | TensorT ttp \<Rightarrow>
                      (let (sizes, strides) = getSizesStrides ttp
                       in if \<not> reg_offset region + reg_size region \<le> total_size
                          then Inl (TorchCheck ''trying to create an allocation that exceeds previously planned memory'')
                          else
                            (case get_attr_i storage ''device'' of
                               Inl e \<Rightarrow> Inl e
                             | Inr device \<Rightarrow>
                                 (case tt_scalar_type ttp of
                                    None \<Rightarrow> Inl BadOptionalAccess
                                  | Some scalar_type \<Rightarrow>
                                      Inr (insert_node_at node
                                        (set_attr ''dtype'' (AttrInt (int8_cast (scalar_type_code scalar_type)))
                                         (set_attr ''device'' (AttrInt (int8_cast device))
                                          (set_attr ''stride'' (AttrInts strides)
                                           (set_attr ''sizes'' (AttrInts sizes)
                                            (set_attr ''offset'' (AttrInt (to_int64 (reg_offset region)))
                                             (set_attr ''size'' (AttrInt (to_int64 (reg_size region))) alloc1))))))
                                        graph2))))))"

fun insert_alloc_tensors ::
  "graph \<Rightarrow> node \<Rightarrow> u64 \<Rightarrow> plan \<Rightarrow> (live_range \<times> nat) list \<Rightarrow> error + graph" where
  "insert_alloc_tensors graph storage total_size allocations [] = Inr graph"
| "insert_alloc_tensors graph storage total_size allocations (item # rest) =
     (case alloc_tensor_step graph storage total_size allocations item of
        Inl e \<Rightarrow> Inl e
      | Inr graph' \<Rightarrow> insert_alloc_tensors graph' storage total_size allocations rest)"

definition insertAllocTensorNodes ::
  "graph \<Rightarrow> node \<Rightarrow> plan \<Rightarrow> (live_range \<times> nat) list \<Rightarrow> error + graph" where
  "insertAllocTensorNodes graph storage allocations manage_range_values =
     (case get_attr_i storage ''total_size'' of
        Inl e \<Rightarrow> Inl e
      | Inr t \<Rightarrow> insert_alloc_tensors graph storage (from_int64 t) allocations manage_range_values)"

text \<open>
  What the static materialisation promises for one value: some \<open>AllocateTensor\<close> node
  of the graph carries the given \<open>offset\<close> and \<open>size\<close> attributes and its output is an
  input of a node that produces the value.
\<close>

definition feeds_alloc :: "graph \<Rightarrow> int \<Rightarrow> int \<Rightarrow> nat \<Rightarrow> bool" where
  "feeds_alloc g off sz v \<longleftrightarrow>
     (\<exists>a \<in> set (g_nodes g). n_kind a = ''prim::AllocateTensor'' \<and>
        get_attr_i a ''offset'' = Inr off \<and> get_attr_i a ''size'' = Inr sz \<and>
        (\<exists>p \<in> set (g_nodes g). v \<in> set (n_outputs p) \<and> hd (n_outputs a) \<in> set (n_inputs p)))"

section \<open>Trace mode\<close>

text \<open>
  \<open>while (!getHeader(*node).compare(frame_id.node_header)) node++;\<close> --
  \<open>compare\<close> returns 0 on equal strings, so the cursor moves on while the node's header
  equals the frame's and stops at the first node whose header differs. Running past the
  last node dereferences the end iterator.
\<close>

function advance_cursor :: "string \<Rightarrow> node list \<Rightarrow> nat \<Rightarrow> error + nat" where
  "advance_cursor header nodes i =
     (if i < length nodes
      then (if n_header (nodes ! i) = header then advance_cursor header nodes (Suc i) else Inr i)
      else Inl (UndefinedBehaviour ''node iterator past the end of the graph''))"
  by pat_completeness auto
termination
  by (relation "measure (\<lambda>(header, nodes, i). length nodes - i)") auto

declare advance_cursor.simps [simp del]

text \<open>The inner loop: one \<open>PreAllocateTensor\<close> per live range, each before the cursor node.\<close>

fun insert_pre_allocs :: "graph \<Rightarrow> nat \<Rightarrow> plan \<Rightarrow> live_range list \<Rightarrow> graph \<times> nat" where
  "insert_pre_allocs graph node allocations [] = (graph, node)"
| "insert_pre_allocs graph node allocations (lvr # lvrs) =
     (let region = lookup_default default_region allocations lvr;
          (alloc, graph1) = create_node graph ''prim::PreAllocateTensor'' 0;
          alloc1 = set_attr ''offset'' (AttrInt (to_int64 (reg_offset region)))
                     (set_attr ''size'' (AttrInt (to_int64 (reg_size region))) alloc)
      in insert_pre_allocs (insert_node_at node alloc1 graph1) (Suc node) allocations lvrs)"

text \<open>
  The outer loop over the frames. \<open>TORCH_INTERNAL_ASSERT(s.compare(header))\<close> holds
  when the strings differ.
\<close>

fun insert_pre_alloc_groups ::
  "graph \<Rightarrow> nat \<Rightarrow> plan \<Rightarrow> (frame_node_id \<times> live_range list) list \<Rightarrow> error + graph" where
  "insert_pre_alloc_groups graph node allocations [] = Inr graph"
| "insert_pre_alloc_groups graph node allocations ((frame_id, lvrs) # rest) =
     (let lvrs' = sort_key lr_begin lvrs
      in case advance_cursor (fid_header frame_id) (g_nodes graph) node of
           Inl e \<Rightarrow> Inl e
         | Inr node' \<Rightarrow>
             if n_header (g_nodes graph ! node') = fid_header frame_id
             then Inl (InternalAssert ''canonicalSchemaString(node->schema()).compare(frame_id.node_header)'')
             else
               (let (graph', node'') = insert_pre_allocs graph node' allocations lvrs'
                in insert_pre_alloc_groups graph' node'' allocations rest))"

definition insertPreAllocTensorNodes ::
  "graph \<Rightarrow> node \<Rightarrow> plan \<Rightarrow> (frame_node_id \<times> live_range list) list \<Rightarrow> error + graph" where
  "insertPreAllocTensorNodes graph storage allocations collected_node_live_ranges =
     insert_pre_alloc_groups graph 0 allocations
       (sort_key (\<lambda>(f, _). fid_pc f) collected_node_live_ranges)"

section \<open>Lemmas: static mode\<close>

text \<open>The region read by \<open>allocations[lvr]\<close> ends below the plan's total, in \<open>uint64_t\<close>.\<close>

lemma region_within_total:
  "reg_offset (lookup_default default_region allocations lvr) +
   reg_size (lookup_default default_region allocations lvr) \<le> getTotalAllocationSize allocations"
proof (cases "map_of allocations lvr")
  case None
  then show ?thesis by (simp add: lookup_default_def default_region_def)
next
  case (Some g)
  then have "(lvr, g) \<in> set allocations" by (rule map_of_SomeD)
  with Some show ?thesis by (simp add: lookup_default_def total_size_ge)
qed

lemma create_node_fst:
  "fst (create_node g kind n) =
     \<lparr>n_kind = kind, n_inputs = [], n_outputs = [g_next_value g..<g_next_value g + n],
      n_header = kind, n_attrs = []\<rparr>"
  by (simp add: create_node_def)

lemma create_node_snd_nodes [simp]: "g_nodes (snd (create_node g kind n)) = g_nodes g"
  by (simp add: create_node_def)

lemma create_node_snd_types [simp]: "g_types (snd (create_node g kind n)) = g_types g"
  by (simp add: create_node_def)

lemma get_attr_i_Inl: "get_attr_i n name = Inl e \<Longrightarrow> e = TorchCheck ''required attribute not found''"
  by (auto simp: get_attr_i_def split: option.splits attr_val.splits)

text \<open>The allocation check of one step never fails against the plan's total.\<close>

lemma alloc_tensor_step_no_overflow_error:
  "alloc_tensor_step graph storage (getTotalAllocationSize allocations) allocations item \<noteq>
     Inl (TorchCheck ''trying to create an allocation that exceeds previously planned memory'')"
proof -
  obtain lvr v where x: "item = (lvr, v)" by (cases item)
  note within = region_within_total [of allocations lvr]
  show ?thesis
  proof (cases "producer_index graph v")
    case None
    then show ?thesis by (simp add: x alloc_tensor_step_def)
  next
    case (Some p)
    show ?thesis
    proof (cases "g_types graph v")
      case (OtherT t)
      have "alloc_tensor_step graph storage (getTotalAllocationSize allocations) allocations (lvr, v) =
          Inl (TorchCheck ''expected TensorType'')"
        unfolding alloc_tensor_step_def using Some OtherT by (simp add: Let_def split: prod.split)
      then show ?thesis by (simp add: x)
    next
      case (TensorT ttp)
      have "\<not> \<not> reg_offset (lookup_default default_region allocations lvr) +
          reg_size (lookup_default default_region allocations lvr) \<le> getTotalAllocationSize allocations"
        using within by simp
      then show ?thesis
        unfolding alloc_tensor_step_def x using Some TensorT
        by (simp add: Let_def split: prod.split option.split sum.split del: not_not)
          (auto dest: get_attr_i_Inl split: option.split)
    qed
  qed
qed

lemma insert_alloc_tensors_no_overflow_error:
  "insert_alloc_tensors graph storage (getTotalAllocationSize allocations) allocations mrv \<noteq>
     Inl (TorchCheck ''trying to create an allocation that exceeds previously planned memory'')"
proof (induction mrv arbitrary: graph)
  case Nil
  then show ?case by simp
next
  case (Cons x mrv)
  show ?case
    using Cons.IH alloc_tensor_step_no_overflow_error [of graph storage allocations x]
    by (auto split: sum.split)
qed

text \<open>What a successful step does to the graph: the shape of the result.\<close>

lemma alloc_tensor_step_Inr:
  assumes ok: "alloc_tensor_step graph storage total_size allocations (lvr, v) = Inr graph'"
  shows "\<exists>p alloc. producer_index graph v = Some p \<and>
           g_nodes graph' = take p (g_nodes graph) @ [alloc] @
             (g_nodes graph ! p)\<lparr>n_inputs := n_inputs (g_nodes graph ! p) @ [g_next_value graph]\<rparr> #
             drop (Suc p) (g_nodes graph) \<and>
           g_next_value graph' = Suc (g_next_value graph) \<and>
           n_kind alloc = ''prim::AllocateTensor'' \<and> n_outputs alloc = [g_next_value graph] \<and>
           n_inputs alloc = [hd (n_outputs storage)] \<and>
           get_attr_i alloc ''size'' = Inr (to_int64 (reg_size (lookup_default default_region allocations lvr))) \<and>
           get_attr_i alloc ''offset'' = Inr (to_int64 (reg_offset (lookup_default default_region allocations lvr))) \<and>
           reg_offset (lookup_default default_region allocations lvr) +
             reg_size (lookup_default default_region allocations lvr) \<le> total_size"
proof -
  let ?region = "lookup_default default_region allocations lvr"
  obtain p where p: "producer_index graph v = Some p"
    using ok by (cases "producer_index graph v") (simp_all add: alloc_tensor_step_def)
  from producer_index_Some [OF p] have plen: "p < length (g_nodes graph)" by simp
  obtain ttp where ty: "g_types graph v = TensorT ttp"
    using ok p by (cases "g_types graph v") (simp_all add: alloc_tensor_step_def Let_def split: prod.splits)
  obtain sizes strides where ss: "getSizesStrides ttp = (sizes, strides)" by (cases "getSizesStrides ttp")
  have within: "reg_offset ?region + reg_size ?region \<le> total_size"
    using ok p ty ss by (auto simp: alloc_tensor_step_def Let_def split: prod.splits if_splits)
  obtain device where dev: "get_attr_i storage ''device'' = Inr device"
    using ok p ty ss within
    by (cases "get_attr_i storage ''device''") (auto simp: alloc_tensor_step_def Let_def split: prod.splits)
  obtain st where st: "tt_scalar_type ttp = Some st"
    using ok p ty ss within dev
    by (cases "tt_scalar_type ttp") (auto simp: alloc_tensor_step_def Let_def split: prod.splits)
  define alloc0 where "alloc0 = fst (create_node graph ''prim::AllocateTensor'' 1)"
  define alloc where "alloc = set_attr ''dtype'' (AttrInt (int8_cast (scalar_type_code st)))
      (set_attr ''device'' (AttrInt (int8_cast device)) (set_attr ''stride'' (AttrInts strides)
       (set_attr ''sizes'' (AttrInts sizes) (set_attr ''offset'' (AttrInt (to_int64 (reg_offset ?region)))
        (set_attr ''size'' (AttrInt (to_int64 (reg_size ?region)))
          (alloc0\<lparr>n_inputs := n_inputs alloc0 @ [hd (n_outputs storage)]\<rparr>))))))"
  have g': "graph' = insert_node_at p alloc
              (add_input_at p (g_next_value graph) (snd (create_node graph ''prim::AllocateTensor'' 1)))"
    using ok p ty ss within dev st
    by (simp add: alloc_tensor_step_def Let_def alloc_def alloc0_def create_node_def split: prod.splits)
  have nodes: "g_nodes graph' = take p (g_nodes graph) @ [alloc] @
             (g_nodes graph ! p)\<lparr>n_inputs := n_inputs (g_nodes graph ! p) @ [g_next_value graph]\<rparr> #
             drop (Suc p) (g_nodes graph)"
    using plen by (simp add: g' insert_node_at_def add_input_at_def create_node_def
        take_update_cancel drop_update_swap Cons_nth_drop_Suc [symmetric] upd_conv_take_nth_drop)
  have "g_next_value graph' = Suc (g_next_value graph)"
    by (simp add: g' insert_node_at_def add_input_at_def create_node_def)
  moreover have "n_kind alloc = ''prim::AllocateTensor''" "n_outputs alloc = [g_next_value graph]"
    "n_inputs alloc = [hd (n_outputs storage)]"
    by (simp_all add: alloc_def alloc0_def create_node_def)
  moreover have "get_attr_i alloc ''size'' = Inr (to_int64 (reg_size ?region))"
    "get_attr_i alloc ''offset'' = Inr (to_int64 (reg_offset ?region))"
    by (simp_all add: alloc_def)
  ultimately show ?thesis using p nodes within by blast
qed

text \<open>The node kinds of the graph, as a multiset: what each insertion adds.\<close>

lemma alloc_tensor_step_kinds:
  assumes "alloc_tensor_step graph storage total_size allocations item = Inr graph'"
  shows "mset (map n_kind (g_nodes graph')) = add_mset ''prim::AllocateTensor'' (mset (map n_kind (g_nodes graph))) \<and>
         g_next_value graph' = Suc (g_next_value graph)"
proof -
  obtain lvr v where item: "item = (lvr, v)" by (cases item)
  from alloc_tensor_step_Inr [OF assms [unfolded item]] obtain p alloc where
    p: "producer_index graph v = Some p" and
    nodes: "g_nodes graph' = take p (g_nodes graph) @ [alloc] @
             (g_nodes graph ! p)\<lparr>n_inputs := n_inputs (g_nodes graph ! p) @ [g_next_value graph]\<rparr> #
             drop (Suc p) (g_nodes graph)" and
    nv: "g_next_value graph' = Suc (g_next_value graph)" and
    kind: "n_kind alloc = ''prim::AllocateTensor''"
    by blast
  from producer_index_Some [OF p] have plen: "p < length (g_nodes graph)" by simp
  have "mset (map n_kind (g_nodes graph)) =
        mset (map n_kind (take p (g_nodes graph) @ g_nodes graph ! p # drop (Suc p) (g_nodes graph)))"
    using plen by (simp only: id_take_nth_drop [symmetric])
  with kind nv show ?thesis by (simp add: nodes)
qed

lemma insert_alloc_tensors_kinds:
  "insert_alloc_tensors graph storage total_size allocations items = Inr graph' \<Longrightarrow>
   mset (map n_kind (g_nodes graph')) =
     mset (map n_kind (g_nodes graph)) + replicate_mset (length items) ''prim::AllocateTensor''"
proof (induction items arbitrary: graph)
  case Nil
  then show ?case by simp
next
  case (Cons item items)
  then obtain graph1 where s1: "alloc_tensor_step graph storage total_size allocations item = Inr graph1"
    and r: "insert_alloc_tensors graph1 storage total_size allocations items = Inr graph'"
    by (auto split: sum.splits)
  from Cons.IH [OF r] alloc_tensor_step_kinds [OF s1] show ?case by simp
qed

lemma insertAllocTensorNodes_kinds:
  assumes "insertAllocTensorNodes graph storage allocations items = Inr graph'"
  shows "mset (map n_kind (g_nodes graph')) =
           mset (map n_kind (g_nodes graph)) + replicate_mset (length items) ''prim::AllocateTensor''"
proof (cases "get_attr_i storage ''total_size''")
  case (Inl e)
  with assms show ?thesis by (simp add: insertAllocTensorNodes_def)
next
  case (Inr t)
  with assms have "insert_alloc_tensors graph storage (from_int64 t) allocations items = Inr graph'"
    by (simp add: insertAllocTensorNodes_def)
  then show ?thesis by (rule insert_alloc_tensors_kinds)
qed

lemma insertAllocStorageNode_kinds:
  "mset (map n_kind (g_nodes (fst (insertAllocStorageNode device graph total_size)))) =
   add_mset ''prim::AllocateStorage'' (mset (map n_kind (g_nodes graph)))"
  by (simp add: insertAllocStorageNode_def create_node_def insert_node_at_def set_attr_def Let_def)

lemma alloc_tensor_step_outputs:
  assumes "alloc_tensor_step graph storage total_size allocations item = Inr graph'"
  shows "mset (concat (map n_outputs (g_nodes graph'))) =
           mset (concat (map n_outputs (g_nodes graph))) + mset [g_next_value graph ..< g_next_value graph'] \<and>
         g_next_value graph' = Suc (g_next_value graph)"
proof -
  obtain lvr v where item: "item = (lvr, v)" by (cases item)
  from alloc_tensor_step_Inr [OF assms [unfolded item]] obtain p alloc where
    p: "producer_index graph v = Some p" and
    nodes: "g_nodes graph' = take p (g_nodes graph) @ [alloc] @
             (g_nodes graph ! p)\<lparr>n_inputs := n_inputs (g_nodes graph ! p) @ [g_next_value graph]\<rparr> #
             drop (Suc p) (g_nodes graph)" and
    nv: "g_next_value graph' = Suc (g_next_value graph)" and
    outs: "n_outputs alloc = [g_next_value graph]"
    by blast
  from producer_index_Some [OF p] have plen: "p < length (g_nodes graph)" by simp
  define prod' where "prod' = (g_nodes graph ! p)\<lparr>n_inputs := n_inputs (g_nodes graph ! p) @ [g_next_value graph]\<rparr>"
  define ns' where "ns' = (g_nodes graph)[p := prod']"
  have "g_nodes graph' = take p ns' @ alloc # drop p ns'"
    using plen by (simp add: nodes ns'_def prod'_def upd_conv_take_nth_drop)
  then have "mset (concat (map n_outputs (g_nodes graph'))) = mset (concat (map n_outputs ns')) + mset (n_outputs alloc)"
    by (simp only: mset_concat_map_insert)
  also have "map n_outputs ns' = map n_outputs (g_nodes graph)"
    using plen by (simp add: ns'_def prod'_def map_list_update_same)
  finally show ?thesis by (simp add: nv outs)
qed

lemma alloc_tensor_step_types:
  "alloc_tensor_step graph storage total_size allocations item = Inr graph' \<Longrightarrow> g_types graph' = g_types graph"
  by (auto simp: alloc_tensor_step_def Let_def insert_node_at_def add_input_at_def create_node_def
      split: option.splits value_type.splits prod.splits sum.splits if_splits)

text \<open>The conditions under which one step does not throw.\<close>

lemma alloc_tensor_step_ok:
  assumes "producer_index graph v = Some p" and "g_types graph v = TensorT ttp"
    and "tt_scalar_type ttp = Some st" and "get_attr_i storage ''device'' = Inr device"
    and "reg_offset (lookup_default default_region allocations lvr) +
         reg_size (lookup_default default_region allocations lvr) \<le> total_size"
  shows "\<exists>graph'. alloc_tensor_step graph storage total_size allocations (lvr, v) = Inr graph'"
  using assms by (simp add: alloc_tensor_step_def Let_def split: prod.split)

section \<open>Lemmas: trace mode\<close>

lemma advance_cursor_Inr:
  "advance_cursor h ns i = Inr k \<Longrightarrow>
     i \<le> k \<and> k < length ns \<and> n_header (ns ! k) \<noteq> h \<and> (\<forall>j. i \<le> j \<and> j < k \<longrightarrow> n_header (ns ! j) = h)"
proof (induction h ns i rule: advance_cursor.induct)
  case (1 h ns i)
  note eq = advance_cursor.simps [of h ns i]
  show ?case
  proof (cases "i < length ns \<and> n_header (ns ! i) = h")
    case True
    with "1.prems" eq have rec: "advance_cursor h ns (Suc i) = Inr k" by simp
    from "1.IH" [OF conjunct1 [OF True] conjunct2 [OF True] rec]
    have ih: "Suc i \<le> k" "k < length ns" "n_header (ns ! k) \<noteq> h"
      "\<forall>j. Suc i \<le> j \<and> j < k \<longrightarrow> n_header (ns ! j) = h" by auto
    have "\<forall>j. i \<le> j \<and> j < k \<longrightarrow> n_header (ns ! j) = h"
    proof (intro allI impI)
      fix j assume j: "i \<le> j \<and> j < k"
      show "n_header (ns ! j) = h"
      proof (cases "j = i")
        case True
        with \<open>i < length ns \<and> n_header (ns ! i) = h\<close> show ?thesis by simp
      next
        case False
        with j ih(4) show ?thesis by simp
      qed
    qed
    with ih show ?thesis by simp
  next
    case False
    with "1.prems" eq have "i < length ns" "k = i" "n_header (ns ! i) \<noteq> h"
      by (simp_all split: if_splits)
    then show ?thesis by auto
  qed
qed

lemma advance_cursor_Inl:
  "advance_cursor h ns i = Inl e \<Longrightarrow> \<forall>j. i \<le> j \<and> j < length ns \<longrightarrow> n_header (ns ! j) = h"
proof (induction h ns i rule: advance_cursor.induct)
  case (1 h ns i)
  note eq = advance_cursor.simps [of h ns i]
  show ?case
  proof (cases "i < length ns \<and> n_header (ns ! i) = h")
    case True
    with "1.prems" eq have rec: "advance_cursor h ns (Suc i) = Inl e" by simp
    from "1.IH" [OF conjunct1 [OF True] conjunct2 [OF True] rec]
    have ih: "\<forall>j. Suc i \<le> j \<and> j < length ns \<longrightarrow> n_header (ns ! j) = h" .
    show ?thesis
    proof (intro allI impI)
      fix j assume j: "i \<le> j \<and> j < length ns"
      show "n_header (ns ! j) = h"
        using True j ih by (cases "j = i") simp_all
    qed
  next
    case False
    with "1.prems" eq have "\<not> i < length ns"
      by (auto split: if_splits)
    then show ?thesis by auto
  qed
qed

lemma insert_pre_allocs_nodes:
  "c \<le> length (g_nodes g) \<Longrightarrow>
   \<exists>pres. g_nodes (fst (insert_pre_allocs g c allocations lvrs)) = take c (g_nodes g) @ pres @ drop c (g_nodes g) \<and>
          snd (insert_pre_allocs g c allocations lvrs) = c + length lvrs \<and>
          map n_kind pres = replicate (length lvrs) ''prim::PreAllocateTensor''"
proof (induction lvrs arbitrary: g c)
  case Nil
  then show ?case by simp
next
  case (Cons lvr lvrs)
  let ?region = "lookup_default default_region allocations lvr"
  let ?alloc = "set_attr ''offset'' (AttrInt (to_int64 (reg_offset ?region)))
                  (set_attr ''size'' (AttrInt (to_int64 (reg_size ?region)))
                     (fst (create_node g ''prim::PreAllocateTensor'' 0)))"
  let ?g1 = "insert_node_at c ?alloc (snd (create_node g ''prim::PreAllocateTensor'' 0))"
  have eq: "insert_pre_allocs g c allocations (lvr # lvrs) = insert_pre_allocs ?g1 (Suc c) allocations lvrs"
    by (simp add: Let_def split: prod.split)
  have n1: "g_nodes ?g1 = take c (g_nodes g) @ [?alloc] @ drop c (g_nodes g)"
    by (simp add: insert_node_at_def)
  from Cons.prems have "Suc c \<le> length (g_nodes ?g1)" by (simp add: n1)
  from Cons.IH [OF this] obtain pres where
    p: "g_nodes (fst (insert_pre_allocs ?g1 (Suc c) allocations lvrs)) =
          take (Suc c) (g_nodes ?g1) @ pres @ drop (Suc c) (g_nodes ?g1)"
    and c': "snd (insert_pre_allocs ?g1 (Suc c) allocations lvrs) = Suc c + length lvrs"
    and k: "map n_kind pres = replicate (length lvrs) ''prim::PreAllocateTensor''"
    by blast
  have "take (Suc c) (g_nodes ?g1) = take c (g_nodes g) @ [?alloc]"
    using Cons.prems by (simp add: n1 take_Suc_conv_app_nth min_def)
  moreover have "drop (Suc c) (g_nodes ?g1) = drop c (g_nodes g)"
    using Cons.prems by (simp add: n1)
  moreover have "n_kind ?alloc = ''prim::PreAllocateTensor''"
    by (simp add: set_attr_def create_node_def)
  ultimately show ?case
    using p c' k eq by (intro exI [of _ "?alloc # pres"]) simp
qed

lemma insertAllocStorageNode_total_size:
  "get_attr_i (snd (insertAllocStorageNode device graph total_size)) ''total_size'' =
     Inr (to_int64 total_size)"
  by (simp add: insertAllocStorageNode_def create_node_def get_attr_i_def set_attr_def Let_def
      map_of_alist_assign)

lemma insertAllocTensorNodes_no_overflow_error:
  "insertAllocTensorNodes graph (snd (insertAllocStorageNode device graph0 (getTotalAllocationSize allocations)))
      allocations mrv \<noteq>
     Inl (TorchCheck ''trying to create an allocation that exceeds previously planned memory'')"
  using insert_alloc_tensors_no_overflow_error
  by (simp add: insertAllocTensorNodes_def insertAllocStorageNode_total_size)

lemma insertAllocStorageNode_graph:
  "g_nodes (fst (insertAllocStorageNode device graph total_size)) =
     snd (insertAllocStorageNode device graph total_size) # g_nodes graph \<and>
   g_types (fst (insertAllocStorageNode device graph total_size)) = g_types graph"
  by (simp add: insertAllocStorageNode_def create_node_def insert_node_at_def Let_def)

lemma insertAllocStorageNode_device:
  "\<exists>d. get_attr_i (snd (insertAllocStorageNode device graph total_size)) ''device'' = Inr d"
  by (simp add: insertAllocStorageNode_def create_node_def get_attr_i_def set_attr_def Let_def
      map_of_alist_assign)

text \<open>
  The loop of \<open>insertAllocTensorNodes\<close> throws nothing when every value it visits
  is produced by a node of the graph and is a tensor with a scalar type, the storage
  node has its \<open>device\<close> attribute, and the total is the plan's.
\<close>

lemma insert_alloc_tensors_ok:
  assumes "\<forall>(lvr, v) \<in> set items. v \<in> set (concat (map n_outputs (g_nodes graph))) \<and>
             (\<exists>ttp st. g_types graph v = TensorT ttp \<and> tt_scalar_type ttp = Some st)"
    and "get_attr_i storage ''device'' = Inr device"
  shows "\<exists>graph'. insert_alloc_tensors graph storage (getTotalAllocationSize allocations) allocations items = Inr graph'"
  using assms(1)
proof (induction items arbitrary: graph)
  case Nil
  then show ?case by simp
next
  case (Cons item items)
  obtain lvr v where item: "item = (lvr, v)" by (cases item)
  with Cons.prems obtain ttp st where
    prod: "v \<in> set (concat (map n_outputs (g_nodes graph)))" and
    ty: "g_types graph v = TensorT ttp" and st: "tt_scalar_type ttp = Some st" by auto
  from producer_index_produced [OF prod] obtain p where "producer_index graph v = Some p" ..
  from alloc_tensor_step_ok [OF this ty st assms(2) region_within_total] obtain graph1 where
    step: "alloc_tensor_step graph storage (getTotalAllocationSize allocations) allocations (lvr, v) = Inr graph1" ..
  have sub: "set (concat (map n_outputs (g_nodes graph))) \<subseteq> set (concat (map n_outputs (g_nodes graph1)))"
    using arg_cong [OF conjunct1 [OF alloc_tensor_step_outputs [OF step]], of set_mset] by auto
  have ty1: "g_types graph1 = g_types graph" by (rule alloc_tensor_step_types [OF step])
  have "\<forall>(lvr, v) \<in> set items. v \<in> set (concat (map n_outputs (g_nodes graph1))) \<and>
             (\<exists>ttp st. g_types graph1 v = TensorT ttp \<and> tt_scalar_type ttp = Some st)"
  proof -
    define ok where "ok (g :: graph) = (\<lambda>(lvr :: live_range, v). v \<in> set (concat (map n_outputs (g_nodes g))) \<and>
             (\<exists>ttp st. g_types g v = TensorT ttp \<and> tt_scalar_type ttp = Some st))" for g
    have "\<And>x. ok graph x \<Longrightarrow> ok graph1 x" using sub unfolding ok_def ty1 by (auto split: prod.splits)
    moreover have "\<forall>x \<in> set items. ok graph x" using Cons.prems unfolding ok_def by simp
    ultimately show ?thesis unfolding ok_def by blast
  qed
  from Cons.IH [OF this] show ?case by (simp add: item step)
qed

lemma insertAllocTensorNodes_ok:
  assumes "insertAllocStorageNode device graph (getTotalAllocationSize allocations) = (graph1, storage)"
    and "\<forall>(lvr, v) \<in> set items. v \<in> set (concat (map n_outputs (g_nodes graph))) \<and>
             (\<exists>ttp st. g_types graph v = TensorT ttp \<and> tt_scalar_type ttp = Some st)"
  shows "\<exists>graph'. insertAllocTensorNodes graph1 storage allocations items = Inr graph'"
proof -
  note g = insertAllocStorageNode_graph [of device graph "getTotalAllocationSize allocations", unfolded assms(1) fst_conv snd_conv]
  obtain d where dev: "get_attr_i storage ''device'' = Inr d"
    using insertAllocStorageNode_device [of device graph "getTotalAllocationSize allocations"] assms(1) by auto
  have tot: "get_attr_i storage ''total_size'' = Inr (to_int64 (getTotalAllocationSize allocations))"
    using insertAllocStorageNode_total_size [of device graph "getTotalAllocationSize allocations"] assms(1) by simp
  have "\<forall>(lvr, v) \<in> set items. v \<in> set (concat (map n_outputs (g_nodes graph1))) \<and>
             (\<exists>ttp st. g_types graph1 v = TensorT ttp \<and> tt_scalar_type ttp = Some st)"
    using assms(2) g by auto
  from insert_alloc_tensors_ok [OF this dev] show ?thesis
    by (simp add: insertAllocTensorNodes_def tot)
qed

text \<open>A step keeps every node, up to inputs appended to the producer.\<close>

lemma alloc_tensor_step_nodes_kept:
  assumes step: "alloc_tensor_step graph storage total_size allocations item = Inr graph'"
    and n: "n \<in> set (g_nodes graph)"
  shows "\<exists>n' \<in> set (g_nodes graph'). n_kind n' = n_kind n \<and> n_attrs n' = n_attrs n \<and>
           n_outputs n' = n_outputs n \<and> set (n_inputs n) \<subseteq> set (n_inputs n')"
proof -
  obtain lvr v where item: "item = (lvr, v)" by (cases item)
  from alloc_tensor_step_Inr [OF step [unfolded item]] obtain p alloc where
    p: "producer_index graph v = Some p" and
    nodes: "g_nodes graph' = take p (g_nodes graph) @ [alloc] @
             (g_nodes graph ! p)\<lparr>n_inputs := n_inputs (g_nodes graph ! p) @ [g_next_value graph]\<rparr> #
             drop (Suc p) (g_nodes graph)"
    by blast
  from producer_index_Some [OF p] have plen: "p < length (g_nodes graph)" by simp
  have "n \<in> set (take p (g_nodes graph) @ g_nodes graph ! p # drop (Suc p) (g_nodes graph))"
    using n by (simp only: id_take_nth_drop [OF plen, symmetric])
  then consider "n \<in> set (take p (g_nodes graph))" | "n = g_nodes graph ! p" | "n \<in> set (drop (Suc p) (g_nodes graph))"
    by auto
  then show ?thesis
  proof cases
    case 2
    then show ?thesis unfolding nodes by (intro bexI [of _ "n\<lparr>n_inputs := n_inputs n @ [g_next_value graph]\<rparr>"]) auto
  qed (auto simp: nodes)
qed

lemma feeds_alloc_step:
  assumes f: "feeds_alloc graph off sz v"
    and step: "alloc_tensor_step graph storage total_size allocations item = Inr graph'"
  shows "feeds_alloc graph' off sz v"
proof -
  from f obtain a p where a: "a \<in> set (g_nodes graph)" "n_kind a = ''prim::AllocateTensor''"
      "get_attr_i a ''offset'' = Inr off" "get_attr_i a ''size'' = Inr sz"
    and p: "p \<in> set (g_nodes graph)" "v \<in> set (n_outputs p)" "hd (n_outputs a) \<in> set (n_inputs p)"
    unfolding feeds_alloc_def by blast
  from alloc_tensor_step_nodes_kept [OF step a(1)] obtain a' where
    a': "a' \<in> set (g_nodes graph')" "n_kind a' = n_kind a" "n_attrs a' = n_attrs a" "n_outputs a' = n_outputs a"
    by blast
  from alloc_tensor_step_nodes_kept [OF step p(1)] obtain p' where
    p': "p' \<in> set (g_nodes graph')" "n_outputs p' = n_outputs p" "set (n_inputs p) \<subseteq> set (n_inputs p')"
    by blast
  have attrs: "get_attr_i a' = get_attr_i a" using a'(3) by (simp add: get_attr_i_def fun_eq_iff)
  have link: "v \<in> set (n_outputs p') \<and> hd (n_outputs a') \<in> set (n_inputs p')"
    using p p' a'(4) by auto
  show ?thesis unfolding feeds_alloc_def
    by (intro bexI [OF _ a'(1)] conjI bexI [OF _ p'(1)]) (simp_all add: attrs a a'(2) link)
qed

lemma alloc_tensor_step_feeds:
  assumes step: "alloc_tensor_step graph storage total_size allocations (lvr, v) = Inr graph'"
  shows "feeds_alloc graph' (to_int64 (reg_offset (lookup_default default_region allocations lvr)))
           (to_int64 (reg_size (lookup_default default_region allocations lvr))) v"
proof -
  from alloc_tensor_step_Inr [OF step] obtain p alloc where
    p: "producer_index graph v = Some p" and
    nodes: "g_nodes graph' = take p (g_nodes graph) @ [alloc] @
             (g_nodes graph ! p)\<lparr>n_inputs := n_inputs (g_nodes graph ! p) @ [g_next_value graph]\<rparr> #
             drop (Suc p) (g_nodes graph)" and
    a: "n_kind alloc = ''prim::AllocateTensor''" "n_outputs alloc = [g_next_value graph]"
      "get_attr_i alloc ''size'' = Inr (to_int64 (reg_size (lookup_default default_region allocations lvr)))"
      "get_attr_i alloc ''offset'' = Inr (to_int64 (reg_offset (lookup_default default_region allocations lvr)))"
    by blast
  from producer_index_Some [OF p] have v: "v \<in> set (n_outputs (g_nodes graph ! p))" by simp
  show ?thesis unfolding feeds_alloc_def nodes
    using a v by (intro bexI [of _ alloc]) auto
qed

lemma insert_alloc_tensors_feeds_mono:
  "feeds_alloc graph off sz v \<Longrightarrow> insert_alloc_tensors graph storage total_size allocations items = Inr graph' \<Longrightarrow>
   feeds_alloc graph' off sz v"
proof (induction items arbitrary: graph)
  case Nil
  then show ?case by simp
next
  case (Cons item items)
  then obtain graph1 where step: "alloc_tensor_step graph storage total_size allocations item = Inr graph1"
    and rest: "insert_alloc_tensors graph1 storage total_size allocations items = Inr graph'"
    by (auto split: sum.splits)
  from Cons.IH [OF feeds_alloc_step [OF Cons.prems(1) step] rest] show ?case .
qed

text \<open>After the loop, every value it visited is fed by an \<open>AllocateTensor\<close> with its region.\<close>

lemma insertAllocTensorNodes_feeds:
  assumes ok: "insertAllocTensorNodes graph storage allocations items = Inr graph'"
    and mem: "(lvr, v) \<in> set items"
  shows "feeds_alloc graph' (to_int64 (reg_offset (lookup_default default_region allocations lvr)))
           (to_int64 (reg_size (lookup_default default_region allocations lvr))) v"
proof -
  obtain t where "insert_alloc_tensors graph storage (from_int64 t) allocations items = Inr graph'"
    using ok by (auto simp: insertAllocTensorNodes_def split: sum.splits)
  then show ?thesis using mem
  proof (induction items arbitrary: graph)
    case Nil
    then show ?case by simp
  next
    case (Cons item items)
    then obtain graph1 where step: "alloc_tensor_step graph storage (from_int64 t) allocations item = Inr graph1"
      and rest: "insert_alloc_tensors graph1 storage (from_int64 t) allocations items = Inr graph'"
      by (auto split: sum.splits)
    show ?case
    proof (cases "item = (lvr, v)")
      case True
      from insert_alloc_tensors_feeds_mono [OF alloc_tensor_step_feeds [OF step [unfolded True]] rest]
      show ?thesis .
    next
      case False
      with Cons.prems(2) have "(lvr, v) \<in> set items" by simp
      from Cons.IH [OF rest this] show ?thesis .
    qed
  qed
qed

lemma advance_cursor_stops:
  "i \<le> k \<Longrightarrow> k < length ns \<Longrightarrow> n_header (ns ! k) \<noteq> h \<Longrightarrow>
   \<forall>j. i \<le> j \<and> j < k \<longrightarrow> n_header (ns ! j) = h \<Longrightarrow> advance_cursor h ns i = Inr k"
proof (induction h ns i rule: advance_cursor.induct)
  case (1 h ns i)
  note eq = advance_cursor.simps [of h ns i]
  show ?case
  proof (cases "i = k")
    case True
    with "1.prems" eq show ?thesis by simp
  next
    case False
    with "1.prems" have lt: "i < length ns" and hd: "n_header (ns ! i) = h" by auto
    from False "1.prems" have "advance_cursor h ns (Suc i) = Inr k"
      by (intro "1.IH" [OF lt hd]) auto
    with lt hd eq show ?thesis by simp
  qed
qed

section \<open>Properties\<close>

text \<open>
  C13. For a single frame, \<open>insertPreAllocTensorNodes\<close> inserts its
  \<open>PreAllocateTensor\<close> nodes before the first node whose header \<^emph>\<open>differs\<close> from the
  frame's: the cursor loop \<open>while (!getHeader(*node).compare(header))\<close> runs while the
  headers are equal. When the graph does not start with the frame's operator, the
  pre-allocations go to the front of the graph, wherever the frame's node is.
\<close>

theorem insertPreAllocTensorNodes_single_frame:
  assumes "k < length (g_nodes graph)"
    and "n_header (g_nodes graph ! k) \<noteq> fid_header f"
    and "\<forall>j < k. n_header (g_nodes graph ! j) = fid_header f"
  shows "\<exists>graph' pres. insertPreAllocTensorNodes graph storage allocations [(f, lvrs)] = Inr graph' \<and>
           g_nodes graph' = take k (g_nodes graph) @ pres @ drop k (g_nodes graph) \<and>
           map n_kind pres = replicate (length lvrs) ''prim::PreAllocateTensor''"
proof -
  let ?lvrs = "sort_key lr_begin lvrs"
  from assms have cur: "advance_cursor (fid_header f) (g_nodes graph) 0 = Inr k"
    by (intro advance_cursor_stops) auto
  from assms(1) obtain pres where
    p: "g_nodes (fst (insert_pre_allocs graph k allocations ?lvrs)) =
          take k (g_nodes graph) @ pres @ drop k (g_nodes graph)"
    and kinds: "map n_kind pres = replicate (length ?lvrs) ''prim::PreAllocateTensor''"
    using insert_pre_allocs_nodes [of k graph allocations ?lvrs] by auto
  have "insertPreAllocTensorNodes graph storage allocations [(f, lvrs)] =
          Inr (fst (insert_pre_allocs graph k allocations ?lvrs))"
    using cur assms(2) by (simp add: insertPreAllocTensorNodes_def split: prod.split)
  with p kinds show ?thesis by auto
qed

text \<open>
  A graph \<open>mm; relu\<close> and a frame recorded at the \<open>relu\<close>: the pre-allocation goes in
  front of \<open>mm\<close>.
\<close>

theorem insertPreAllocTensorNodes_single_frame_witness:
  "\<exists>graph' pres.
     insertPreAllocTensorNodes
       \<lparr>g_nodes = [\<lparr>n_kind = ''aten::mm'', n_inputs = [0, 1], n_outputs = [2], n_header = ''aten::mm'', n_attrs = []\<rparr>,
                   \<lparr>n_kind = ''aten::relu'', n_inputs = [2], n_outputs = [3], n_header = ''aten::relu'', n_attrs = []\<rparr>],
        g_types = \<lambda>_. OtherT ''Tensor'', g_next_value = 4\<rparr>
       \<lparr>n_kind = ''prim::AllocateStorage'', n_inputs = [], n_outputs = [4], n_header = ''prim::AllocateStorage'', n_attrs = []\<rparr>
       [(\<lparr>lr_begin = 1, lr_end = 2\<rparr>, \<lparr>reg_offset = 0, reg_size = 64\<rparr>)]
       [(\<lparr>fid_pc = 1, fid_schema = ''aten::relu'', fid_header = ''aten::relu''\<rparr>, [\<lparr>lr_begin = 1, lr_end = 2\<rparr>])] = Inr graph' \<and>
     g_nodes graph' =
       pres @ [\<lparr>n_kind = ''aten::mm'', n_inputs = [0, 1], n_outputs = [2], n_header = ''aten::mm'', n_attrs = []\<rparr>,
               \<lparr>n_kind = ''aten::relu'', n_inputs = [2], n_outputs = [3], n_header = ''aten::relu'', n_attrs = []\<rparr>] \<and>
     map n_kind pres = [''prim::PreAllocateTensor'']"
  using insertPreAllocTensorNodes_single_frame [where k = 0 and
      graph = "\<lparr>g_nodes = [\<lparr>n_kind = ''aten::mm'', n_inputs = [0, 1], n_outputs = [2], n_header = ''aten::mm'', n_attrs = []\<rparr>,
                   \<lparr>n_kind = ''aten::relu'', n_inputs = [2], n_outputs = [3], n_header = ''aten::relu'', n_attrs = []\<rparr>],
        g_types = \<lambda>_. OtherT ''Tensor'', g_next_value = 4\<rparr>"
      and f = "\<lparr>fid_pc = 1, fid_schema = ''aten::relu'', fid_header = ''aten::relu''\<rparr>"
      and storage = "\<lparr>n_kind = ''prim::AllocateStorage'', n_inputs = [], n_outputs = [4], n_header = ''prim::AllocateStorage'', n_attrs = []\<rparr>"
      and allocations = "[(\<lparr>lr_begin = 1, lr_end = 2\<rparr>, \<lparr>reg_offset = 0, reg_size = 64\<rparr>)]"
      and lvrs = "[\<lparr>lr_begin = 1, lr_end = 2\<rparr>]"]
  by simp

text \<open>
  C19. One iteration of \<open>insertAllocTensorNodes\<close> that succeeds puts a
  \<open>prim::AllocateTensor\<close> node, fed by the storage node's output, immediately before the
  producer of the managed value; the producer's only change is a new last input, the
  \<open>AllocateTensor\<close>'s output; and reading the node's \<open>int64_t\<close> attributes back as
  \<open>uint64_t\<close> gives the planned region, which ends within the total size.
\<close>

theorem alloc_tensor_step_materializes:
  assumes "alloc_tensor_step graph storage total_size allocations (lvr, v) = Inr graph'"
  shows "\<exists>p alloc. producer_index graph v = Some p \<and>
           length (g_nodes graph') = Suc (length (g_nodes graph)) \<and>
           g_nodes graph' ! p = alloc \<and> n_kind alloc = ''prim::AllocateTensor'' \<and>
           n_inputs alloc = [hd (n_outputs storage)] \<and>
           g_nodes graph' ! Suc p = (g_nodes graph ! p)\<lparr>n_inputs := n_inputs (g_nodes graph ! p) @ n_outputs alloc\<rparr> \<and>
           map_sum id from_int64 (get_attr_i alloc ''offset'') = Inr (reg_offset (lookup_default default_region allocations lvr)) \<and>
           map_sum id from_int64 (get_attr_i alloc ''size'') = Inr (reg_size (lookup_default default_region allocations lvr)) \<and>
           reg_offset (lookup_default default_region allocations lvr) +
             reg_size (lookup_default default_region allocations lvr) \<le> total_size"
proof -
  from alloc_tensor_step_Inr [OF assms] obtain p alloc where
    p: "producer_index graph v = Some p" and
    nodes: "g_nodes graph' = take p (g_nodes graph) @ [alloc] @
             (g_nodes graph ! p)\<lparr>n_inputs := n_inputs (g_nodes graph ! p) @ [g_next_value graph]\<rparr> #
             drop (Suc p) (g_nodes graph)" and
    a: "n_kind alloc = ''prim::AllocateTensor''" "n_outputs alloc = [g_next_value graph]"
       "n_inputs alloc = [hd (n_outputs storage)]" and
    sz: "get_attr_i alloc ''size'' = Inr (to_int64 (reg_size (lookup_default default_region allocations lvr)))" and
    off: "get_attr_i alloc ''offset'' = Inr (to_int64 (reg_offset (lookup_default default_region allocations lvr)))" and
    within: "reg_offset (lookup_default default_region allocations lvr) +
             reg_size (lookup_default default_region allocations lvr) \<le> total_size"
    by blast
  from producer_index_Some [OF p] have plen: "p < length (g_nodes graph)" by simp
  have "length (g_nodes graph') = Suc (length (g_nodes graph))" using plen by (simp add: nodes)
  moreover have "g_nodes graph' ! p = alloc" using plen by (simp add: nodes nth_append)
  moreover have "g_nodes graph' ! Suc p =
      (g_nodes graph ! p)\<lparr>n_inputs := n_inputs (g_nodes graph ! p) @ n_outputs alloc\<rparr>"
    using plen by (simp add: nodes nth_append a)
  ultimately show ?thesis using p a sz off within by simp
qed

text \<open>
  A float tensor produced by \<open>aten::mm\<close>, planned at offset 8 with 8 bytes in an arena
  of 16.
\<close>

theorem alloc_tensor_step_materializes_witness:
  "\<exists>graph'. alloc_tensor_step \<lparr>g_nodes = [\<lparr>n_kind = ''aten::mm'', n_inputs = [0, 1], n_outputs = [2], n_header = ''aten::mm'', n_attrs = []\<rparr>],
        g_types = \<lambda>_. TensorT \<lparr>tt_scalar_type = Some kFloat, tt_sizes = Some [2], tt_strides = Some [1], tt_numel = Some 2\<rparr>,
        g_next_value = 3\<rparr> \<lparr>n_kind = ''prim::AllocateStorage'', n_inputs = [], n_outputs = [7], n_header = ''prim::AllocateStorage'',
        n_attrs = [(''device'', AttrInt 0)]\<rparr> 16 [(\<lparr>lr_begin = 1, lr_end = 2\<rparr>, \<lparr>reg_offset = 8, reg_size = 8\<rparr>)] (\<lparr>lr_begin = 1, lr_end = 2\<rparr>, 2) = Inr graph' \<and>
     (\<exists>p alloc. producer_index \<lparr>g_nodes = [\<lparr>n_kind = ''aten::mm'', n_inputs = [0, 1], n_outputs = [2], n_header = ''aten::mm'', n_attrs = []\<rparr>],
        g_types = \<lambda>_. TensorT \<lparr>tt_scalar_type = Some kFloat, tt_sizes = Some [2], tt_strides = Some [1], tt_numel = Some 2\<rparr>,
        g_next_value = 3\<rparr> 2 = Some p \<and>
           length (g_nodes graph') = Suc (length (g_nodes \<lparr>g_nodes = [\<lparr>n_kind = ''aten::mm'', n_inputs = [0, 1], n_outputs = [2], n_header = ''aten::mm'', n_attrs = []\<rparr>],
        g_types = \<lambda>_. TensorT \<lparr>tt_scalar_type = Some kFloat, tt_sizes = Some [2], tt_strides = Some [1], tt_numel = Some 2\<rparr>,
        g_next_value = 3\<rparr>)) \<and>
           g_nodes graph' ! p = alloc \<and> n_kind alloc = ''prim::AllocateTensor'' \<and>
           n_inputs alloc = [hd (n_outputs \<lparr>n_kind = ''prim::AllocateStorage'', n_inputs = [], n_outputs = [7], n_header = ''prim::AllocateStorage'',
        n_attrs = [(''device'', AttrInt 0)]\<rparr>)] \<and>
           g_nodes graph' ! Suc p = (g_nodes \<lparr>g_nodes = [\<lparr>n_kind = ''aten::mm'', n_inputs = [0, 1], n_outputs = [2], n_header = ''aten::mm'', n_attrs = []\<rparr>],
        g_types = \<lambda>_. TensorT \<lparr>tt_scalar_type = Some kFloat, tt_sizes = Some [2], tt_strides = Some [1], tt_numel = Some 2\<rparr>,
        g_next_value = 3\<rparr> ! p)\<lparr>n_inputs := n_inputs (g_nodes \<lparr>g_nodes = [\<lparr>n_kind = ''aten::mm'', n_inputs = [0, 1], n_outputs = [2], n_header = ''aten::mm'', n_attrs = []\<rparr>],
        g_types = \<lambda>_. TensorT \<lparr>tt_scalar_type = Some kFloat, tt_sizes = Some [2], tt_strides = Some [1], tt_numel = Some 2\<rparr>,
        g_next_value = 3\<rparr> ! p) @ n_outputs alloc\<rparr> \<and>
           map_sum id from_int64 (get_attr_i alloc ''offset'') = Inr (reg_offset (lookup_default default_region [(\<lparr>lr_begin = 1, lr_end = 2\<rparr>, \<lparr>reg_offset = 8, reg_size = 8\<rparr>)] \<lparr>lr_begin = 1, lr_end = 2\<rparr>)) \<and>
           map_sum id from_int64 (get_attr_i alloc ''size'') = Inr (reg_size (lookup_default default_region [(\<lparr>lr_begin = 1, lr_end = 2\<rparr>, \<lparr>reg_offset = 8, reg_size = 8\<rparr>)] \<lparr>lr_begin = 1, lr_end = 2\<rparr>)) \<and>
           reg_offset (lookup_default default_region [(\<lparr>lr_begin = 1, lr_end = 2\<rparr>, \<lparr>reg_offset = 8, reg_size = 8\<rparr>)] \<lparr>lr_begin = 1, lr_end = 2\<rparr>) +
             reg_size (lookup_default default_region [(\<lparr>lr_begin = 1, lr_end = 2\<rparr>, \<lparr>reg_offset = 8, reg_size = 8\<rparr>)] \<lparr>lr_begin = 1, lr_end = 2\<rparr>) \<le> 16)"
proof -
  have "\<exists>graph'. alloc_tensor_step \<lparr>g_nodes = [\<lparr>n_kind = ''aten::mm'', n_inputs = [0, 1], n_outputs = [2], n_header = ''aten::mm'', n_attrs = []\<rparr>],
        g_types = \<lambda>_. TensorT \<lparr>tt_scalar_type = Some kFloat, tt_sizes = Some [2], tt_strides = Some [1], tt_numel = Some 2\<rparr>,
        g_next_value = 3\<rparr> \<lparr>n_kind = ''prim::AllocateStorage'', n_inputs = [], n_outputs = [7], n_header = ''prim::AllocateStorage'',
        n_attrs = [(''device'', AttrInt 0)]\<rparr> 16 [(\<lparr>lr_begin = 1, lr_end = 2\<rparr>, \<lparr>reg_offset = 8, reg_size = 8\<rparr>)] (\<lparr>lr_begin = 1, lr_end = 2\<rparr>, 2) = Inr graph'"
    by (simp add: alloc_tensor_step_def producer_index_def get_attr_i_def lookup_default_def
        create_node_def getSizesStrides_def Let_def)
  then obtain graph' where step: "alloc_tensor_step \<lparr>g_nodes = [\<lparr>n_kind = ''aten::mm'', n_inputs = [0, 1], n_outputs = [2], n_header = ''aten::mm'', n_attrs = []\<rparr>],
        g_types = \<lambda>_. TensorT \<lparr>tt_scalar_type = Some kFloat, tt_sizes = Some [2], tt_strides = Some [1], tt_numel = Some 2\<rparr>,
        g_next_value = 3\<rparr> \<lparr>n_kind = ''prim::AllocateStorage'', n_inputs = [], n_outputs = [7], n_header = ''prim::AllocateStorage'',
        n_attrs = [(''device'', AttrInt 0)]\<rparr> 16 [(\<lparr>lr_begin = 1, lr_end = 2\<rparr>, \<lparr>reg_offset = 8, reg_size = 8\<rparr>)] (\<lparr>lr_begin = 1, lr_end = 2\<rparr>, 2) = Inr graph'" by blast
  show ?thesis using step alloc_tensor_step_materializes [OF step] by blast
qed

text \<open>
  C23. \<open>insertAllocStorageNode\<close> puts the \<open>prim::AllocateStorage\<close> node at the front
  of the graph with one output; its \<open>total_size\<close> attribute, stored as \<open>int64_t\<close>,
  reads back as the planned \<open>uint64_t\<close> total even above \<open>2\<^sup>6\<^sup>3\<close>, and its device
  attribute is the device type truncated to \<open>int8_t\<close>, \<open>kCPU = 0\<close> when the graph has
  no device.
\<close>

theorem insertAllocStorageNode_attributes:
  "case insertAllocStorageNode device_type graph total_size of (graph', storage) \<Rightarrow>
     g_nodes graph' = storage # g_nodes graph \<and>
     n_kind storage = ''prim::AllocateStorage'' \<and> length (n_outputs storage) = 1 \<and>
     map_sum id from_int64 (get_attr_i storage ''total_size'') = Inr total_size \<and>
     get_attr_i storage ''device'' = Inr (int8_cast (case device_type of Some d \<Rightarrow> d | None \<Rightarrow> 0)) \<and>
     - 128 \<le> int8_cast (case device_type of Some d \<Rightarrow> d | None \<Rightarrow> 0) \<and>
     int8_cast (case device_type of Some d \<Rightarrow> d | None \<Rightarrow> 0) < 128"
proof -
  have b: "- 128 \<le> int8_cast x \<and> int8_cast x < 128" for x
    using sint_ge [of "word_of_int x :: 8 word"] sint_lt [of "word_of_int x :: 8 word"]
    by (simp add: int8_cast_def)
  show ?thesis
    using b by (simp add: insertAllocStorageNode_def create_node_def insert_node_at_def get_attr_i_def
        set_attr_def map_of_alist_assign Let_def)
qed

text \<open>
  C25. The cursor loop of \<open>insertPreAllocTensorNodes\<close>,
  \<open>while (!getHeader(*node).compare(header)) node++\<close>, stops at a node of the graph
  exactly when some node from the cursor on has a header different from the frame's;
  otherwise it walks past the last node, which is undefined behaviour in the C++.
\<close>

theorem advance_cursor_halts_iff:
  "(\<exists>k. advance_cursor h ns i = Inr k) \<longleftrightarrow> (\<exists>j. i \<le> j \<and> j < length ns \<and> n_header (ns ! j) \<noteq> h)"
proof
  assume "\<exists>k. advance_cursor h ns i = Inr k"
  then obtain k where "advance_cursor h ns i = Inr k" by blast
  from advance_cursor_Inr [OF this] show "\<exists>j. i \<le> j \<and> j < length ns \<and> n_header (ns ! j) \<noteq> h" by blast
next
  assume ex: "\<exists>j. i \<le> j \<and> j < length ns \<and> n_header (ns ! j) \<noteq> h"
  show "\<exists>k. advance_cursor h ns i = Inr k"
  proof (cases "advance_cursor h ns i")
    case (Inl e)
    from advance_cursor_Inl [OF this] ex show ?thesis by blast
  qed simp
qed

end
