(* ===== verification/Packing.thy ===== *)
theory Packing
  imports Arena
begin

text \<open>
  The packing heuristics (spec component D): linear scan and greedy-by-size. Their C++
  (\<open>linear_scan.cpp\<close>, \<open>greedy_by_size.cpp\<close>) is not part of the sources, so
  they are modelled from the spec's section 4.D. Both place one live range at a time at
  the lowest offset that fits, \<open>lowest_fit\<close>: the candidates are offset 0 and the end
  of every region the new one must avoid, tried in ascending order; when none fits, the
  high-water mark (the largest candidate) is taken. Offsets are \<open>uint64_t\<close>, so a
  candidate \<open>offset + size\<close> wraps; the correctness lemmas assume the total of the
  sizes stays below \<open>2\<^sup>6\<^sup>4\<close>, under which no candidate wraps.
\<close>

section \<open>Lowest fitting offset\<close>

definition fits :: "u64 \<Rightarrow> u64 \<Rightarrow> region list \<Rightarrow> bool" where
  "fits c s ps \<longleftrightarrow> (\<forall>p \<in> set ps. \<not> collide \<lparr>reg_offset = c, reg_size = s\<rparr> p)"

definition candidate_offsets :: "region list \<Rightarrow> u64 list" where
  "candidate_offsets ps = sort (0 # map (\<lambda>p. reg_offset p + reg_size p) ps)"

definition lowest_fit :: "u64 \<Rightarrow> region list \<Rightarrow> u64" where
  "lowest_fit s ps =
     (case find (\<lambda>c. fits c s ps) (candidate_offsets ps) of
        Some c \<Rightarrow> c
      | None \<Rightarrow> last (candidate_offsets ps))"

section \<open>Greedy by size\<close>

text \<open>The regions already placed whose live ranges overlap \<open>l\<close>.\<close>

definition overlapping :: "live_range \<Rightarrow> plan \<Rightarrow> region list" where
  "overlapping l pl = map snd (filter (\<lambda>(l', g). overlap l l') pl)"

definition place_range :: "plan \<Rightarrow> live_range \<times> u64 \<Rightarrow> plan" where
  "place_range pl = (\<lambda>(l, s). pl @ [(l, \<lparr>reg_offset = lowest_fit s (overlapping l pl), reg_size = s\<rparr>)])"

text \<open>Descending size, then ascending begin, then ascending end.\<close>

definition greedy_size_key :: "live_range \<times> u64 \<Rightarrow> int \<times> nat \<times> nat" where
  "greedy_size_key = (\<lambda>(l, s). (- int (unat s), lr_begin l, lr_end l))"

definition greedyBySize :: "sized_ranges \<Rightarrow> plan" where
  "greedyBySize managed_live_ranges =
     foldl place_range [] (sort_key greedy_size_key managed_live_ranges)"

section \<open>Linear scan\<close>

text \<open>
  One step of the sweep in \<open>begin\<close> order: evict from the active set every range that
  ended before the new one begins, then place the new one against the active set.
\<close>

definition linear_scan_step :: "plan \<times> plan \<Rightarrow> live_range \<times> u64 \<Rightarrow> plan \<times> plan" where
  "linear_scan_step = (\<lambda>(active, pl) (l, s).
     let active' = filter (\<lambda>(l', g). \<not> lr_end l' < lr_begin l) active;
         g = \<lparr>reg_offset = lowest_fit s (map snd active'), reg_size = s\<rparr>
     in (active' @ [(l, g)], pl @ [(l, g)]))"

definition linear_scan_key :: "live_range \<times> u64 \<Rightarrow> nat \<times> nat" where
  "linear_scan_key = (\<lambda>(l, s). (lr_begin l, lr_end l))"

definition linearScanHeuristic :: "sized_ranges \<Rightarrow> plan" where
  "linearScanHeuristic managed_live_ranges =
     snd (foldl linear_scan_step ([], []) (sort_key linear_scan_key managed_live_ranges))"

section \<open>Sums of sizes\<close>

definition plan_sum :: "plan \<Rightarrow> nat" where
  "plan_sum pl = sum_list (map (\<lambda>(l, g). unat (reg_size g)) pl)"

definition sizes_sum :: "sized_ranges \<Rightarrow> nat" where
  "sizes_sum xs = sum_list (map (\<lambda>(l, s). unat s) xs)"

definition plan_sizes :: "plan \<Rightarrow> sized_ranges" where
  "plan_sizes pl = map (\<lambda>(l, g). (l, reg_size g)) pl"

definition ends_within :: "plan \<Rightarrow> nat \<Rightarrow> bool" where
  "ends_within pl b \<longleftrightarrow> (\<forall>(l, g) \<in> set pl. reg_end g \<le> b)"

section \<open>Lemmas on the lowest fit\<close>

lemma unat_end_no_wrap:
  "reg_end p < 2 ^ 64 \<Longrightarrow> unat (reg_offset p + reg_size p) = reg_end p"
  by (simp add: reg_end_def unat_add_no_wrap)

lemma candidate_offsets_ne [simp]: "candidate_offsets ps \<noteq> []"
  by (simp add: candidate_offsets_def)

lemma set_candidate_offsets:
  "set (candidate_offsets ps) = insert 0 ((\<lambda>p. reg_offset p + reg_size p) ` set ps)"
  by (simp only: candidate_offsets_def set_sort) simp

lemma sorted_candidate_offsets: "sorted (candidate_offsets ps)"
  by (simp only: candidate_offsets_def sorted_sort)

lemma last_candidate_fits:
  assumes "\<forall>p \<in> set ps. reg_end p < 2 ^ 64"
  shows "fits (last (candidate_offsets ps)) s ps"
  unfolding fits_def
proof
  fix p assume p: "p \<in> set ps"
  let ?c = "last (candidate_offsets ps)"
  have "sorted (candidate_offsets ps)" by (rule sorted_candidate_offsets)
  moreover have "reg_offset p + reg_size p \<in> set (candidate_offsets ps)"
    using p by (simp add: set_candidate_offsets)
  ultimately have "reg_offset p + reg_size p \<le> ?c" by (rule sorted_last_max)
  then have "unat (reg_offset p + reg_size p) \<le> unat ?c"
    by (rule word_le_unat_le)
  moreover from p assms have "unat (reg_offset p + reg_size p) = reg_end p"
    by (simp add: unat_end_no_wrap)
  ultimately have "reg_end p \<le> unat ?c" by simp
  then show "\<not> collide \<lparr>reg_offset = ?c, reg_size = s\<rparr> p"
    by (simp add: collide_def reg_end_def)
qed

lemma lowest_fit_fits:
  "\<forall>p \<in> set ps. reg_end p < 2 ^ 64 \<Longrightarrow> fits (lowest_fit s ps) s ps"
  using last_candidate_fits [of ps s]
  by (auto simp: lowest_fit_def find_Some_iff split: option.split)

lemma lowest_fit_candidate:
  "lowest_fit s ps \<in> set (candidate_offsets ps)"
  by (auto simp: lowest_fit_def find_Some_iff split: option.split)

lemma lowest_fit_le:
  assumes "\<forall>p \<in> set ps. reg_end p \<le> b" and "b < 2 ^ 64"
  shows "unat (lowest_fit s ps) \<le> b"
proof -
  from lowest_fit_candidate [of s ps]
  consider "lowest_fit s ps = 0" | p where "p \<in> set ps" "lowest_fit s ps = reg_offset p + reg_size p"
    by (auto simp: set_candidate_offsets)
  then show ?thesis
  proof cases
    case 1
    then show ?thesis by simp
  next
    case (2 p)
    with assms have "reg_end p \<le> b" "reg_end p < 2 ^ 64" by auto
    with 2 show ?thesis by (simp add: unat_end_no_wrap)
  qed
qed

section \<open>One placement step\<close>

text \<open>
  The step both heuristics share: a region placed at the lowest fit against a list
  \<open>ps\<close> that holds every placed region whose live range overlaps keeps the plan valid,
  and its end stays below the sum of all sizes placed so far.
\<close>

lemma place_step:
  assumes valid: "plan_valid pl" and ends: "ends_within pl b" and bound: "b + unat s < 2 ^ 64"
    and sub: "set (overlapping l pl) \<subseteq> set ps" and ps: "\<forall>p \<in> set ps. reg_end p \<le> b"
  defines "g \<equiv> \<lparr>reg_offset = lowest_fit s ps, reg_size = s\<rparr>"
  shows "plan_valid (pl @ [(l, g)])" and "reg_end g \<le> b + unat s"
proof -
  from ps bound have ps64: "\<forall>p \<in> set ps. reg_end p < 2 ^ 64" by fastforce
  have nc: "\<not> collide g g'" if "(l', g') \<in> set pl" "overlap l l'" for l' g'
  proof -
    from that have "g' \<in> set (overlapping l pl)"
      by (force simp: overlapping_def)
    with sub have "g' \<in> set ps" by blast
    with lowest_fit_fits [OF ps64, of s] show ?thesis
      by (simp add: fits_def g_def)
  qed
  have nc': "\<not> collide g' g" if "(l', g') \<in> set pl" "overlap l' l" for l' g'
    using nc [OF that(1)] that(2) by (simp add: overlap_sym collide_sym)
  show "plan_valid (pl @ [(l, g)])"
    using valid nc nc' unfolding plan_valid_def by auto
  from ps bound have "unat (lowest_fit s ps) \<le> b"
    by (intro lowest_fit_le) auto
  then show "reg_end g \<le> b + unat s"
    by (simp add: g_def reg_end_def)
qed

section \<open>Sizes and sums through the placements\<close>

lemma plan_sizes_append [simp]: "plan_sizes (xs @ ys) = plan_sizes xs @ plan_sizes ys"
  by (simp add: plan_sizes_def)

lemma plan_sum_sizes: "plan_sum pl = sizes_sum (plan_sizes pl)"
  by (induction pl) (auto simp: plan_sum_def sizes_sum_def plan_sizes_def)

lemma sizes_sum_append [simp]: "sizes_sum (xs @ ys) = sizes_sum xs + sizes_sum ys"
  by (simp add: sizes_sum_def)

lemma sizes_sum_mset: "mset xs = mset ys \<Longrightarrow> sizes_sum xs = sizes_sum ys"
  unfolding sizes_sum_def by (metis mset_map sum_mset_sum_list)

lemma ends_within_mono: "ends_within pl b \<Longrightarrow> b \<le> b' \<Longrightarrow> ends_within pl b'"
  by (auto simp: ends_within_def)

lemma ends_within_regions: "ends_within pl b \<Longrightarrow> g \<in> snd ` set pl \<Longrightarrow> reg_end g \<le> b"
  by (auto simp: ends_within_def)

lemma plan_sizes_place_range:
  "plan_sizes (foldl place_range pl items) = plan_sizes pl @ items"
  by (induction items arbitrary: pl) (auto simp: place_range_def plan_sizes_def)

lemma ends_within_snoc:
  "ends_within pl b \<Longrightarrow> reg_end g \<le> b + s \<Longrightarrow> ends_within (pl @ [(l, g)]) (b + s)"
  by (auto simp: ends_within_def)

lemma overlapping_regions: "set (overlapping l pl) \<subseteq> snd ` set pl"
  by (auto simp: overlapping_def)

text \<open>The invariant of greedy placement, carried through the fold.\<close>

lemma foldl_place_range_valid:
  assumes "plan_valid pl" and "ends_within pl (plan_sum pl)"
    and "plan_sum pl + sizes_sum items < 2 ^ 64"
  shows "plan_valid (foldl place_range pl items) \<and>
         ends_within (foldl place_range pl items) (plan_sum (foldl place_range pl items))"
  using assms
proof (induction items arbitrary: pl)
  case Nil
  then show ?case by simp
next
  case (Cons x items)
  obtain l s where x: "x = (l, s)" by (cases x)
  let ?ps = "overlapping l pl"
  let ?g = "\<lparr>reg_offset = lowest_fit s ?ps, reg_size = s\<rparr>"
  from Cons.prems x have bound: "plan_sum pl + unat s < 2 ^ 64"
    by (simp add: sizes_sum_def)
  have ps: "\<forall>p \<in> set ?ps. reg_end p \<le> plan_sum pl"
  proof
    fix p assume "p \<in> set ?ps"
    with overlapping_regions [of l pl] have "p \<in> snd ` set pl" by (rule subsetD)
    then show "reg_end p \<le> plan_sum pl" by (rule ends_within_regions [OF Cons.prems(2)])
  qed
  note step = place_step [OF Cons.prems(1,2) bound subset_refl ps]
  have sum': "plan_sum (pl @ [(l, ?g)]) = plan_sum pl + unat s"
    by (simp add: plan_sum_def)
  have ends': "ends_within (pl @ [(l, ?g)]) (plan_sum (pl @ [(l, ?g)]))"
    using Cons.prems(2) step(2) by (auto simp: ends_within_def sum')
  have "plan_sum (pl @ [(l, ?g)]) + sizes_sum items < 2 ^ 64"
    using Cons.prems(3) x sum' by (simp add: sizes_sum_def)
  from Cons.IH [OF step(1) ends' this] x show ?case
    by (simp add: place_range_def)
qed

text \<open>Sorting by a lexicographic key sorts by its first component.\<close>

lemma sorted_lex_fst:
  "sorted (map (\<lambda>x. (f x, g x :: nat)) xs) \<Longrightarrow> sorted (map (f :: 'a \<Rightarrow> nat) xs)"
  by (induction xs) (auto simp: less_eq_prod_def)

text \<open>
  The invariant of the linear scan: the active set is part of the plan, and every placed
  range no longer active ended before \<open>b\<close>, the begin of the range placed last.
\<close>

definition scan_inv :: "plan \<Rightarrow> plan \<Rightarrow> nat \<Rightarrow> bool" where
  "scan_inv active pl b \<longleftrightarrow>
     plan_valid pl \<and> ends_within pl (plan_sum pl) \<and> set active \<subseteq> set pl \<and>
     (\<forall>(l', g') \<in> set pl. (l', g') \<notin> set active \<longrightarrow> lr_end l' < b)"

lemma linear_scan_step_eq:
  "linear_scan_step (active, pl) (l, s) =
     (let active' = filter (\<lambda>(l', g). \<not> lr_end l' < lr_begin l) active;
          g = \<lparr>reg_offset = lowest_fit s (map snd active'), reg_size = s\<rparr>
      in (active' @ [(l, g)], pl @ [(l, g)]))"
  by (simp add: linear_scan_step_def)

lemma active_covers_overlapping:
  assumes inv: "scan_inv active pl b" and b: "b \<le> lr_begin l"
  shows "set (overlapping l pl) \<subseteq> set (map snd (filter (\<lambda>(l', g). \<not> lr_end l' < lr_begin l) active))"
proof
  fix g' assume "g' \<in> set (overlapping l pl)"
  then obtain l' where in_pl: "(l', g') \<in> set pl" and ov: "overlap l l'"
    by (auto simp: overlapping_def)
  from ov have le: "lr_begin l \<le> lr_end l'" by (simp add: overlap_def)
  have "(l', g') \<in> set active"
  proof (rule ccontr)
    assume "(l', g') \<notin> set active"
    with inv in_pl have "lr_end l' < b" by (auto simp: scan_inv_def)
    with b le show False by simp
  qed
  with le show "g' \<in> set (map snd (filter (\<lambda>(l', g). \<not> lr_end l' < lr_begin l) active))"
    by force
qed

lemma scan_inv_step:
  assumes inv: "scan_inv active pl b" and b: "b \<le> lr_begin l"
    and bound: "plan_sum pl + unat s < 2 ^ 64"
    and st: "linear_scan_step (active, pl) (l, s) = (active2, pl2)"
  shows "scan_inv active2 pl2 (lr_begin l) \<and> plan_sizes pl2 = plan_sizes pl @ [(l, s)]"
proof -
  let ?a = "filter (\<lambda>(l', g). \<not> lr_end l' < lr_begin l) active"
  let ?g = "\<lparr>reg_offset = lowest_fit s (map snd ?a), reg_size = s\<rparr>"
  from st have a2: "active2 = ?a @ [(l, ?g)]" and p2: "pl2 = pl @ [(l, ?g)]"
    by (simp_all add: linear_scan_step_eq Let_def)
  from inv have sub: "set active \<subseteq> set pl" and ends: "ends_within pl (plan_sum pl)"
    and valid: "plan_valid pl"
    by (simp_all add: scan_inv_def)
  have ps: "\<forall>p \<in> set (map snd ?a). reg_end p \<le> plan_sum pl"
    using sub ends by (auto simp: ends_within_def)
  note step = place_step [OF valid ends bound active_covers_overlapping [OF inv b] ps]
  have sum2: "plan_sum pl2 = plan_sum pl + unat s"
    by (simp add: p2 plan_sum_def)
  have "ends_within (pl @ [(l, ?g)]) (plan_sum pl + unat s)"
    by (rule ends_within_snoc [OF ends step(2)])
  with sum2 have ends2: "ends_within pl2 (plan_sum pl2)" by (simp only: p2)
  have gone: "lr_end l' < lr_begin l" if "(l', g') \<in> set pl2" "(l', g') \<notin> set active2" for l' g'
  proof (cases "(l', g') \<in> set active")
    case True
    with that show ?thesis by (auto simp: a2 p2)
  next
    case False
    with that inv have "lr_end l' < b" by (auto simp: scan_inv_def a2 p2)
    with b show ?thesis by simp
  qed
  have sub2: "set active2 \<subseteq> set pl2" using sub by (auto simp: a2 p2)
  from step(1) have v2: "plan_valid pl2" by (simp only: p2)
  have "scan_inv active2 pl2 (lr_begin l)"
    unfolding scan_inv_def using v2 ends2 sub2 gone by auto
  moreover have "plan_sizes pl2 = plan_sizes pl @ [(l, s)]"
    by (simp add: p2 plan_sizes_def)
  ultimately show ?thesis by simp
qed

lemma foldl_linear_scan:
  assumes "scan_inv active pl b" and "sorted (map (lr_begin \<circ> fst) items)"
    and "\<forall>(l, s) \<in> set items. b \<le> lr_begin l"
    and "plan_sum pl + sizes_sum items < 2 ^ 64"
  shows "(\<exists>b'. scan_inv (fst (foldl linear_scan_step (active, pl) items))
                        (snd (foldl linear_scan_step (active, pl) items)) b') \<and>
         plan_sizes (snd (foldl linear_scan_step (active, pl) items)) = plan_sizes pl @ items"
  using assms
proof (induction items arbitrary: active pl b)
  case Nil
  then show ?case by auto
next
  case (Cons x items)
  obtain l s where x: "x = (l, s)" by (cases x)
  obtain active2 pl2 where st: "linear_scan_step (active, pl) (l, s) = (active2, pl2)"
    by (cases "linear_scan_step (active, pl) (l, s)")
  from Cons.prems x have bound: "plan_sum pl + unat s < 2 ^ 64"
    by (simp add: sizes_sum_def)
  from Cons.prems(3) x have b: "b \<le> lr_begin l" by simp
  from scan_inv_step [OF Cons.prems(1) b bound st]
  have inv2: "scan_inv active2 pl2 (lr_begin l)" and sz2: "plan_sizes pl2 = plan_sizes pl @ [(l, s)]"
    by simp_all
  have sorted': "sorted (map (lr_begin \<circ> fst) items)" using Cons.prems(2) by (simp add: o_def)
  have rest: "\<forall>(l', s') \<in> set items. lr_begin l \<le> lr_begin l'"
    using Cons.prems(2) x by auto
  have "plan_sum pl2 + sizes_sum items < 2 ^ 64"
    using Cons.prems(4) x sz2 by (simp add: plan_sum_sizes sizes_sum_def)
  from Cons.IH [OF inv2 sorted' rest this] st x sz2 show ?case by simp
qed

section \<open>Total size\<close>

lemma total_size_within:
  assumes "ends_within pl b" and "b < 2 ^ 64"
  shows "unat (getTotalAllocationSize pl) \<le> b"
  using total_size_cases [of pl]
proof
  assume "getTotalAllocationSize pl = 0"
  then show ?thesis by simp
next
  assume "\<exists>(l, g) \<in> set pl. getTotalAllocationSize pl = reg_offset g + reg_size g"
  then obtain l g where lg: "(l, g) \<in> set pl" and t: "getTotalAllocationSize pl = reg_offset g + reg_size g"
    by auto
  from assms lg have "reg_end g \<le> b" "reg_end g < 2 ^ 64" by (auto simp: ends_within_def)
  with t show ?thesis by (simp add: unat_end_no_wrap)
qed

lemma plan_valid_Nil [simp]: "plan_valid []"
  by (simp add: plan_valid_def)

lemma ends_within_Nil [simp]: "ends_within [] b"
  by (simp add: ends_within_def)

lemma plan_sum_Nil [simp]: "plan_sum [] = 0"
  by (simp add: plan_sum_def)

lemma scan_inv_init: "scan_inv [] [] 0"
  by (simp add: scan_inv_def)

lemma sizes_sum_sort_key: "sizes_sum (sort_key f xs) = sizes_sum xs"
  by (rule sizes_sum_mset) simp

lemma sorted_linear_scan_order:
  "sorted (map (lr_begin \<circ> fst) (sort_key linear_scan_key xs))"
proof -
  have "sorted (map linear_scan_key (sort_key linear_scan_key xs))" by (rule sorted_sort_key)
  then have "sorted (map (\<lambda>x. (lr_begin (fst x), lr_end (fst x))) (sort_key linear_scan_key xs))"
    by (simp add: linear_scan_key_def case_prod_beta')
  then show ?thesis by (simp add: o_def sorted_lex_fst)
qed

text \<open>What both heuristics guarantee of their plans, shared by the properties below.\<close>

lemma greedyBySize_plan:
  assumes "sizes_sum managed_live_ranges < 2 ^ 64"
  shows "plan_valid (greedyBySize managed_live_ranges) \<and>
         ends_within (greedyBySize managed_live_ranges) (sizes_sum managed_live_ranges) \<and>
         plan_sizes (greedyBySize managed_live_ranges) = sort_key greedy_size_key managed_live_ranges"
proof -
  let ?xs = "sort_key greedy_size_key managed_live_ranges"
  let ?pl = "greedyBySize managed_live_ranges"
  have sum: "sizes_sum ?xs = sizes_sum managed_live_ranges" by (rule sizes_sum_sort_key)
  have inv: "plan_valid ?pl \<and> ends_within ?pl (plan_sum ?pl)"
    unfolding greedyBySize_def
    by (rule foldl_place_range_valid) (insert assms, simp_all add: sum)
  have sizes: "plan_sizes ?pl = ?xs"
    using plan_sizes_place_range [of "[]" ?xs] by (simp add: greedyBySize_def plan_sizes_def)
  have "plan_sum ?pl = sizes_sum managed_live_ranges"
    by (simp add: plan_sum_sizes sizes sum)
  with inv sizes show ?thesis by simp
qed

lemma linearScanHeuristic_plan:
  assumes "sizes_sum managed_live_ranges < 2 ^ 64"
  shows "plan_valid (linearScanHeuristic managed_live_ranges) \<and>
         ends_within (linearScanHeuristic managed_live_ranges) (sizes_sum managed_live_ranges) \<and>
         plan_sizes (linearScanHeuristic managed_live_ranges) = sort_key linear_scan_key managed_live_ranges"
proof -
  let ?xs = "sort_key linear_scan_key managed_live_ranges"
  let ?pl = "linearScanHeuristic managed_live_ranges"
  have sum: "sizes_sum ?xs = sizes_sum managed_live_ranges" by (rule sizes_sum_sort_key)
  have "(\<exists>b'. scan_inv (fst (foldl linear_scan_step ([], []) ?xs)) (snd (foldl linear_scan_step ([], []) ?xs)) b') \<and>
        plan_sizes (snd (foldl linear_scan_step ([], []) ?xs)) = plan_sizes [] @ ?xs"
    by (rule foldl_linear_scan [OF scan_inv_init sorted_linear_scan_order]) (insert assms, simp_all add: sum)
  then obtain b' where inv: "scan_inv (fst (foldl linear_scan_step ([], []) ?xs)) ?pl b'"
    and sizes: "plan_sizes ?pl = ?xs"
    by (auto simp: linearScanHeuristic_def plan_sizes_def)
  from inv have valid: "plan_valid ?pl" and ends: "ends_within ?pl (plan_sum ?pl)"
    by (simp_all add: scan_inv_def)
  have "plan_sum ?pl = sizes_sum managed_live_ranges"
    by (simp add: plan_sum_sizes sizes sum)
  with valid ends sizes show ?thesis by simp
qed

section \<open>Properties\<close>

text \<open>
  C3. Greedy-by-size produces a correct plan: no two distinct live ranges that overlap
  get colliding regions, every input range is placed with its own size, and the arena
  it needs is no larger than the sum of the sizes -- provided that sum fits in 64 bits.
\<close>

theorem greedyBySize_correct:
  assumes "sizes_sum managed_live_ranges < 2 ^ 64"
  shows "plan_valid (greedyBySize managed_live_ranges) \<and>
         mset (plan_sizes (greedyBySize managed_live_ranges)) = mset managed_live_ranges \<and>
         unat (getTotalAllocationSize (greedyBySize managed_live_ranges)) \<le> sizes_sum managed_live_ranges"
  using greedyBySize_plan [OF assms] total_size_within [OF _ assms] by simp

text \<open>
  C4. Linear scan produces a correct plan with the same guarantees: evicting the ranges
  that ended before the current one begins never drops a range that still overlaps.
\<close>

theorem linearScanHeuristic_correct:
  assumes "sizes_sum managed_live_ranges < 2 ^ 64"
  shows "plan_valid (linearScanHeuristic managed_live_ranges) \<and>
         mset (plan_sizes (linearScanHeuristic managed_live_ranges)) = mset managed_live_ranges \<and>
         unat (getTotalAllocationSize (linearScanHeuristic managed_live_ranges)) \<le> sizes_sum managed_live_ranges"
  using linearScanHeuristic_plan [OF assms] total_size_within [OF _ assms] by simp

text \<open>
  The spec's scenario (section 8): \<open>R1 = [0,3]\<close> of 100 bytes, \<open>R2 = [1,2]\<close> of 40,
  \<open>R3 = [4,6]\<close> of 60, \<open>R4 = [5,7]\<close> of 30.
\<close>

theorem greedyBySize_correct_witness:
  "sizes_sum [(\<lparr>lr_begin = 0, lr_end = 3\<rparr>, 100), (\<lparr>lr_begin = 1, lr_end = 2\<rparr>, 40), (\<lparr>lr_begin = 4, lr_end = 6\<rparr>, 60), (\<lparr>lr_begin = 5, lr_end = 7\<rparr>, 30)] < 2 ^ 64 \<and>
   plan_valid (greedyBySize [(\<lparr>lr_begin = 0, lr_end = 3\<rparr>, 100), (\<lparr>lr_begin = 1, lr_end = 2\<rparr>, 40), (\<lparr>lr_begin = 4, lr_end = 6\<rparr>, 60), (\<lparr>lr_begin = 5, lr_end = 7\<rparr>, 30)]) \<and>
   mset (plan_sizes (greedyBySize [(\<lparr>lr_begin = 0, lr_end = 3\<rparr>, 100), (\<lparr>lr_begin = 1, lr_end = 2\<rparr>, 40), (\<lparr>lr_begin = 4, lr_end = 6\<rparr>, 60), (\<lparr>lr_begin = 5, lr_end = 7\<rparr>, 30)])) = mset [(\<lparr>lr_begin = 0, lr_end = 3\<rparr>, 100), (\<lparr>lr_begin = 1, lr_end = 2\<rparr>, 40), (\<lparr>lr_begin = 4, lr_end = 6\<rparr>, 60), (\<lparr>lr_begin = 5, lr_end = 7\<rparr>, 30)] \<and>
   unat (getTotalAllocationSize (greedyBySize [(\<lparr>lr_begin = 0, lr_end = 3\<rparr>, 100), (\<lparr>lr_begin = 1, lr_end = 2\<rparr>, 40), (\<lparr>lr_begin = 4, lr_end = 6\<rparr>, 60), (\<lparr>lr_begin = 5, lr_end = 7\<rparr>, 30)])) \<le> sizes_sum [(\<lparr>lr_begin = 0, lr_end = 3\<rparr>, 100), (\<lparr>lr_begin = 1, lr_end = 2\<rparr>, 40), (\<lparr>lr_begin = 4, lr_end = 6\<rparr>, 60), (\<lparr>lr_begin = 5, lr_end = 7\<rparr>, 30)]"
  using greedyBySize_correct [of "[(\<lparr>lr_begin = 0, lr_end = 3\<rparr>, 100), (\<lparr>lr_begin = 1, lr_end = 2\<rparr>, 40), (\<lparr>lr_begin = 4, lr_end = 6\<rparr>, 60), (\<lparr>lr_begin = 5, lr_end = 7\<rparr>, 30)]"] by (simp add: sizes_sum_def)

theorem linearScanHeuristic_correct_witness:
  "sizes_sum [(\<lparr>lr_begin = 0, lr_end = 3\<rparr>, 100), (\<lparr>lr_begin = 1, lr_end = 2\<rparr>, 40), (\<lparr>lr_begin = 4, lr_end = 6\<rparr>, 60), (\<lparr>lr_begin = 5, lr_end = 7\<rparr>, 30)] < 2 ^ 64 \<and>
   plan_valid (linearScanHeuristic [(\<lparr>lr_begin = 0, lr_end = 3\<rparr>, 100), (\<lparr>lr_begin = 1, lr_end = 2\<rparr>, 40), (\<lparr>lr_begin = 4, lr_end = 6\<rparr>, 60), (\<lparr>lr_begin = 5, lr_end = 7\<rparr>, 30)]) \<and>
   mset (plan_sizes (linearScanHeuristic [(\<lparr>lr_begin = 0, lr_end = 3\<rparr>, 100), (\<lparr>lr_begin = 1, lr_end = 2\<rparr>, 40), (\<lparr>lr_begin = 4, lr_end = 6\<rparr>, 60), (\<lparr>lr_begin = 5, lr_end = 7\<rparr>, 30)])) = mset [(\<lparr>lr_begin = 0, lr_end = 3\<rparr>, 100), (\<lparr>lr_begin = 1, lr_end = 2\<rparr>, 40), (\<lparr>lr_begin = 4, lr_end = 6\<rparr>, 60), (\<lparr>lr_begin = 5, lr_end = 7\<rparr>, 30)] \<and>
   unat (getTotalAllocationSize (linearScanHeuristic [(\<lparr>lr_begin = 0, lr_end = 3\<rparr>, 100), (\<lparr>lr_begin = 1, lr_end = 2\<rparr>, 40), (\<lparr>lr_begin = 4, lr_end = 6\<rparr>, 60), (\<lparr>lr_begin = 5, lr_end = 7\<rparr>, 30)])) \<le> sizes_sum [(\<lparr>lr_begin = 0, lr_end = 3\<rparr>, 100), (\<lparr>lr_begin = 1, lr_end = 2\<rparr>, 40), (\<lparr>lr_begin = 4, lr_end = 6\<rparr>, 60), (\<lparr>lr_begin = 5, lr_end = 7\<rparr>, 30)]"
  using linearScanHeuristic_correct [of "[(\<lparr>lr_begin = 0, lr_end = 3\<rparr>, 100), (\<lparr>lr_begin = 1, lr_end = 2\<rparr>, 40), (\<lparr>lr_begin = 4, lr_end = 6\<rparr>, 60), (\<lparr>lr_begin = 5, lr_end = 7\<rparr>, 30)]"] by (simp add: sizes_sum_def)

text \<open>
  The plans the spec expects for that scenario: both heuristics give
  \<open>R1 \<mapsto> (0, 100), R2 \<mapsto> (100, 40), R3 \<mapsto> (0, 60), R4 \<mapsto> (60, 30)\<close>, total 140.
\<close>

lemma greedyBySize_scenario:
  "greedyBySize [(\<lparr>lr_begin = 0, lr_end = 3\<rparr>, 100), (\<lparr>lr_begin = 1, lr_end = 2\<rparr>, 40), (\<lparr>lr_begin = 4, lr_end = 6\<rparr>, 60), (\<lparr>lr_begin = 5, lr_end = 7\<rparr>, 30)] =
     [(\<lparr>lr_begin = 0, lr_end = 3\<rparr>, \<lparr>reg_offset = 0, reg_size = 100\<rparr>),
      (\<lparr>lr_begin = 4, lr_end = 6\<rparr>, \<lparr>reg_offset = 0, reg_size = 60\<rparr>),
      (\<lparr>lr_begin = 1, lr_end = 2\<rparr>, \<lparr>reg_offset = 100, reg_size = 40\<rparr>),
      (\<lparr>lr_begin = 5, lr_end = 7\<rparr>, \<lparr>reg_offset = 60, reg_size = 30\<rparr>)]"
  by code_simp

lemma linearScanHeuristic_scenario:
  "linearScanHeuristic [(\<lparr>lr_begin = 0, lr_end = 3\<rparr>, 100), (\<lparr>lr_begin = 1, lr_end = 2\<rparr>, 40), (\<lparr>lr_begin = 4, lr_end = 6\<rparr>, 60), (\<lparr>lr_begin = 5, lr_end = 7\<rparr>, 30)] =
     [(\<lparr>lr_begin = 0, lr_end = 3\<rparr>, \<lparr>reg_offset = 0, reg_size = 100\<rparr>),
      (\<lparr>lr_begin = 1, lr_end = 2\<rparr>, \<lparr>reg_offset = 100, reg_size = 40\<rparr>),
      (\<lparr>lr_begin = 4, lr_end = 6\<rparr>, \<lparr>reg_offset = 0, reg_size = 60\<rparr>),
      (\<lparr>lr_begin = 5, lr_end = 7\<rparr>, \<lparr>reg_offset = 60, reg_size = 30\<rparr>)] \<and>
   getTotalAllocationSize (linearScanHeuristic [(\<lparr>lr_begin = 0, lr_end = 3\<rparr>, 100), (\<lparr>lr_begin = 1, lr_end = 2\<rparr>, 40), (\<lparr>lr_begin = 4, lr_end = 6\<rparr>, 60), (\<lparr>lr_begin = 5, lr_end = 7\<rparr>, 30)]) = 140"
  by code_simp

end
