(* ===== verification/Breadth.thy ===== *)
theory Breadth
  imports Packing Graph
begin

text \<open>
  Greedy by operator breadth (spec component D, third heuristic). Its C++
  (\<open>greedy_by_breadth.cpp\<close>) is not part of the sources; it is modelled from the spec's
  section 4.D. A node's timestamp is its index in the graph (the static liveness uses
  execution indices); its breadth is the total size of the managed values live at that
  index. Nodes are taken by descending breadth, and each one's managed outputs, in graph
  order, are placed by the same lowest-fit rule as greedy-by-size.
\<close>

definition default_live_range :: live_range where
  "default_live_range = \<lparr>lr_begin = 0, lr_end = 0\<rparr>"

definition live_at :: "(nat \<times> live_range) list \<Rightarrow> nat \<Rightarrow> nat \<Rightarrow> bool" where
  "live_at managed_value_ranges t v \<longleftrightarrow>
     (case map_of managed_value_ranges v of
        Some lvr \<Rightarrow> lr_begin lvr \<le> t \<and> t \<le> lr_end lvr
      | None \<Rightarrow> False)"

definition node_breadth :: "(nat \<times> u64) list \<Rightarrow> (nat \<times> live_range) list \<Rightarrow> nat \<Rightarrow> nat" where
  "node_breadth managed_value_sizes managed_value_ranges t =
     sum_list (map (\<lambda>(v, s). if live_at managed_value_ranges t v then unat s else 0) managed_value_sizes)"

definition breadth_items ::
  "graph \<Rightarrow> (nat \<times> u64) list \<Rightarrow> (nat \<times> live_range) list \<Rightarrow> nat list \<Rightarrow> sized_ranges" where
  "breadth_items g managed_value_sizes managed_value_ranges out_nodes =
     concat (map (\<lambda>i. map (\<lambda>v. (lookup_default default_live_range managed_value_ranges v,
                                  lookup_default 0 managed_value_sizes v))
                           (filter (\<lambda>v. v \<in> set (map fst managed_value_sizes)) (n_outputs (g_nodes g ! i))))
        (sort_key (\<lambda>i. - int (node_breadth managed_value_sizes managed_value_ranges i)) out_nodes))"

definition greedyByOperatorBreadth ::
  "graph \<Rightarrow> (nat \<times> u64) list \<Rightarrow> (nat \<times> live_range) list \<Rightarrow> nat list \<Rightarrow> plan" where
  "greedyByOperatorBreadth g managed_value_sizes managed_value_ranges out_nodes =
     foldl place_range [] (breadth_items g managed_value_sizes managed_value_ranges out_nodes)"

section \<open>Lemmas\<close>

lemma greedyByOperatorBreadth_plan:
  assumes "sizes_sum (breadth_items g managed_value_sizes managed_value_ranges out_nodes) < 2 ^ 64"
  shows "plan_valid (greedyByOperatorBreadth g managed_value_sizes managed_value_ranges out_nodes) \<and>
         ends_within (greedyByOperatorBreadth g managed_value_sizes managed_value_ranges out_nodes)
           (sizes_sum (breadth_items g managed_value_sizes managed_value_ranges out_nodes)) \<and>
         plan_sizes (greedyByOperatorBreadth g managed_value_sizes managed_value_ranges out_nodes) =
           breadth_items g managed_value_sizes managed_value_ranges out_nodes"
proof -
  let ?items = "breadth_items g managed_value_sizes managed_value_ranges out_nodes"
  let ?pl = "greedyByOperatorBreadth g managed_value_sizes managed_value_ranges out_nodes"
  have inv: "plan_valid ?pl \<and> ends_within ?pl (plan_sum ?pl)"
    unfolding greedyByOperatorBreadth_def
    by (rule foldl_place_range_valid) (insert assms, simp_all)
  have sizes: "plan_sizes ?pl = ?items"
    using plan_sizes_place_range [of "[]" ?items]
    by (simp add: greedyByOperatorBreadth_def plan_sizes_def)
  have "plan_sum ?pl = sizes_sum ?items" by (simp add: plan_sum_sizes sizes)
  with inv sizes show ?thesis by simp
qed

text \<open>
  The breadth order, specified by its properties rather than by the sort: the nodes are
  taken in some permutation of \<open>out_nodes\<close> in which breadth does not increase, and
  each contributes its managed outputs in graph order, each with its range and size.
\<close>

lemma breadth_items_order:
  "\<exists>is. mset is = mset out_nodes \<and>
     sorted_wrt (\<lambda>i j. node_breadth managed_value_sizes managed_value_ranges j \<le>
                       node_breadth managed_value_sizes managed_value_ranges i) is \<and>
     breadth_items g managed_value_sizes managed_value_ranges out_nodes =
       concat (map (\<lambda>i. map (\<lambda>v. (lookup_default default_live_range managed_value_ranges v,
                                    lookup_default 0 managed_value_sizes v))
                             (filter (\<lambda>v. v \<in> set (map fst managed_value_sizes)) (n_outputs (g_nodes g ! i))))
          is)"
proof (intro exI conjI)
  let ?f = "\<lambda>i. - int (node_breadth managed_value_sizes managed_value_ranges i)"
  show "mset (sort_key ?f out_nodes) = mset out_nodes" by simp
  have "sorted (map ?f (sort_key ?f out_nodes))" by (rule sorted_sort_key)
  then show "sorted_wrt (\<lambda>i j. node_breadth managed_value_sizes managed_value_ranges j \<le>
                       node_breadth managed_value_sizes managed_value_ranges i) (sort_key ?f out_nodes)"
    by (simp add: sorted_wrt_map)
  show "breadth_items g managed_value_sizes managed_value_ranges out_nodes =
       concat (map (\<lambda>i. map (\<lambda>v. (lookup_default default_live_range managed_value_ranges v,
                                    lookup_default 0 managed_value_sizes v))
                             (filter (\<lambda>v. v \<in> set (map fst managed_value_sizes)) (n_outputs (g_nodes g ! i))))
          (sort_key ?f out_nodes))"
    by (simp add: breadth_items_def)
qed

text \<open>Every managed output of an out-variant node is an item of the breadth order.\<close>

lemma breadth_items_mem:
  assumes "i \<in> set out_nodes" and "v \<in> set (n_outputs (g_nodes g ! i))"
    and "v \<in> fst ` set managed_value_sizes"
  shows "lookup_default default_live_range managed_value_ranges v \<in>
           fst ` set (breadth_items g managed_value_sizes managed_value_ranges out_nodes)"
  using assms by (force simp: breadth_items_def)

section \<open>Properties\<close>

text \<open>
  C18. Greedy by operator breadth produces a correct plan (spec section 8, property 1):
  distinct overlapping live ranges get non-colliding regions, every managed output of
  the out-variant nodes is placed, in order of the nodes' breadth, with its own size,
  and the arena is at most the sum of those sizes -- provided the sum fits in 64 bits.
\<close>

theorem greedyByOperatorBreadth_correct:
  assumes "sizes_sum (breadth_items g managed_value_sizes managed_value_ranges out_nodes) < 2 ^ 64"
  shows "plan_valid (greedyByOperatorBreadth g managed_value_sizes managed_value_ranges out_nodes) \<and>
         (\<exists>is. mset is = mset out_nodes \<and>
            sorted_wrt (\<lambda>i j. node_breadth managed_value_sizes managed_value_ranges j \<le>
                              node_breadth managed_value_sizes managed_value_ranges i) is \<and>
            plan_sizes (greedyByOperatorBreadth g managed_value_sizes managed_value_ranges out_nodes) =
              concat (map (\<lambda>i. map (\<lambda>v. (lookup_default default_live_range managed_value_ranges v,
                                           lookup_default 0 managed_value_sizes v))
                                    (filter (\<lambda>v. v \<in> set (map fst managed_value_sizes)) (n_outputs (g_nodes g ! i))))
                 is)) \<and>
         unat (getTotalAllocationSize (greedyByOperatorBreadth g managed_value_sizes managed_value_ranges out_nodes))
           \<le> sizes_sum (breadth_items g managed_value_sizes managed_value_ranges out_nodes)"
  using greedyByOperatorBreadth_plan [OF assms] total_size_within [OF _ assms]
    breadth_items_order [of out_nodes managed_value_sizes managed_value_ranges g]
  by simp

text \<open>
  Two nodes, \<open>v0 = f()\<close> live over \<open>[0, 1]\<close> with 16 bytes and \<open>v1 = g(v0)\<close> live
  over \<open>[1, 2]\<close> with 8 bytes: node 1 has the larger breadth (24 bytes live at
  instant 1), so \<open>v1\<close> is placed first.
\<close>

theorem greedyByOperatorBreadth_correct_witness:
  "plan_valid (greedyByOperatorBreadth
      \<lparr>g_nodes = [\<lparr>n_kind = ''f'', n_inputs = [], n_outputs = [0], n_header = ''f'', n_attrs = []\<rparr>,
                  \<lparr>n_kind = ''g'', n_inputs = [0], n_outputs = [1], n_header = ''g'', n_attrs = []\<rparr>],
       g_types = \<lambda>_. OtherT ''Tensor'', g_next_value = 2\<rparr>
      [(0, 16), (1, 8)] [(0, \<lparr>lr_begin = 0, lr_end = 1\<rparr>), (1, \<lparr>lr_begin = 1, lr_end = 2\<rparr>)] [0, 1]) \<and>
   unat (getTotalAllocationSize (greedyByOperatorBreadth
      \<lparr>g_nodes = [\<lparr>n_kind = ''f'', n_inputs = [], n_outputs = [0], n_header = ''f'', n_attrs = []\<rparr>,
                  \<lparr>n_kind = ''g'', n_inputs = [0], n_outputs = [1], n_header = ''g'', n_attrs = []\<rparr>],
       g_types = \<lambda>_. OtherT ''Tensor'', g_next_value = 2\<rparr>
      [(0, 16), (1, 8)] [(0, \<lparr>lr_begin = 0, lr_end = 1\<rparr>), (1, \<lparr>lr_begin = 1, lr_end = 2\<rparr>)] [0, 1])) \<le> 24"
proof -
  have items: "breadth_items
      \<lparr>g_nodes = [\<lparr>n_kind = ''f'', n_inputs = [], n_outputs = [0], n_header = ''f'', n_attrs = []\<rparr>,
                  \<lparr>n_kind = ''g'', n_inputs = [0], n_outputs = [1], n_header = ''g'', n_attrs = []\<rparr>],
       g_types = \<lambda>_. OtherT ''Tensor'', g_next_value = 2\<rparr>
      [(0, 16), (1, 8)] [(0, \<lparr>lr_begin = 0, lr_end = 1\<rparr>), (1, \<lparr>lr_begin = 1, lr_end = 2\<rparr>)] [0, 1] =
      [(\<lparr>lr_begin = 1, lr_end = 2\<rparr>, 8), (\<lparr>lr_begin = 0, lr_end = 1\<rparr>, 16)]"
    by code_simp
  show ?thesis
    using greedyByOperatorBreadth_correct
      [of "\<lparr>g_nodes = [\<lparr>n_kind = ''f'', n_inputs = [], n_outputs = [0], n_header = ''f'', n_attrs = []\<rparr>,
                  \<lparr>n_kind = ''g'', n_inputs = [0], n_outputs = [1], n_header = ''g'', n_attrs = []\<rparr>],
           g_types = \<lambda>_. OtherT ''Tensor'', g_next_value = 2\<rparr>"
          "[(0, 16), (1, 8)]" "[(0, \<lparr>lr_begin = 0, lr_end = 1\<rparr>), (1, \<lparr>lr_begin = 1, lr_end = 2\<rparr>)]" "[0, 1]"]
    unfolding items by (simp add: sizes_sum_def)
qed

end
