(* ===== verification/Bounds.thy ===== *)
theory Bounds
  imports Packing
begin

text \<open>
  The bounds of spec section 8 on the heuristics of theory \<open>Packing\<close>: every plan
  that keeps overlapping ranges apart needs, at each instant, at least the bytes of the
  ranges live then (the peak working set); linear scan is greedy placement in
  \<open>begin\<close> order when the ranges are well formed; and \<open>getTotalAllocationSize\<close>
  is the largest region end when nothing wraps.
\<close>

text \<open>The bytes of the ranges live at instant \<open>t\<close> (closed intervals).\<close>

definition live_size_at :: "sized_ranges \<Rightarrow> nat \<Rightarrow> nat" where
  "live_size_at xs t = sizes_sum (filter (\<lambda>(l, _). lr_begin l \<le> t \<and> t \<le> lr_end l) xs)"

text \<open>The bytes \<open>[offset, offset + size)\<close> a region covers.\<close>

definition reg_bytes :: "region \<Rightarrow> nat set" where
  "reg_bytes g = {unat (reg_offset g) ..< reg_end g}"

text \<open>The arena a plan needs, in unbounded arithmetic: the largest region end.\<close>

definition arena_end :: "plan \<Rightarrow> nat" where
  "arena_end pl = Max (insert 0 (reg_end ` snd ` set pl))"

section \<open>Lemmas\<close>

lemma card_reg_bytes [simp]: "card (reg_bytes g) = unat (reg_size g)"
  by (simp add: reg_bytes_def reg_end_def)

lemma reg_bytes_disjoint: "\<not> collide g h \<Longrightarrow> reg_bytes g \<inter> reg_bytes h = {}"
  by (auto simp: reg_bytes_def reg_end_def collide_def)

lemma live_size_at_mset: "mset xs = mset ys \<Longrightarrow> live_size_at xs t = live_size_at ys t"
  unfolding live_size_at_def by (rule sizes_sum_mset) simp

lemma sizes_sum_distinct:
  "distinct xs \<Longrightarrow> sizes_sum xs = (\<Sum>(l, s) \<in> set xs. unat s)"
  by (simp add: sizes_sum_def sum_list_distinct_conv_sum_set)

text \<open>
  The live ranges of a valid plan at one instant pairwise overlap, so their regions are
  pairwise disjoint byte sets inside \<open>[0, b)\<close>.
\<close>

lemma valid_plan_live_le:
  assumes valid: "plan_valid pl" and keys: "distinct (map fst pl)" and ends: "ends_within pl b"
  shows "live_size_at (plan_sizes pl) t \<le> b"
proof -
  let ?live = "\<lambda>(l, _). lr_begin l \<le> t \<and> t \<le> lr_end l"
  let ?L = "filter ?live pl"
  have dL: "distinct (map fst ?L)" using keys by (simp add: distinct_map_filter)
  then have dL': "distinct ?L" and inj: "inj_on fst (set ?L)" by (simp_all add: distinct_map)
  have "live_size_at (plan_sizes pl) t = sizes_sum (plan_sizes ?L)"
    by (simp add: live_size_at_def plan_sizes_def filter_map o_def case_prod_beta')
  also have "\<dots> = (\<Sum>x \<in> set ?L. card (reg_bytes (snd x)))"
    using dL by (simp add: sizes_sum_def plan_sizes_def o_def case_prod_beta' sum_list_distinct_conv_sum_set
        distinct_map)
  also have "\<dots> = card (\<Union>x \<in> set ?L. reg_bytes (snd x))"
  proof (rule card_UN_disjoint [symmetric])
    show "finite (set ?L)" by simp
    show "\<forall>x \<in> set ?L. finite (reg_bytes (snd x))" by (simp add: reg_bytes_def)
    show "\<forall>x \<in> set ?L. \<forall>y \<in> set ?L. x \<noteq> y \<longrightarrow> reg_bytes (snd x) \<inter> reg_bytes (snd y) = {}"
    proof (intro ballI impI)
      fix x y assume x: "x \<in> set ?L" and y: "y \<in> set ?L" and xy: "x \<noteq> y"
      obtain l g l' g' where xe: "x = (l, g)" and ye: "y = (l', g')" by (cases x, cases y)
      from inj_onD [OF inj _ x y] xy have "l \<noteq> l'" by (auto simp: xe ye)
      moreover from x y have "overlap l l'" by (auto simp: xe ye overlap_def)
      moreover from x y have "(l, g) \<in> set pl" "(l', g') \<in> set pl" by (auto simp: xe ye)
      ultimately have "\<not> collide g g'" using valid by (fastforce simp: plan_valid_def)
      then show "reg_bytes (snd x) \<inter> reg_bytes (snd y) = {}" by (simp add: xe ye reg_bytes_disjoint)
    qed
  qed
  also have "\<dots> \<le> card {0 ..< b}"
  proof (rule card_mono)
    show "(\<Union>x \<in> set ?L. reg_bytes (snd x)) \<subseteq> {0 ..< b}"
      using ends by (force simp: reg_bytes_def ends_within_def)
  qed simp
  finally show ?thesis by simp
qed

text \<open>When no region end wraps, the \<open>uint64_t\<close> total bounds every region end.\<close>

lemma ends_within_total:
  assumes "ends_within pl b" and "b < 2 ^ 64"
  shows "ends_within pl (unat (getTotalAllocationSize pl))"
  unfolding ends_within_def
proof (intro ballI, clarify)
  fix l g assume lg: "(l, g) \<in> set pl"
  with assms have "reg_end g < 2 ^ 64" by (auto simp: ends_within_def)
  moreover from lg have "reg_offset g + reg_size g \<le> getTotalAllocationSize pl"
    by (rule total_size_ge)
  ultimately show "reg_end g \<le> unat (getTotalAllocationSize pl)"
    by (simp add: unat_end_no_wrap word_le_nat_alt)
qed

text \<open>A valid plan of the live ranges \<open>xs\<close> that does not wrap needs their peak.\<close>

lemma plan_peak_le_total:
  assumes valid: "plan_valid pl" and ends: "ends_within pl b" and b: "b < 2 ^ 64"
    and sizes: "mset (plan_sizes pl) = mset xs" and keys: "distinct (map fst xs)"
  shows "live_size_at xs t \<le> unat (getTotalAllocationSize pl)"
proof -
  have "mset (map fst (plan_sizes pl)) = mset (map fst xs)" by (simp only: mset_map sizes)
  moreover have "map fst (plan_sizes pl) = map fst pl" by (induction pl) (auto simp: plan_sizes_def)
  ultimately have "distinct (map fst pl)" using keys by (metis mset_eq_imp_distinct_iff)
  from valid_plan_live_le [OF valid this ends_within_total [OF ends b]]
  show ?thesis by (simp add: live_size_at_mset [OF sizes])
qed

text \<open>
  Linear scan as greedy placement in \<open>begin\<close> order: after the ranges up to \<open>begin = b\<close>
  are placed, the active set is exactly the placed ranges that have not ended before
  \<open>b\<close>, which for a well-formed range starting at or after \<open>b\<close> are the placed ranges
  overlapping it.
\<close>

lemma foldl_linear_scan_greedy:
  assumes "active = filter (\<lambda>(l', _). \<not> lr_end l' < b) pl"
    and "\<forall>(l', _) \<in> set pl. lr_begin l' \<le> b"
    and "sorted (map (lr_begin \<circ> fst) items)"
    and "\<forall>(l, _) \<in> set items. b \<le> lr_begin l \<and> lr_begin l \<le> lr_end l"
  shows "snd (foldl linear_scan_step (active, pl) items) = foldl place_range pl items"
  using assms
proof (induction items arbitrary: active pl b)
  case Nil
  then show ?case by simp
next
  case (Cons x items)
  obtain l s where x: "x = (l, s)" by (cases x)
  from Cons.prems(4) x have b: "b \<le> lr_begin l" and wf: "lr_begin l \<le> lr_end l" by auto
  let ?keep = "\<lambda>(l', _). \<not> lr_end l' < lr_begin l"
  have act: "filter ?keep active = filter ?keep pl"
    using Cons.prems(1) b by (auto intro: filter_cong)
  have ov: "filter (\<lambda>(l', g). overlap l l') pl = filter ?keep pl"
  proof (rule filter_cong)
    fix y assume "y \<in> set pl"
    with Cons.prems(2) b wf show "(\<lambda>(l', g). overlap l l') y = ?keep y"
      by (cases y) (auto simp: overlap_def)
  qed simp
  let ?g = "\<lparr>reg_offset = lowest_fit s (overlapping l pl), reg_size = s\<rparr>"
  have step: "linear_scan_step (active, pl) (l, s) = (filter ?keep pl @ [(l, ?g)], place_range pl (l, s))"
    by (simp add: linear_scan_step_eq act place_range_def overlapping_def ov Let_def)
  have act2: "filter ?keep pl @ [(l, ?g)] = filter ?keep (place_range pl (l, s))"
    using wf by (simp add: place_range_def)
  have begins: "\<forall>(l', _) \<in> set (place_range pl (l, s)). lr_begin l' \<le> lr_begin l"
    using Cons.prems(2) b by (auto simp: place_range_def)
  have sorted': "sorted (map (lr_begin \<circ> fst) items)" using Cons.prems(3) by (simp add: o_def)
  have rest: "\<forall>(l', _) \<in> set items. lr_begin l \<le> lr_begin l' \<and> lr_begin l' \<le> lr_end l'"
    using Cons.prems(3,4) x by auto
  from Cons.IH [OF act2 begins sorted' rest] show ?case by (simp add: x step)
qed

lemma linearScanHeuristic_greedy:
  assumes "\<forall>(l, _) \<in> set managed_live_ranges. lr_begin l \<le> lr_end l"
  shows "linearScanHeuristic managed_live_ranges =
           foldl place_range [] (sort_key linear_scan_key managed_live_ranges)"
  unfolding linearScanHeuristic_def
  by (rule foldl_linear_scan_greedy [where b = 0]) (use assms sorted_linear_scan_order in auto)

lemma total_size_unat_cases:
  assumes "\<forall>(l, g) \<in> set pl. reg_end g < 2 ^ 64"
  shows "unat (getTotalAllocationSize pl) \<in> insert 0 (reg_end ` snd ` set pl)"
  using total_size_cases [of pl]
proof
  assume "\<exists>(l, g) \<in> set pl. getTotalAllocationSize pl = reg_offset g + reg_size g"
  then obtain l g where lg: "(l, g) \<in> set pl" and t: "getTotalAllocationSize pl = reg_offset g + reg_size g"
    by auto
  from assms lg have "reg_end g < 2 ^ 64" by auto
  with t lg show ?thesis by (force simp: unat_end_no_wrap)
qed simp

section \<open>Properties\<close>

text \<open>
  C16. The peak working set is a lower bound on the arena of both heuristics (spec
  section 8, property 2): at every instant \<open>t\<close>, the bytes of the managed ranges live at
  \<open>t\<close> are at most \<open>getTotalAllocationSize\<close> of the plan, when the ranges are distinct
  keys (as in the map \<open>managed_live_ranges\<close>) and their sizes sum below \<open>2\<^sup>6\<^sup>4\<close>.
\<close>

theorem heuristics_peak_lower_bound:
  assumes "distinct (map fst managed_live_ranges)" and "sizes_sum managed_live_ranges < 2 ^ 64"
  shows "live_size_at managed_live_ranges t \<le> unat (getTotalAllocationSize (greedyBySize managed_live_ranges)) \<and>
         live_size_at managed_live_ranges t \<le> unat (getTotalAllocationSize (linearScanHeuristic managed_live_ranges))"
proof
  from greedyBySize_plan [OF assms(2)] show
    "live_size_at managed_live_ranges t \<le> unat (getTotalAllocationSize (greedyBySize managed_live_ranges))"
    by (intro plan_peak_le_total [OF _ _ assms(2) _ assms(1)]) simp_all
next
  from linearScanHeuristic_plan [OF assms(2)] show
    "live_size_at managed_live_ranges t \<le> unat (getTotalAllocationSize (linearScanHeuristic managed_live_ranges))"
    by (intro plan_peak_le_total [OF _ _ assms(2) _ assms(1)]) simp_all
qed

text \<open>In the spec's scenario both plans reach the peak of 140 bytes at instant 1.\<close>

theorem heuristics_peak_lower_bound_witness:
  "live_size_at [(\<lparr>lr_begin = 0, lr_end = 3\<rparr>, 100), (\<lparr>lr_begin = 1, lr_end = 2\<rparr>, 40), (\<lparr>lr_begin = 4, lr_end = 6\<rparr>, 60), (\<lparr>lr_begin = 5, lr_end = 7\<rparr>, 30)] 1 = 140 \<and>
   140 \<le> unat (getTotalAllocationSize (greedyBySize [(\<lparr>lr_begin = 0, lr_end = 3\<rparr>, 100), (\<lparr>lr_begin = 1, lr_end = 2\<rparr>, 40), (\<lparr>lr_begin = 4, lr_end = 6\<rparr>, 60), (\<lparr>lr_begin = 5, lr_end = 7\<rparr>, 30)])) \<and>
   140 \<le> unat (getTotalAllocationSize (linearScanHeuristic [(\<lparr>lr_begin = 0, lr_end = 3\<rparr>, 100), (\<lparr>lr_begin = 1, lr_end = 2\<rparr>, 40), (\<lparr>lr_begin = 4, lr_end = 6\<rparr>, 60), (\<lparr>lr_begin = 5, lr_end = 7\<rparr>, 30)]))"
  using heuristics_peak_lower_bound
    [of "[(\<lparr>lr_begin = 0, lr_end = 3\<rparr>, 100), (\<lparr>lr_begin = 1, lr_end = 2\<rparr>, 40), (\<lparr>lr_begin = 4, lr_end = 6\<rparr>, 60), (\<lparr>lr_begin = 5, lr_end = 7\<rparr>, 30)]" 1]
  by (simp add: sizes_sum_def live_size_at_def)

text \<open>
  C24. \<open>getTotalAllocationSize\<close> refines the arena size of the plan: when no region
  end overflows \<open>uint64_t\<close>, the running \<open>std::max\<close> of \<open>offset + size\<close>, read as a
  number, is the largest region end, and 0 for an empty plan.
\<close>

theorem getTotalAllocationSize_refines:
  assumes "\<forall>(l, g) \<in> set pl. reg_end g < 2 ^ 64"
  shows "unat (getTotalAllocationSize pl) = arena_end pl"
  unfolding arena_end_def
proof (rule Max_eqI [symmetric])
  show "finite (insert 0 (reg_end ` snd ` set pl))" by simp
  show "unat (getTotalAllocationSize pl) \<in> insert 0 (reg_end ` snd ` set pl)"
    by (rule total_size_unat_cases [OF assms])
next
  fix y assume "y \<in> insert 0 (reg_end ` snd ` set pl)"
  then consider "y = 0" | l g where "(l, g) \<in> set pl" "y = reg_end g" by auto
  then show "y \<le> unat (getTotalAllocationSize pl)"
  proof cases
    case 2
    with assms have "reg_end g < 2 ^ 64" by auto
    with total_size_ge [OF 2(1)] 2(2) show ?thesis by (simp add: unat_end_no_wrap word_le_nat_alt)
  qed simp
qed

text \<open>The linear-scan plan of the spec's scenario ends at 140 bytes.\<close>

theorem getTotalAllocationSize_refines_witness:
  "unat (getTotalAllocationSize
     [(\<lparr>lr_begin = 0, lr_end = 3\<rparr>, \<lparr>reg_offset = 0, reg_size = 100\<rparr>), (\<lparr>lr_begin = 1, lr_end = 2\<rparr>, \<lparr>reg_offset = 100, reg_size = 40\<rparr>),
      (\<lparr>lr_begin = 4, lr_end = 6\<rparr>, \<lparr>reg_offset = 0, reg_size = 60\<rparr>), (\<lparr>lr_begin = 5, lr_end = 7\<rparr>, \<lparr>reg_offset = 60, reg_size = 30\<rparr>)]) = 140"
  using getTotalAllocationSize_refines
    [of "[(\<lparr>lr_begin = 0, lr_end = 3\<rparr>, \<lparr>reg_offset = 0, reg_size = 100\<rparr>), (\<lparr>lr_begin = 1, lr_end = 2\<rparr>, \<lparr>reg_offset = 100, reg_size = 40\<rparr>),
         (\<lparr>lr_begin = 4, lr_end = 6\<rparr>, \<lparr>reg_offset = 0, reg_size = 60\<rparr>), (\<lparr>lr_begin = 5, lr_end = 7\<rparr>, \<lparr>reg_offset = 60, reg_size = 30\<rparr>)]"]
  by (simp add: arena_end_def reg_end_def)

end
