(* ===== verification/Planner.thy ===== *)
theory Planner
  imports Liveness Trace Materialize Breadth Bounds
begin

text \<open>
  The two entry points of \<open>memory_planning.cpp\<close>: \<open>planMemory\<close> (static mode:
  liveness from the alias analysis, one of three heuristics, \<open>AllocateTensor\<close>
  nodes) and \<open>planMemoryWithTracing\<close> (trace mode: liveness from a recorded
  allocation trace, \<open>PreAllocateTensor\<close> nodes). The external collaborators of the
  static mode (operator registry, alias analysis, device choice) form a record of
  parameters.
\<close>

datatype strategy = NAIVE | LINEAR_SCAN | GREEDY_BY_SIZE | GREEDY_BY_BREADTH

record planner_env =
  pe_registry :: op_registry
  pe_always_alive :: "nat set"
  pe_liveness :: "(nat \<times> live_range) list"
  pe_device :: "int option"

section \<open>Static mode\<close>

text \<open>
  \<open>managed_live_ranges[managed_value_ranges[item.first]] = item.second\<close> for every
  managed value: the inner \<open>operator[]\<close> inserts a value-initialised
  \<open>LiveRange{0, 0}\<close> for a value the liveness map lacks, the outer one overwrites the
  size of a live range already present.
\<close>

definition collect_managed_live_ranges ::
  "(nat \<times> u64) list \<Rightarrow> (nat \<times> live_range) list \<Rightarrow> sized_ranges \<times> (nat \<times> live_range) list" where
  "collect_managed_live_ranges managed_value_sizes managed_value_ranges =
     foldl (\<lambda>(mlr, ranges) (v, s).
              let ranges' = (if v \<in> set (map fst ranges) then ranges
                             else ranges @ [(v, default_live_range)])
              in (alist_assign (lookup_default default_live_range ranges' v) s mlr, ranges'))
       ([], managed_value_ranges) managed_value_sizes"

text \<open>
  Insertion into \<open>std::map<LiveRange, const Value*, live_range_start_cmp>\<close>: keys that
  neither compare less than the other are the same key, and \<open>insert\<close> keeps the one
  present; iteration is in ascending key order.
\<close>

definition start_map_insert :: "live_range \<Rightarrow> nat \<Rightarrow> (live_range \<times> nat) list \<Rightarrow> (live_range \<times> nat) list" where
  "start_map_insert lvr v m =
     (if \<exists>(l, _) \<in> set m. \<not> live_range_start_cmp l lvr \<and> \<not> live_range_start_cmp lvr l then m
      else insort_key (\<lambda>(l, _). lr_begin l) (lvr, v) m)"

definition managed_range_values_of :: "(nat \<times> live_range) list \<Rightarrow> (live_range \<times> nat) list" where
  "managed_range_values_of managed_value_ranges =
     foldl (\<lambda>m (v, lvr). start_map_insert lvr v m) [] managed_value_ranges"

text \<open>Lines after the strategy switch: total size, the value map, the two insertions.\<close>

definition materialize_static ::
  "planner_env \<Rightarrow> graph \<Rightarrow> plan \<Rightarrow> (nat \<times> live_range) list \<Rightarrow> error + graph" where
  "materialize_static env graph allocations managed_value_ranges =
     (let total_size = getTotalAllocationSize allocations;
          managed_range_values = managed_range_values_of managed_value_ranges;
          (graph1, storage_node) = insertAllocStorageNode (pe_device env) graph total_size
      in insertAllocTensorNodes graph1 storage_node allocations managed_range_values)"

definition planMemory :: "planner_env \<Rightarrow> graph \<Rightarrow> strategy \<Rightarrow> error + graph" where
  "planMemory env graph strat =
     (let (out_nodes, managed_value_sizes, managed_value_ranges) =
            getManagedStuff (pe_registry env) graph (pe_always_alive env) (pe_liveness env);
          (managed_live_ranges, managed_value_ranges') =
            collect_managed_live_ranges managed_value_sizes managed_value_ranges
      in case strat of
           NAIVE \<Rightarrow> Inr graph
         | LINEAR_SCAN \<Rightarrow>
             materialize_static env graph (linearScanHeuristic managed_live_ranges) managed_value_ranges'
         | GREEDY_BY_SIZE \<Rightarrow>
             materialize_static env graph (greedyBySize managed_live_ranges) managed_value_ranges'
         | GREEDY_BY_BREADTH \<Rightarrow>
             materialize_static env graph
               (greedyByOperatorBreadth graph managed_value_sizes managed_value_ranges' out_nodes)
               managed_value_ranges')"

text \<open>
  The specification the size loop meets: a live range is mapped to the size of the
  last managed value, in the order of \<open>managed_value_sizes\<close>, whose range it is.
\<close>

definition last_size_of :: "(nat \<times> u64) list \<Rightarrow> (nat \<Rightarrow> live_range) \<Rightarrow> live_range \<Rightarrow> u64 option" where
  "last_size_of sizes rng l =
     (let ys = [s. (v, s) \<leftarrow> sizes, rng v = l] in if ys = [] then None else Some (last ys))"

section \<open>Trace mode\<close>

definition materialize_trace ::
  "int option \<Rightarrow> graph \<Rightarrow> plan \<Rightarrow> (live_range \<times> frame_node_id) list \<Rightarrow> error + graph" where
  "materialize_trace device graph allocations live_range_node_header =
     (let total_size = getTotalAllocationSize allocations;
          (graph1, storage_node) = insertAllocStorageNode device graph total_size;
          collected_node_live_ranges = collectLiveRangesPerNode live_range_node_header
      in insertPreAllocTensorNodes graph1 storage_node allocations collected_node_live_ranges)"

text \<open>
  \<open>planMemoryWithTracing\<close>. The greedy-by-size plan computed before the switch is
  overwritten in every branch that uses a plan, so it is left out; \<open>GREEDY_BY_BREADTH\<close>
  falls to the \<open>default\<close> branch and returns.
\<close>

definition planMemoryWithTracing ::
  "int option \<Rightarrow> graph \<Rightarrow> strategy \<Rightarrow> mem_event list \<Rightarrow> error + graph" where
  "planMemoryWithTracing device graph strat mem_events =
     (if mem_events = [] then Inl (InternalAssert ''!mem_events.empty()'')
      else
        (case getLiveRangesFromMemEvents mem_events of
           Inl e \<Rightarrow> Inl e
         | Inr (managed_live_ranges, live_range_node_header) \<Rightarrow>
             (case strat of
                NAIVE \<Rightarrow> Inr graph
              | LINEAR_SCAN \<Rightarrow>
                  materialize_trace device graph (linearScanHeuristic managed_live_ranges) live_range_node_header
              | GREEDY_BY_SIZE \<Rightarrow>
                  materialize_trace device graph (greedyBySize managed_live_ranges) live_range_node_header
              | GREEDY_BY_BREADTH \<Rightarrow> Inr graph)))"

section \<open>Lemmas\<close>

lemma materialize_static_no_overflow_error:
  "materialize_static env graph allocations ranges \<noteq>
     Inl (TorchCheck ''trying to create an allocation that exceeds previously planned memory'')"
proof -
  obtain graph1 storage where ins:
    "insertAllocStorageNode (pe_device env) graph (getTotalAllocationSize allocations) = (graph1, storage)"
    by (cases "insertAllocStorageNode (pe_device env) graph (getTotalAllocationSize allocations)")
  then have "storage = snd (insertAllocStorageNode (pe_device env) graph (getTotalAllocationSize allocations))"
    by simp
  then have "insertAllocTensorNodes graph1 storage allocations (managed_range_values_of ranges) \<noteq>
     Inl (TorchCheck ''trying to create an allocation that exceeds previously planned memory'')"
    using insertAllocTensorNodes_no_overflow_error by simp
  with ins show ?thesis by (simp add: materialize_static_def Let_def)
qed

lemma start_map_insert_eq:
  "start_map_insert lvr v m =
     (if lr_begin lvr \<in> (\<lambda>(l, _). lr_begin l) ` set m then m
      else insort_key (\<lambda>(l, _). lr_begin l) (lvr, v) m)"
proof -
  have "(\<exists>(l, _) \<in> set m. \<not> live_range_start_cmp l lvr \<and> \<not> live_range_start_cmp lvr l) \<longleftrightarrow>
        lr_begin lvr \<in> (\<lambda>(l, _). lr_begin l) ` set m"
    by (force simp: live_range_start_cmp_def)
  then show ?thesis by (simp only: start_map_insert_def)
qed

lemma find_snoc: "find P (xs @ [x]) = (case find P xs of None \<Rightarrow> (if P x then Some x else None) | Some y \<Rightarrow> Some y)"
  by (induction xs) auto

text \<open>The invariant of the \<open>std::map\<close> keyed by \<open>begin\<close> while it is filled.\<close>

definition start_map_inv :: "(nat \<times> live_range) list \<Rightarrow> (live_range \<times> nat) list \<Rightarrow> bool" where
  "start_map_inv xs m \<longleftrightarrow>
     sorted (map (\<lambda>(l, _). lr_begin l) m) \<and> distinct (map (\<lambda>(l, _). lr_begin l) m) \<and>
     (\<forall>l v. (l, v) \<in> set m \<longleftrightarrow> find (\<lambda>(_, l'). lr_begin l' = lr_begin l) xs = Some (v, l))"

lemma start_map_inv_snoc:
  assumes inv: "start_map_inv xs m"
  shows "start_map_inv (xs @ [(v0, l0)]) (start_map_insert l0 v0 m)"
proof (cases "lr_begin l0 \<in> (\<lambda>(l, _). lr_begin l) ` set m")
  case True
  then obtain l1 v1 where in1: "(l1, v1) \<in> set m" and b1: "lr_begin l1 = lr_begin l0" by auto
  from inv in1 have f1: "find (\<lambda>(_, l'). lr_begin l' = lr_begin l0) xs = Some (v1, l1)"
    by (simp add: start_map_inv_def b1)
  have eqf: "find (\<lambda>(_, l'). lr_begin l' = lr_begin l) (xs @ [(v0, l0)]) =
        find (\<lambda>(_, l'). lr_begin l' = lr_begin l) xs" for l
  proof (cases "lr_begin l = lr_begin l0")
    case True
    with f1 show ?thesis by (simp add: find_snoc)
  next
    case False
    then show ?thesis by (simp add: find_snoc split: option.split)
  qed
  show ?thesis
    using inv True unfolding start_map_insert_eq start_map_inv_def eqf by simp
next
  case False
  let ?k = "\<lambda>(l, _). lr_begin l"
  let ?m' = "insort_key ?k (l0, v0) m"
  have none: "find (\<lambda>(_, l'). lr_begin l' = lr_begin l0) xs = None"
  proof (rule ccontr)
    assume "find (\<lambda>(_, l'). lr_begin l' = lr_begin l0) xs \<noteq> None"
    then obtain v1 l1 where f: "find (\<lambda>(_, l'). lr_begin l' = lr_begin l0) xs = Some (v1, l1)" by auto
    then have "lr_begin l1 = lr_begin l0" by (auto simp: find_Some_iff)
    with f inv have "(l1, v1) \<in> set m" by (simp add: start_map_inv_def)
    with False \<open>lr_begin l1 = lr_begin l0\<close> show False by force
  qed
  have ms: "mset (map ?k ?m') = mset (map ?k ((l0, v0) # m))" by simp
  have sorted: "sorted (map ?k ?m')"
    using inv by (simp add: start_map_inv_def sorted_insort_key)
  have dist: "distinct (map ?k ?m')"
    using inv False mset_eq_imp_distinct_iff [OF ms] by (simp add: start_map_inv_def)
  have mem: "(l, v) \<in> set ?m' \<longleftrightarrow>
             find (\<lambda>(_, l'). lr_begin l' = lr_begin l) (xs @ [(v0, l0)]) = Some (v, l)" for l v
  proof (cases "lr_begin l = lr_begin l0")
    case True
    have "(l, v) \<notin> set m" using False True by force
    with True none show ?thesis by (auto simp: set_insort_key find_snoc)
  next
    case False
    with inv show ?thesis
      by (auto simp: set_insort_key find_snoc start_map_inv_def split: option.split)
  qed
  from False sorted dist mem show ?thesis
    by (simp only: start_map_insert_eq start_map_inv_def if_False) blast
qed

lemma managed_range_values_of_inv: "start_map_inv xs (managed_range_values_of xs)"
proof (induction xs rule: rev_induct)
  case Nil
  then show ?case by (simp add: start_map_inv_def managed_range_values_of_def)
next
  case (snoc x xs)
  obtain v l where x: "x = (v, l)" by (cases x)
  have "managed_range_values_of (xs @ [x]) = start_map_insert l v (managed_range_values_of xs)"
    by (simp add: managed_range_values_of_def x)
  with start_map_inv_snoc [OF snoc.IH] show ?case by (simp add: x)
qed

lemma lookup_default_in: "lookup_default d xs k \<in> insert d (snd ` set xs)"
proof (cases "map_of xs k")
  case (Some v)
  then have "(k, v) \<in> set xs" by (rule map_of_SomeD)
  with Some show ?thesis by (force simp: lookup_default_def)
qed (simp add: lookup_default_def)

text \<open>The liveness entries \<open>getManagedStuff\<close> keeps are those of managed values.\<close>

lemma getManagedStuff_ranges_managed:
  "set (snd (snd (getManagedStuff registry g always_alive live_ranges))) \<subseteq>
     {(v, lvr) \<in> set live_ranges. v \<in> fst ` set (fst (snd (getManagedStuff registry g always_alive live_ranges)))}"
proof -
  have fold: "set (foldl (\<lambda>acc (v, lvr). if v \<in> set (map fst mtv) then alist_insert v lvr acc else acc) acc xs)
          \<subseteq> set acc \<union> {(v, lvr) \<in> set xs. v \<in> fst ` set mtv}" for mtv acc xs
  proof (induction xs arbitrary: acc)
    case Nil
    then show ?case by simp
  next
    case (Cons x xs)
    obtain v lvr where x: "x = (v, lvr)" by (cases x)
    define acc' where "acc' = (if v \<in> set (map fst mtv) then alist_insert v lvr acc else acc)"
    have sub: "set acc' \<subseteq> set acc \<union> {(v', lvr') \<in> {(v, lvr)}. v' \<in> fst ` set mtv}"
      by (auto simp: acc'_def alist_insert_def)
    have eq: "foldl (\<lambda>acc (v, lvr). if v \<in> set (map fst mtv) then alist_insert v lvr acc else acc) acc (x # xs) =
              foldl (\<lambda>acc (v, lvr). if v \<in> set (map fst mtv) then alist_insert v lvr acc else acc) acc' xs"
      by (simp add: x acc'_def)
    from Cons.IH [of acc'] sub show ?case unfolding eq by (auto simp: x)
  qed
  obtain out_nodes mtv where "getManagedValues registry g always_alive = (out_nodes, mtv)"
    by (cases "getManagedValues registry g always_alive")
  then show ?thesis
    using fold [of mtv "[]" live_ranges] by (simp add: getManagedStuff_def)
qed

lemma getManagedStuff_ranges:
  "set (snd (snd (getManagedStuff registry g always_alive live_ranges))) \<subseteq> set live_ranges"
  using getManagedStuff_ranges_managed by blast

lemma getManagedStuff_values:
  "fst (snd (getManagedStuff registry g always_alive live_ranges)) = snd (getManagedValues registry g always_alive)"
  by (simp add: getManagedStuff_def split: prod.split)

text \<open>The values of \<open>managed_value_ranges\<close> after the size loop: the old ones and the sized ones.\<close>

lemma collect_managed_live_ranges_values:
  "fst ` set (snd (collect_managed_live_ranges sizes ranges)) \<subseteq> fst ` set ranges \<union> fst ` set sizes"
proof -
  let ?f = "\<lambda>(mlr, ranges) (v, s).
              let ranges' = (if v \<in> set (map fst ranges) then ranges else ranges @ [(v, default_live_range)])
              in (alist_assign (lookup_default default_live_range ranges' v) s mlr, ranges')"
  have "fst ` set (snd (foldl ?f (mlr, rs) xs)) \<subseteq> fst ` set rs \<union> fst ` set xs" for mlr rs xs
  proof (induction xs arbitrary: mlr rs)
    case Nil
    then show ?case by simp
  next
    case (Cons x xs)
    obtain v s where x: "x = (v, s)" by (cases x)
    define rs' where "rs' = (if v \<in> set (map fst rs) then rs else rs @ [(v, default_live_range)])"
    have eq: "foldl ?f (mlr, rs) (x # xs) =
        foldl ?f (alist_assign (lookup_default default_live_range rs' v) s mlr, rs') xs"
      by (simp add: x rs'_def Let_def)
    have "fst ` set rs' \<subseteq> fst ` set rs \<union> {v}" by (auto simp: rs'_def)
    with Cons.IH [of _ rs'] show ?case unfolding eq by (force simp: x)
  qed
  from this [of "[]" ranges sizes] show ?thesis by (simp add: collect_managed_live_ranges_def)
qed

text \<open>Every live range \<open>planMemory\<close> plans is a value of the liveness map or \<open>{0, 0}\<close>.\<close>

lemma collect_managed_live_ranges_keys:
  "fst ` set (fst (collect_managed_live_ranges sizes ranges)) \<subseteq> insert default_live_range (snd ` set ranges)"
proof -
  let ?f = "\<lambda>(mlr, ranges) (v, s).
              let ranges' = (if v \<in> set (map fst ranges) then ranges else ranges @ [(v, default_live_range)])
              in (alist_assign (lookup_default default_live_range ranges' v) s mlr, ranges')"
  have "fst ` set (fst (foldl ?f (mlr, rs) xs)) \<union> snd ` set (snd (foldl ?f (mlr, rs) xs)) \<subseteq>
          fst ` set mlr \<union> insert default_live_range (snd ` set rs)" for mlr rs xs
  proof (induction xs arbitrary: mlr rs)
    case Nil
    then show ?case by auto
  next
    case (Cons x xs)
    obtain v s where x: "x = (v, s)" by (cases x)
    define rs' where "rs' = (if v \<in> set (map fst rs) then rs else rs @ [(v, default_live_range)])"
    define k where "k = lookup_default default_live_range rs' v"
    have rs': "snd ` set rs' \<subseteq> insert default_live_range (snd ` set rs)"
      by (auto simp: rs'_def)
    with lookup_default_in [of default_live_range rs' v]
    have kin: "k \<in> insert default_live_range (snd ` set rs)" by (auto simp: k_def)
    have eq: "foldl ?f (mlr, rs) (x # xs) = foldl ?f (alist_assign k s mlr, rs') xs"
      by (simp add: x rs'_def k_def Let_def)
    have "fst ` set (fst (foldl ?f (alist_assign k s mlr, rs') xs)) \<union> snd ` set (snd (foldl ?f (alist_assign k s mlr, rs') xs)) \<subseteq>
          insert k (fst ` set mlr) \<union> insert default_live_range (snd ` set rs')"
      using Cons.IH [of "alist_assign k s mlr" rs'] by (simp only: keys_alist_assign)
    with rs' kin show ?case unfolding eq by blast
  qed
  from this [of "[]" ranges sizes] show ?thesis
    by (auto simp: collect_managed_live_ranges_def)
qed

lemma getManagedStuff_ranges_distinct:
  "distinct (map fst (snd (snd (getManagedStuff registry g always_alive live_ranges))))"
proof -
  have fold: "distinct (map fst acc) \<Longrightarrow>
      distinct (map fst (foldl (\<lambda>acc (v, lvr). if v \<in> set (map fst mtv) then alist_insert v lvr acc else acc) acc xs))"
    for mtv acc xs
    by (induction xs arbitrary: acc) (auto simp: distinct_alist_insert)
  obtain out_nodes mtv where "getManagedValues registry g always_alive = (out_nodes, mtv)"
    by (cases "getManagedValues registry g always_alive")
  then show ?thesis
    using fold [of "[]" mtv live_ranges] by (simp add: getManagedStuff_def)
qed

text \<open>
  After the size loop every value of \<open>managed_value_ranges\<close> that has a size has its
  live range among the keys of \<open>managed_live_ranges\<close>, the keys the heuristics place.
\<close>

lemma collect_managed_live_ranges_keys_cover:
  assumes "distinct (map fst ranges)" and "collect_managed_live_ranges sizes ranges = (mlr, ranges')"
  shows "distinct (map fst ranges') \<and> (\<forall>(v, l) \<in> set ranges'. v \<in> fst ` set sizes \<longrightarrow> l \<in> fst ` set mlr)"
proof -
  let ?f = "\<lambda>(mlr, ranges) (v, s).
              let ranges' = (if v \<in> set (map fst ranges) then ranges else ranges @ [(v, default_live_range)])
              in (alist_assign (lookup_default default_live_range ranges' v) s mlr, ranges')"
  have "distinct (map fst rs) \<Longrightarrow> (\<forall>(v, l) \<in> set rs. v \<in> D \<longrightarrow> l \<in> fst ` set m) \<Longrightarrow>
        distinct (map fst (snd (foldl ?f (m, rs) xs))) \<and>
        (\<forall>(v, l) \<in> set (snd (foldl ?f (m, rs) xs)). v \<in> D \<union> fst ` set xs \<longrightarrow> l \<in> fst ` set (fst (foldl ?f (m, rs) xs)))"
    for m rs D xs
  proof (induction xs arbitrary: m rs D)
    case Nil
    then show ?case by simp
  next
    case (Cons x xs)
    obtain v s where x: "x = (v, s)" by (cases x)
    define rs' where "rs' = (if v \<in> set (map fst rs) then rs else rs @ [(v, default_live_range)])"
    define k where "k = lookup_default default_live_range rs' v"
    have eq: "foldl ?f (m, rs) (x # xs) = foldl ?f (alist_assign k s m, rs') xs"
      by (simp add: x rs'_def k_def Let_def)
    have d': "distinct (map fst rs')" using Cons.prems(1) by (auto simp: rs'_def)
    have "\<forall>(v', l) \<in> set rs'. v' \<in> insert v D \<longrightarrow> l \<in> fst ` set (alist_assign k s m)"
    proof (intro ballI impI, clarify)
      fix v' l assume vl: "(v', l) \<in> set rs'" and v': "v' \<in> insert v D"
      show "l \<in> fst ` set (alist_assign k s m)"
      proof (cases "v' = v")
        case True
        with vl d' have "l = k" by (simp add: k_def lookup_default_distinct)
        then show ?thesis by simp
      next
        case False
        with vl v' have "(v', l) \<in> set rs" and "v' \<in> D" by (auto simp: rs'_def split: if_splits)
        with Cons.prems(2) show ?thesis by auto
      qed
    qed
    from Cons.IH [OF d' this] show ?case unfolding eq by (simp add: x)
  qed
  from this [of ranges "{}" "[]" sizes] assms show ?thesis
    by (simp add: collect_managed_live_ranges_def)
qed

lemma last_size_of_Cons:
  "last_size_of ((v, s) # xs) rng l =
     (case last_size_of xs rng l of None \<Rightarrow> (if rng v = l then Some s else None) | Some s' \<Rightarrow> Some s')"
  by (simp add: last_size_of_def Let_def)

lemma lookup_default_append:
  "k \<in> fst ` set xs \<Longrightarrow> lookup_default d (xs @ ys) k = lookup_default d xs k"
  by (auto simp: lookup_default_def map_add_def split: option.split dest: map_of_eq_None_iff [THEN iffD1])

text \<open>
  The size loop only appends to \<open>managed_value_ranges\<close>, so the range it reads for a
  value is the range the value has at the end; each write overwrites the one before.
\<close>

lemma collect_managed_live_ranges_fold:
  "\<exists>zs. snd (foldl (\<lambda>(mlr, ranges) (v, s).
              let ranges' = (if v \<in> set (map fst ranges) then ranges else ranges @ [(v, default_live_range)])
              in (alist_assign (lookup_default default_live_range ranges' v) s mlr, ranges')) (m, rs) xs) = rs @ zs \<and>
   map_of (fst (foldl (\<lambda>(mlr, ranges) (v, s).
              let ranges' = (if v \<in> set (map fst ranges) then ranges else ranges @ [(v, default_live_range)])
              in (alist_assign (lookup_default default_live_range ranges' v) s mlr, ranges')) (m, rs) xs)) l =
     (case last_size_of xs (lookup_default default_live_range (rs @ zs)) l of
        None \<Rightarrow> map_of m l | Some s \<Rightarrow> Some s)"
proof (induction xs arbitrary: m rs)
  case Nil
  then show ?case by (simp add: last_size_of_def)
next
  case (Cons x xs)
  obtain v s where x: "x = (v, s)" by (cases x)
  define rs' where "rs' = (if v \<in> set (map fst rs) then rs else rs @ [(v, default_live_range)])"
  define k where "k = lookup_default default_live_range rs' v"
  let ?F = "\<lambda>(mlr, ranges) (v, s).
              let ranges' = (if v \<in> set (map fst ranges) then ranges else ranges @ [(v, default_live_range)])
              in (alist_assign (lookup_default default_live_range ranges' v) s mlr, ranges')"
  have eq: "foldl ?F (m, rs) (x # xs) = foldl ?F (alist_assign k s m, rs') xs"
    by (simp add: x rs'_def k_def Let_def)
  from Cons.IH [of "alist_assign k s m" rs'] obtain zs where
    zs: "snd (foldl ?F (alist_assign k s m, rs') xs) = rs' @ zs"
    and ih: "map_of (fst (foldl ?F (alist_assign k s m, rs') xs)) l =
      (case last_size_of xs (lookup_default default_live_range (rs' @ zs)) l of
         None \<Rightarrow> map_of (alist_assign k s m) l | Some s \<Rightarrow> Some s)"
    by blast
  define ws where "ws = (if v \<in> set (map fst rs) then [] else [(v, default_live_range)])"
  have rs'_eq: "rs' = rs @ ws" by (simp add: rs'_def ws_def)
  have "v \<in> fst ` set rs'" by (force simp: rs'_def)
  then have kv: "lookup_default default_live_range (rs' @ zs) v = k"
    by (simp add: k_def lookup_default_append)
  have app: "rs @ ws @ zs = rs' @ zs" by (simp add: rs'_eq)
  show ?case unfolding eq
  proof (intro exI [of _ "ws @ zs"] conjI)
    show "snd (foldl ?F (alist_assign k s m, rs') xs) = rs @ ws @ zs" by (simp only: zs app)
    show "map_of (fst (foldl ?F (alist_assign k s m, rs') xs)) l =
        (case last_size_of (x # xs) (lookup_default default_live_range (rs @ ws @ zs)) l of
           None \<Rightarrow> map_of m l | Some s \<Rightarrow> Some s)"
      unfolding ih app x last_size_of_Cons kv
      by (simp add: map_of_alist_assign split: option.split)
  qed
qed

text \<open>\<open>managed_live_ranges\<close> holds each live range once.\<close>

lemma collect_managed_live_ranges_distinct:
  "distinct (map fst (fst (collect_managed_live_ranges sizes ranges)))"
proof -
  have "distinct (map fst m) \<Longrightarrow> distinct (map fst (fst (foldl (\<lambda>(mlr, ranges) (v, s).
              let ranges' = (if v \<in> set (map fst ranges) then ranges else ranges @ [(v, default_live_range)])
              in (alist_assign (lookup_default default_live_range ranges' v) s mlr, ranges')) (m, rs) xs)))" for m rs xs
    by (induction xs arbitrary: m rs) (auto simp: Let_def distinct_alist_assign)
  from this [of "[]" ranges sizes] show ?thesis by (simp add: collect_managed_live_ranges_def)
qed

lemma find_Some_mem: "find P xs = Some x \<Longrightarrow> x \<in> set xs \<and> P x"
  by (induction xs) (auto split: if_splits)

lemma managed_range_values_of_length:
  "length (managed_range_values_of xs) = card (lr_begin ` snd ` set xs)"
proof -
  let ?r = "managed_range_values_of xs"
  have inv: "start_map_inv xs ?r" by (rule managed_range_values_of_inv)
  then have d: "distinct (map (\<lambda>(l, _). lr_begin l) ?r)"
    and mem: "\<And>l v. (l, v) \<in> set ?r \<longleftrightarrow> find (\<lambda>(_, l'). lr_begin l' = lr_begin l) xs = Some (v, l)"
    by (simp_all add: start_map_inv_def)
  have "(\<lambda>(l, _). lr_begin l) ` set ?r = lr_begin ` snd ` set xs"
  proof (intro equalityI subsetI)
    fix b assume "b \<in> (\<lambda>(l, _). lr_begin l) ` set ?r"
    then obtain l v where lv: "(l, v) \<in> set ?r" and b: "b = lr_begin l" by auto
    from lv mem have "find (\<lambda>(_, l'). lr_begin l' = lr_begin l) xs = Some (v, l)" by blast
    then have "(v, l) \<in> set xs" by (blast dest: find_Some_mem)
    with b show "b \<in> lr_begin ` snd ` set xs" by force
  next
    fix b assume "b \<in> lr_begin ` snd ` set xs"
    then obtain v l where vl: "(v, l) \<in> set xs" and b: "b = lr_begin l" by auto
    have P: "(\<lambda>(_, l'). lr_begin l' = lr_begin l) (v, l)" by simp
    have "find (\<lambda>(_, l'). lr_begin l' = lr_begin l) xs \<noteq> None"
      unfolding find_None_iff using vl P by blast
    then obtain v' l' where f: "find (\<lambda>(_, l'). lr_begin l' = lr_begin l) xs = Some (v', l')" by auto
    then have bl: "lr_begin l' = lr_begin l" by (auto dest: find_Some_mem)
    with f mem [of l' v'] have "(l', v') \<in> set ?r" by simp
    with bl b show "b \<in> (\<lambda>(l, _). lr_begin l) ` set ?r" by force
  qed
  with d show ?thesis by (metis distinct_card length_map set_map)
qed

lemma managed_range_values_of_mem:
  "(l, v) \<in> set (managed_range_values_of xs) \<Longrightarrow> (v, l) \<in> set xs"
  using managed_range_values_of_inv [of xs] by (auto simp: start_map_inv_def dest: find_Some_mem)

lemma managed_range_values_of_values:
  "snd ` set (managed_range_values_of xs) \<subseteq> fst ` set xs"
  by (force dest: managed_range_values_of_mem)

text \<open>The \<open>std::map\<close> keyed by \<open>begin\<close> holds one entry per begin time.\<close>

lemma managed_range_values_of_begin_unique:
  assumes "(l1, v1) \<in> set (managed_range_values_of xs)" and "(l2, v2) \<in> set (managed_range_values_of xs)"
    and "lr_begin l1 = lr_begin l2"
  shows "(l1, v1) = (l2, v2)"
proof -
  have mem: "(l, v) \<in> set (managed_range_values_of xs) \<longleftrightarrow>
      find (\<lambda>(_, l'). lr_begin l' = lr_begin l) xs = Some (v, l)" for l v
    using managed_range_values_of_inv [of xs] by (simp add: start_map_inv_def)
  from assms(1) have "find (\<lambda>(_, l'). lr_begin l' = lr_begin l1) xs = Some (v1, l1)" by (simp add: mem)
  moreover from assms(2) have "find (\<lambda>(_, l'). lr_begin l' = lr_begin l1) xs = Some (v2, l2)"
    by (simp add: mem assms(3))
  ultimately show ?thesis by simp
qed

section \<open>Properties\<close>

text \<open>
  C2. Trace-mode planning never succeeds: an empty trace fails its first assertion and
  every other trace fails in \<open>getLiveRangesFromMemEvents\<close>, whatever the strategy
  (\<open>NAIVE\<close> included), so the graph is never rewritten in trace mode.
\<close>

theorem planMemoryWithTracing_always_fails:
  "\<exists>e. planMemoryWithTracing device graph strat mem_events = Inl e"
proof (cases "mem_events = []")
  case True
  then show ?thesis by (simp add: planMemoryWithTracing_def)
next
  case False
  have "\<exists>e. getLiveRangesFromMemEvents mem_events = Inl e"
  proof (cases "getLiveRangesFromMemEvents mem_events")
    case (Inl e)
    then show ?thesis by simp
  next
    case (Inr r)
    with False getLiveRangesFromMemEvents_Inr show ?thesis by blast
  qed
  then obtain e where "getLiveRangesFromMemEvents mem_events = Inl e" by blast
  with False show ?thesis by (simp add: planMemoryWithTracing_def)
qed

text \<open>
  C5. In static mode the check \<open>region.offset + region.size <= total_size\<close> of
  \<open>insertAllocTensorNodes\<close> never fails, for every strategy: the total is the
  \<open>uint64_t\<close> maximum of the same sums, and a missing region reads as \<open>{0, 0}\<close>.
\<close>

theorem planMemory_region_check_passes:
  "planMemory env graph strat \<noteq>
     Inl (TorchCheck ''trying to create an allocation that exceeds previously planned memory'')"
proof -
  obtain out_nodes sizes ranges where m:
    "getManagedStuff (pe_registry env) graph (pe_always_alive env) (pe_liveness env) = (out_nodes, sizes, ranges)"
    by (cases "getManagedStuff (pe_registry env) graph (pe_always_alive env) (pe_liveness env)") auto
  obtain mlr ranges' where c: "collect_managed_live_ranges sizes ranges = (mlr, ranges')"
    by (cases "collect_managed_live_ranges sizes ranges")
  show ?thesis
    using materialize_static_no_overflow_error
    by (cases strat) (simp_all add: planMemory_def m c)
qed

text \<open>
  C8. The \<open>NAIVE\<close> strategy returns before any change: static planning leaves the
  graph as it was.
\<close>

theorem planMemory_naive: "planMemory env graph NAIVE = Inr graph"
proof -
  obtain out_nodes sizes ranges where m:
    "getManagedStuff (pe_registry env) graph (pe_always_alive env) (pe_liveness env) = (out_nodes, sizes, ranges)"
    by (cases "getManagedStuff (pe_registry env) graph (pe_always_alive env) (pe_liveness env)") auto
  obtain mlr ranges' where c: "collect_managed_live_ranges sizes ranges = (mlr, ranges')"
    by (cases "collect_managed_live_ranges sizes ranges")
  show ?thesis by (simp add: planMemory_def m c)
qed

text \<open>
  C15. The map of managed values that \<open>planMemory\<close> walks to insert the
  \<open>AllocateTensor\<close> nodes is ordered by \<open>begin\<close> with one entry per \<open>begin\<close>, and the
  entry for a \<open>begin\<close> is the first managed value whose range starts there: a later value
  whose range starts at the same node gets no entry, hence no \<open>AllocateTensor\<close>.
\<close>

theorem managed_range_values_of_first_per_begin:
  "sorted (map (\<lambda>(l, _). lr_begin l) (managed_range_values_of xs)) \<and>
   distinct (map (\<lambda>(l, _). lr_begin l) (managed_range_values_of xs)) \<and>
   ((l, v) \<in> set (managed_range_values_of xs) \<longleftrightarrow>
      find (\<lambda>(_, l'). lr_begin l' = lr_begin l) xs = Some (v, l))"
  using managed_range_values_of_inv [of xs] by (simp add: start_map_inv_def)

text \<open>Two values whose ranges both start at node 1: the second one is dropped.\<close>

theorem managed_range_values_of_first_per_begin_witness:
  "(\<lparr>lr_begin = 1, lr_end = 5\<rparr>, 6) \<notin>
     set (managed_range_values_of [(5, \<lparr>lr_begin = 1, lr_end = 3\<rparr>), (6, \<lparr>lr_begin = 1, lr_end = 5\<rparr>)])"
  using managed_range_values_of_first_per_begin
    [of "[(5, \<lparr>lr_begin = 1, lr_end = 3\<rparr>), (6, \<lparr>lr_begin = 1, lr_end = 5\<rparr>)]"
        "\<lparr>lr_begin = 1, lr_end = 5\<rparr>" 6]
  by simp

text \<open>
  C17. Linear scan is greedy placement in \<open>begin\<close> order: when every range of the
  liveness map is well formed (\<open>begin <= end\<close>), \<open>planMemory\<close> with
  \<open>LINEAR_SCAN\<close> materializes the plan that places the managed live ranges, sorted by
  \<open>(begin, end)\<close>, each at the lowest offset free of every placed range overlapping it.
  The active set of the sweep loses only ranges that can no longer overlap.
\<close>

theorem planMemory_linear_scan_is_greedy:
  assumes "\<forall>(v, l) \<in> set (pe_liveness env). lr_begin l \<le> lr_end l"
  shows "planMemory env graph LINEAR_SCAN =
           (case getManagedStuff (pe_registry env) graph (pe_always_alive env) (pe_liveness env) of
              (out_nodes, sizes, ranges) \<Rightarrow>
                (case collect_managed_live_ranges sizes ranges of
                   (mlr, ranges') \<Rightarrow>
                     materialize_static env graph (foldl place_range [] (sort_key linear_scan_key mlr)) ranges'))"
proof -
  obtain out_nodes sizes ranges where m:
    "getManagedStuff (pe_registry env) graph (pe_always_alive env) (pe_liveness env) = (out_nodes, sizes, ranges)"
    by (cases "getManagedStuff (pe_registry env) graph (pe_always_alive env) (pe_liveness env)") auto
  obtain mlr ranges' where c: "collect_managed_live_ranges sizes ranges = (mlr, ranges')"
    by (cases "collect_managed_live_ranges sizes ranges")
  have "set ranges \<subseteq> set (pe_liveness env)"
    using getManagedStuff_ranges [of "pe_registry env" graph "pe_always_alive env" "pe_liveness env"] m by simp
  with assms have wf_ranges: "\<forall>l \<in> snd ` set ranges. lr_begin l \<le> lr_end l" by fastforce
  have "fst ` set mlr \<subseteq> insert default_live_range (snd ` set ranges)"
    using collect_managed_live_ranges_keys [of sizes ranges] c by simp
  with wf_ranges have "\<forall>(l, _) \<in> set mlr. lr_begin l \<le> lr_end l"
    by (force simp: default_live_range_def)
  then have "linearScanHeuristic mlr = foldl place_range [] (sort_key linear_scan_key mlr)"
    by (rule linearScanHeuristic_greedy)
  then show ?thesis by (simp add: planMemory_def m c)
qed

text \<open>An empty graph whose liveness map holds one well-formed range.\<close>

theorem planMemory_linear_scan_is_greedy_witness:
  "planMemory \<lparr>pe_registry = \<lambda>_. [], pe_always_alive = {}, pe_liveness = [(0, \<lparr>lr_begin = 0, lr_end = 1\<rparr>)],
               pe_device = None\<rparr>
              \<lparr>g_nodes = [], g_types = \<lambda>_. OtherT ''None'', g_next_value = 0\<rparr> LINEAR_SCAN =
   (case getManagedStuff (\<lambda>_. []) \<lparr>g_nodes = [], g_types = \<lambda>_. OtherT ''None'', g_next_value = 0\<rparr> {}
           [(0, \<lparr>lr_begin = 0, lr_end = 1\<rparr>)] of
      (out_nodes, sizes, ranges) \<Rightarrow>
        (case collect_managed_live_ranges sizes ranges of
           (mlr, ranges') \<Rightarrow>
             materialize_static \<lparr>pe_registry = \<lambda>_. [], pe_always_alive = {},
                                  pe_liveness = [(0, \<lparr>lr_begin = 0, lr_end = 1\<rparr>)], pe_device = None\<rparr>
               \<lparr>g_nodes = [], g_types = \<lambda>_. OtherT ''None'', g_next_value = 0\<rparr>
               (foldl place_range [] (sort_key linear_scan_key mlr)) ranges'))"
  using planMemory_linear_scan_is_greedy [where env = "\<lparr>pe_registry = \<lambda>_. [], pe_always_alive = {},
        pe_liveness = [(0, \<lparr>lr_begin = 0, lr_end = 1\<rparr>)], pe_device = None\<rparr>"
      and graph = "\<lparr>g_nodes = [], g_types = \<lambda>_. OtherT ''None'', g_next_value = 0\<rparr>"]
  by simp

text \<open>
  C20. Static materialization adds one \<open>prim::AllocateStorage\<close> node and one
  \<open>prim::AllocateTensor\<close> node per distinct \<open>begin\<close> among the managed values' live
  ranges -- not one per managed value: managed values whose ranges start at the same node
  share one entry of the \<open>std::map\<close> and all but the first get no allocation node. No
  other node is added or removed.
\<close>

theorem materialize_static_allocation_nodes:
  assumes "materialize_static env graph allocations managed_value_ranges = Inr graph'"
  shows "mset (map n_kind (g_nodes graph')) =
           mset (map n_kind (g_nodes graph)) + {#''prim::AllocateStorage''#} +
           replicate_mset (card (lr_begin ` snd ` set managed_value_ranges)) ''prim::AllocateTensor''"
proof -
  obtain graph1 storage where ins:
    "insertAllocStorageNode (pe_device env) graph (getTotalAllocationSize allocations) = (graph1, storage)"
    by (cases "insertAllocStorageNode (pe_device env) graph (getTotalAllocationSize allocations)")
  with assms have "insertAllocTensorNodes graph1 storage allocations (managed_range_values_of managed_value_ranges) = Inr graph'"
    by (simp add: materialize_static_def Let_def)
  from insertAllocTensorNodes_kinds [OF this]
  have "mset (map n_kind (g_nodes graph')) = mset (map n_kind (g_nodes graph1)) +
          replicate_mset (card (lr_begin ` snd ` set managed_value_ranges)) ''prim::AllocateTensor''"
    by (simp only: managed_range_values_of_length)
  moreover have "mset (map n_kind (g_nodes graph1)) = add_mset ''prim::AllocateStorage'' (mset (map n_kind (g_nodes graph)))"
    using insertAllocStorageNode_kinds [of "pe_device env" graph "getTotalAllocationSize allocations"] ins by simp
  ultimately show ?thesis by simp
qed

text \<open>
  Two managed values whose ranges both start at node 1, each with its own region: the
  rewritten graph has a single \<open>AllocateTensor\<close>.
\<close>

theorem materialize_static_allocation_nodes_witness:
  "\<exists>graph'. materialize_static \<lparr>pe_registry = \<lambda>_. [], pe_always_alive = {}, pe_liveness = [], pe_device = None\<rparr>
      \<lparr>g_nodes = [\<lparr>n_kind = ''aten::a'', n_inputs = [], n_outputs = [0], n_header = ''aten::a'', n_attrs = []\<rparr>,
                  \<lparr>n_kind = ''aten::b'', n_inputs = [0], n_outputs = [1], n_header = ''aten::b'', n_attrs = []\<rparr>],
       g_types = \<lambda>_. TensorT \<lparr>tt_scalar_type = Some kFloat, tt_sizes = Some [2], tt_strides = Some [1], tt_numel = Some 2\<rparr>,
       g_next_value = 2\<rparr>
      [(\<lparr>lr_begin = 1, lr_end = 3\<rparr>, \<lparr>reg_offset = 0, reg_size = 8\<rparr>),
       (\<lparr>lr_begin = 1, lr_end = 5\<rparr>, \<lparr>reg_offset = 8, reg_size = 8\<rparr>)]
      [(0, \<lparr>lr_begin = 1, lr_end = 3\<rparr>), (1, \<lparr>lr_begin = 1, lr_end = 5\<rparr>)] = Inr graph' \<and>
     mset (map n_kind (g_nodes graph')) =
       {#''aten::a'', ''aten::b'', ''prim::AllocateStorage'', ''prim::AllocateTensor''#}"
proof -
  have "\<not> isl (materialize_static \<lparr>pe_registry = \<lambda>_. [], pe_always_alive = {}, pe_liveness = [], pe_device = None\<rparr>
      \<lparr>g_nodes = [\<lparr>n_kind = ''aten::a'', n_inputs = [], n_outputs = [0], n_header = ''aten::a'', n_attrs = []\<rparr>,
                  \<lparr>n_kind = ''aten::b'', n_inputs = [0], n_outputs = [1], n_header = ''aten::b'', n_attrs = []\<rparr>],
       g_types = \<lambda>_. TensorT \<lparr>tt_scalar_type = Some kFloat, tt_sizes = Some [2], tt_strides = Some [1], tt_numel = Some 2\<rparr>,
       g_next_value = 2\<rparr>
      [(\<lparr>lr_begin = 1, lr_end = 3\<rparr>, \<lparr>reg_offset = 0, reg_size = 8\<rparr>),
       (\<lparr>lr_begin = 1, lr_end = 5\<rparr>, \<lparr>reg_offset = 8, reg_size = 8\<rparr>)]
      [(0, \<lparr>lr_begin = 1, lr_end = 3\<rparr>), (1, \<lparr>lr_begin = 1, lr_end = 5\<rparr>)])"
    by code_simp
  then obtain graph' where ok: "materialize_static \<lparr>pe_registry = \<lambda>_. [], pe_always_alive = {}, pe_liveness = [], pe_device = None\<rparr>
      \<lparr>g_nodes = [\<lparr>n_kind = ''aten::a'', n_inputs = [], n_outputs = [0], n_header = ''aten::a'', n_attrs = []\<rparr>,
                  \<lparr>n_kind = ''aten::b'', n_inputs = [0], n_outputs = [1], n_header = ''aten::b'', n_attrs = []\<rparr>],
       g_types = \<lambda>_. TensorT \<lparr>tt_scalar_type = Some kFloat, tt_sizes = Some [2], tt_strides = Some [1], tt_numel = Some 2\<rparr>,
       g_next_value = 2\<rparr>
      [(\<lparr>lr_begin = 1, lr_end = 3\<rparr>, \<lparr>reg_offset = 0, reg_size = 8\<rparr>),
       (\<lparr>lr_begin = 1, lr_end = 5\<rparr>, \<lparr>reg_offset = 8, reg_size = 8\<rparr>)]
      [(0, \<lparr>lr_begin = 1, lr_end = 3\<rparr>), (1, \<lparr>lr_begin = 1, lr_end = 5\<rparr>)] = Inr graph'"
    by (cases "materialize_static \<lparr>pe_registry = \<lambda>_. [], pe_always_alive = {}, pe_liveness = [], pe_device = None\<rparr>
      \<lparr>g_nodes = [\<lparr>n_kind = ''aten::a'', n_inputs = [], n_outputs = [0], n_header = ''aten::a'', n_attrs = []\<rparr>,
                  \<lparr>n_kind = ''aten::b'', n_inputs = [0], n_outputs = [1], n_header = ''aten::b'', n_attrs = []\<rparr>],
       g_types = \<lambda>_. TensorT \<lparr>tt_scalar_type = Some kFloat, tt_sizes = Some [2], tt_strides = Some [1], tt_numel = Some 2\<rparr>,
       g_next_value = 2\<rparr>
      [(\<lparr>lr_begin = 1, lr_end = 3\<rparr>, \<lparr>reg_offset = 0, reg_size = 8\<rparr>),
       (\<lparr>lr_begin = 1, lr_end = 5\<rparr>, \<lparr>reg_offset = 8, reg_size = 8\<rparr>)]
      [(0, \<lparr>lr_begin = 1, lr_end = 3\<rparr>), (1, \<lparr>lr_begin = 1, lr_end = 5\<rparr>)]") simp_all
  from materialize_static_allocation_nodes [OF ok] ok show ?thesis
    by (simp add: add_mset_commute)
qed

text \<open>
  C33. The size loop of \<open>planMemory\<close> against its specification: in
  \<open>managed_live_ranges\<close> a live range has the size of the last managed value, in the
  order of \<open>managed_value_sizes\<close>, whose range (after the loop) it is, and no size if
  it is no managed value's range. Two values sharing a range therefore share the size of
  the later one, whatever the earlier one needs (C29).
\<close>

theorem collect_managed_live_ranges_last_size:
  "map_of (fst (collect_managed_live_ranges sizes ranges)) l =
     last_size_of sizes (lookup_default default_live_range (snd (collect_managed_live_ranges sizes ranges))) l"
proof -
  from collect_managed_live_ranges_fold [of "[]" ranges sizes l] obtain zs where
    "snd (collect_managed_live_ranges sizes ranges) = ranges @ zs"
    "map_of (fst (collect_managed_live_ranges sizes ranges)) l =
       (case last_size_of sizes (lookup_default default_live_range (ranges @ zs)) l of
          None \<Rightarrow> map_of [] l | Some s \<Rightarrow> Some s)"
    unfolding collect_managed_live_ranges_def by blast
  then show ?thesis by (simp split: option.split)
qed

end
