(* ===== verification/Static_Safety.thy ===== *)
theory Static_Safety
  imports Planner
begin

text \<open>
  What static planning guarantees end to end, across the liveness extractor, the size
  loop of \<open>planMemory\<close>, the \<open>std::map\<close> keyed by \<open>begin\<close>, the heuristics and the
  materialiser: \<open>planMemory\<close> never throws, different managed values with overlapping
  live ranges get disjoint regions (on the plan and on the returned graph), and the one
  place where sizes go wrong, two values sharing a live range.
\<close>

section \<open>Lemmas\<close>

text \<open>
  Materialisation throws nothing when every value of \<open>managed_value_ranges\<close> is an
  output of a node of the graph and a tensor with a scalar type.
\<close>

lemma materialize_static_ok:
  assumes "\<forall>v \<in> fst ` set ranges. v \<in> set (concat (map n_outputs (g_nodes graph))) \<and>
             (\<exists>ttp st. g_types graph v = TensorT ttp \<and> tt_scalar_type ttp = Some st)"
  shows "\<exists>graph'. materialize_static env graph allocations ranges = Inr graph'"
proof -
  obtain graph1 storage where ins:
    "insertAllocStorageNode (pe_device env) graph (getTotalAllocationSize allocations) = (graph1, storage)"
    by (cases "insertAllocStorageNode (pe_device env) graph (getTotalAllocationSize allocations)")
  have "\<forall>(lvr, v) \<in> set (managed_range_values_of ranges). v \<in> set (concat (map n_outputs (g_nodes graph))) \<and>
             (\<exists>ttp st. g_types graph v = TensorT ttp \<and> tt_scalar_type ttp = Some st)"
    using assms managed_range_values_of_values [of ranges] by fastforce
  from insertAllocTensorNodes_ok [OF ins this] ins show ?thesis
    by (simp add: materialize_static_def Let_def)
qed

text \<open>Every value \<open>planMemory\<close> hands to the materialiser is a managed tensor value.\<close>

lemma planMemory_ranges_sized:
  assumes "getManagedStuff (pe_registry env) graph (pe_always_alive env) (pe_liveness env) =
             (out_nodes, sizes, ranges)"
  shows "fst ` set (snd (collect_managed_live_ranges sizes ranges)) \<subseteq> fst ` set sizes"
proof -
  have "fst ` set ranges \<subseteq> fst ` set sizes"
    using getManagedStuff_ranges_managed [of "pe_registry env" graph "pe_always_alive env" "pe_liveness env"]
    unfolding assms by force
  with collect_managed_live_ranges_values [of sizes ranges] show ?thesis by blast
qed

lemma planMemory_ranges_managed:
  assumes "getManagedStuff (pe_registry env) graph (pe_always_alive env) (pe_liveness env) =
             (out_nodes, sizes, ranges)"
  shows "\<forall>v \<in> fst ` set (snd (collect_managed_live_ranges sizes ranges)).
           v \<in> set (concat (map n_outputs (g_nodes graph))) \<and>
           (\<exists>ttp st. g_types graph v = TensorT ttp \<and> tt_scalar_type ttp = Some st)"
proof
  fix v assume v: "v \<in> fst ` set (snd (collect_managed_live_ranges sizes ranges))"
  with planMemory_ranges_sized [OF assms]
  have "v \<in> fst ` set (snd (getManagedValues (pe_registry env) graph (pe_always_alive env)))"
    using getManagedStuff_values [of "pe_registry env" graph "pe_always_alive env" "pe_liveness env"]
    unfolding assms by auto
  from getManagedValues_tensor [OF this] show "v \<in> set (concat (map n_outputs (g_nodes graph))) \<and>
           (\<exists>ttp st. g_types graph v = TensorT ttp \<and> tt_scalar_type ttp = Some st)"
    by (auto intro: nth_mem)
qed

text \<open>Every live range the materialiser looks up is placed by the heuristic.\<close>

lemma plan_sizes_keys: "fst ` set (plan_sizes pl) = fst ` set pl"
  by (force simp: plan_sizes_def)

lemma planMemory_ranges_placed:
  assumes gms: "getManagedStuff (pe_registry env) graph (pe_always_alive env) (pe_liveness env) =
             (out_nodes, sizes, ranges)"
    and cml: "collect_managed_live_ranges sizes ranges = (mlr, ranges')"
    and lv: "(l, v) \<in> set (managed_range_values_of ranges')"
  shows "l \<in> fst ` set mlr"
proof -
  have r: "(v, l) \<in> set ranges'" by (rule managed_range_values_of_mem [OF lv])
  have "v \<in> fst ` set sizes" using planMemory_ranges_sized [OF gms] cml r by force
  moreover have "distinct (map fst ranges)"
    using getManagedStuff_ranges_distinct [of "pe_registry env" graph "pe_always_alive env" "pe_liveness env"]
    unfolding gms by simp
  ultimately show ?thesis using collect_managed_live_ranges_keys_cover [OF _ cml] r by blast
qed

text \<open>
  A valid plan gives two different overlapping live ranges it places disjoint
  regions under \<open>allocations[lvr]\<close>.
\<close>

lemma plan_valid_lookup_disjoint:
  assumes "plan_valid pl" and "l1 \<in> fst ` set pl" and "l2 \<in> fst ` set pl"
    and "l1 \<noteq> l2" and "overlap l1 l2"
  shows "\<not> collide (lookup_default d pl l1) (lookup_default d pl l2)"
  using assms lookup_default_mem [OF assms(2), of d] lookup_default_mem [OF assms(3), of d]
  unfolding plan_valid_def by fastforce

lemma getManagedStuff_out_nodes:
  "fst (getManagedStuff registry g always_alive live_ranges) = fst (getManagedValues registry g always_alive)"
  by (simp add: getManagedStuff_def split: prod.split)

text \<open>Every live range the materialiser looks up is an item of the breadth order.\<close>

lemma planMemory_ranges_in_breadth:
  assumes gms: "getManagedStuff (pe_registry env) graph (pe_always_alive env) (pe_liveness env) =
             (out_nodes, sizes, ranges)"
    and cml: "collect_managed_live_ranges sizes ranges = (mlr, ranges')"
    and lv: "(l, v) \<in> set (managed_range_values_of ranges')"
  shows "l \<in> fst ` set (breadth_items graph sizes ranges' out_nodes)"
proof -
  have r: "(v, l) \<in> set ranges'" by (rule managed_range_values_of_mem [OF lv])
  have sized: "v \<in> fst ` set sizes" using planMemory_ranges_sized [OF gms] cml r by force
  have "distinct (map fst ranges)"
    using getManagedStuff_ranges_distinct [of "pe_registry env" graph "pe_always_alive env" "pe_liveness env"]
    unfolding gms by simp
  with collect_managed_live_ranges_keys_cover [OF _ cml] r
  have l: "l = lookup_default default_live_range ranges' v" by (simp add: lookup_default_distinct)
  have vals: "sizes = snd (getManagedValues (pe_registry env) graph (pe_always_alive env))"
    and outs: "out_nodes = fst (getManagedValues (pe_registry env) graph (pe_always_alive env))"
    using getManagedStuff_values [of "pe_registry env" graph "pe_always_alive env" "pe_liveness env"]
      getManagedStuff_out_nodes [of "pe_registry env" graph "pe_always_alive env" "pe_liveness env"]
    unfolding gms by simp_all
  from sized obtain i where i: "i < length (g_nodes graph)" "hasOutVariant (pe_registry env) (g_nodes graph ! i)"
    and vi: "v \<in> set (n_outputs (g_nodes graph ! i))"
    unfolding vals getManagedValues_set by auto
  have "i \<in> set out_nodes"
    using i getManagedValues_out_nodes_distinct [of "pe_registry env" graph "pe_always_alive env"]
    unfolding outs by simp
  from breadth_items_mem [OF this vi sized] l show ?thesis by simp
qed

text \<open>The two static heuristics of the strategy switch: a valid plan keyed by \<open>managed_live_ranges\<close>.\<close>

lemma static_plan_keys:
  assumes fits: "sizes_sum mlr < 2 ^ 64"
    and heur: "allocations = linearScanHeuristic mlr \<or> allocations = greedyBySize mlr"
  shows "plan_valid allocations \<and> fst ` set allocations = fst ` set mlr \<and> set (plan_sizes allocations) = set mlr"
proof -
  from heur linearScanHeuristic_plan [OF fits] greedyBySize_plan [OF fits]
  have valid: "plan_valid allocations" and sizes: "set (plan_sizes allocations) = set mlr" by auto
  have "fst ` set allocations = fst ` set mlr" by (simp only: plan_sizes_keys [symmetric] sizes)
  with valid sizes show ?thesis by simp
qed

lemma breadth_plan_keys:
  assumes "sizes_sum (breadth_items g sizes ranges out_nodes) < 2 ^ 64"
  shows "plan_valid (greedyByOperatorBreadth g sizes ranges out_nodes) \<and>
         fst ` set (greedyByOperatorBreadth g sizes ranges out_nodes) = fst ` set (breadth_items g sizes ranges out_nodes)"
  using greedyByOperatorBreadth_plan [OF assms] plan_sizes_keys by metis

lemma managed_range_values_of_ranges_differ:
  assumes "(l1, v1) \<in> set (managed_range_values_of xs)" and "(l2, v2) \<in> set (managed_range_values_of xs)"
    and "v1 \<noteq> v2"
  shows "l1 \<noteq> l2"
  using managed_range_values_of_begin_unique [OF assms(1,2)] assms(3) by auto

lemma materialize_static_feeds:
  assumes "materialize_static env graph allocations ranges = Inr graph'"
    and "(lvr, v) \<in> set (managed_range_values_of ranges)"
  shows "feeds_alloc graph' (to_int64 (reg_offset (lookup_default default_region allocations lvr)))
           (to_int64 (reg_size (lookup_default default_region allocations lvr))) v"
proof -
  obtain graph1 storage where ins:
    "insertAllocStorageNode (pe_device env) graph (getTotalAllocationSize allocations) = (graph1, storage)"
    by (cases "insertAllocStorageNode (pe_device env) graph (getTotalAllocationSize allocations)")
  with assms(1) have "insertAllocTensorNodes graph1 storage allocations (managed_range_values_of ranges) = Inr graph'"
    by (simp add: materialize_static_def Let_def)
  from insertAllocTensorNodes_feeds [OF this assms(2)] show ?thesis .
qed

section \<open>Properties\<close>

text \<open>
  C26. Static planning never throws: for every graph, operator registry, liveness
  map and device, \<open>planMemory\<close> returns a graph under each of the four strategies.
  The \<open>TORCH_CHECK\<close>s of \<open>insertAllocTensorNodes\<close> (a tensor type, the region within
  the total), the \<open>device\<close> attribute read back from the storage node and the
  optional scalar type all hold for the values the liveness analysis manages.
\<close>

theorem planMemory_never_fails: "\<exists>graph'. planMemory env graph strat = Inr graph'"
proof -
  obtain out_nodes sizes ranges where gms:
    "getManagedStuff (pe_registry env) graph (pe_always_alive env) (pe_liveness env) = (out_nodes, sizes, ranges)"
    by (cases "getManagedStuff (pe_registry env) graph (pe_always_alive env) (pe_liveness env)") auto
  obtain mlr ranges' where cml: "collect_managed_live_ranges sizes ranges = (mlr, ranges')"
    by (cases "collect_managed_live_ranges sizes ranges")
  have ok: "\<exists>graph'. materialize_static env graph allocations ranges' = Inr graph'" for allocations
    using materialize_static_ok planMemory_ranges_managed [OF gms] cml by simp
  show ?thesis
    using ok by (cases strat) (simp_all add: planMemory_def gms cml)
qed

text \<open>
  C27. The regions of different managed values whose live ranges overlap do not collide:
  with \<open>LINEAR_SCAN\<close> or \<open>GREEDY_BY_SIZE\<close>, when the managed sizes sum below
  \<open>2\<^sup>6\<^sup>4\<close>, the regions \<open>allocations[lvr]\<close> that \<open>insertAllocTensorNodes\<close> reads
  for two entries of \<open>managed_range_values\<close> with different values and overlapping
  live ranges are disjoint byte intervals. This joins the liveness extractor, the size
  loop of \<open>planMemory\<close>, the \<open>std::map\<close> keyed by \<open>begin\<close> and the heuristics.
\<close>

theorem planMemory_overlapping_regions_disjoint:
  assumes gms: "getManagedStuff (pe_registry env) graph (pe_always_alive env) (pe_liveness env) =
             (out_nodes, sizes, ranges)"
    and cml: "collect_managed_live_ranges sizes ranges = (mlr, ranges')"
    and fits: "sizes_sum mlr < 2 ^ 64"
    and heur: "allocations = linearScanHeuristic mlr \<or> allocations = greedyBySize mlr"
    and m1: "(l1, v1) \<in> set (managed_range_values_of ranges')"
    and m2: "(l2, v2) \<in> set (managed_range_values_of ranges')"
    and ne: "v1 \<noteq> v2" and ov: "overlap l1 l2"
  shows "\<not> collide (lookup_default default_region allocations l1) (lookup_default default_region allocations l2)"
proof -
  from static_plan_keys [OF fits heur]
  have valid: "plan_valid allocations" and keys: "fst ` set allocations = fst ` set mlr" by simp_all
  with managed_range_values_of_ranges_differ [OF m1 m2 ne] ov
    planMemory_ranges_placed [OF gms cml m1] planMemory_ranges_placed [OF gms cml m2]
  show ?thesis unfolding keys [symmetric] by (simp add: plan_valid_lookup_disjoint)
qed

text \<open>
  Two out-variant nodes whose outputs, eight bytes each, live over \<open>[0, 1]\<close> and
  \<open>[1, 2]\<close>: linear scan puts them at offsets 0 and 8.
\<close>

theorem planMemory_overlapping_regions_disjoint_witness:
  "\<not> collide (lookup_default default_region
       (linearScanHeuristic [(\<lparr>lr_begin = 0, lr_end = 1\<rparr>, 8), (\<lparr>lr_begin = 1, lr_end = 2\<rparr>, 8)]) \<lparr>lr_begin = 0, lr_end = 1\<rparr>)
     (lookup_default default_region
       (linearScanHeuristic [(\<lparr>lr_begin = 0, lr_end = 1\<rparr>, 8), (\<lparr>lr_begin = 1, lr_end = 2\<rparr>, 8)]) \<lparr>lr_begin = 1, lr_end = 2\<rparr>)"
proof -
  have gms: "getManagedStuff (\<lambda>k. if k = ''aten::a'' then [[''self'', ''out'']] else []) \<lparr>g_nodes =
        [\<lparr>n_kind = ''aten::a'', n_inputs = [], n_outputs = [0], n_header = ''aten::a'', n_attrs = []\<rparr>,
         \<lparr>n_kind = ''aten::a'', n_inputs = [0], n_outputs = [1], n_header = ''aten::a'', n_attrs = []\<rparr>],
       g_types = \<lambda>_. TensorT \<lparr>tt_scalar_type = Some kFloat, tt_sizes = Some [2], tt_strides = Some [1], tt_numel = Some 2\<rparr>,
       g_next_value = 2\<rparr> {} [(0, \<lparr>lr_begin = 0, lr_end = 1\<rparr>), (1, \<lparr>lr_begin = 1, lr_end = 2\<rparr>)] =
      ([0, 1], [(0, 8), (1, 8)], [(0, \<lparr>lr_begin = 0, lr_end = 1\<rparr>), (1, \<lparr>lr_begin = 1, lr_end = 2\<rparr>)])"
    by code_simp
  have cml: "collect_managed_live_ranges [(0, 8), (1, 8)] [(0, \<lparr>lr_begin = 0, lr_end = 1\<rparr>), (1, \<lparr>lr_begin = 1, lr_end = 2\<rparr>)] =
      ([(\<lparr>lr_begin = 0, lr_end = 1\<rparr>, 8), (\<lparr>lr_begin = 1, lr_end = 2\<rparr>, 8)],
       [(0, \<lparr>lr_begin = 0, lr_end = 1\<rparr>), (1, \<lparr>lr_begin = 1, lr_end = 2\<rparr>)])"
    by code_simp
  have mrv: "managed_range_values_of [(0, \<lparr>lr_begin = 0, lr_end = 1\<rparr>), (1, \<lparr>lr_begin = 1, lr_end = 2\<rparr>)] =
      [(\<lparr>lr_begin = 0, lr_end = 1\<rparr>, 0), (\<lparr>lr_begin = 1, lr_end = 2\<rparr>, 1)]"
    by code_simp
  show ?thesis
    using planMemory_overlapping_regions_disjoint [where env = "\<lparr>pe_registry = \<lambda>k. if k = ''aten::a'' then [[''self'', ''out'']] else [],
        pe_always_alive = {}, pe_liveness = [(0, \<lparr>lr_begin = 0, lr_end = 1\<rparr>), (1, \<lparr>lr_begin = 1, lr_end = 2\<rparr>)], pe_device = None\<rparr>",
      OF _ cml, of _ _ "linearScanHeuristic [(\<lparr>lr_begin = 0, lr_end = 1\<rparr>, 8), (\<lparr>lr_begin = 1, lr_end = 2\<rparr>, 8)]"
        "\<lparr>lr_begin = 0, lr_end = 1\<rparr>" 0 "\<lparr>lr_begin = 1, lr_end = 2\<rparr>" 1]
      gms mrv by (simp add: sizes_sum_def overlap_def)
qed

text \<open>
  C28. The same guarantee under \<open>GREEDY_BY_BREADTH\<close>: when the sizes of the breadth
  order sum below \<open>2\<^sup>6\<^sup>4\<close>, two different managed values with overlapping live
  ranges get disjoint regions. The breadth plan is keyed by the ranges of
  \<open>managed_value_ranges\<close> of the managed outputs of the out-variant nodes, which
  cover every range the materialiser looks up.
\<close>

theorem planMemory_breadth_regions_disjoint:
  assumes gms: "getManagedStuff (pe_registry env) graph (pe_always_alive env) (pe_liveness env) =
             (out_nodes, sizes, ranges)"
    and cml: "collect_managed_live_ranges sizes ranges = (mlr, ranges')"
    and fits: "sizes_sum (breadth_items graph sizes ranges' out_nodes) < 2 ^ 64"
    and m1: "(l1, v1) \<in> set (managed_range_values_of ranges')"
    and m2: "(l2, v2) \<in> set (managed_range_values_of ranges')"
    and ne: "v1 \<noteq> v2" and ov: "overlap l1 l2"
  shows "\<not> collide (lookup_default default_region (greedyByOperatorBreadth graph sizes ranges' out_nodes) l1)
                   (lookup_default default_region (greedyByOperatorBreadth graph sizes ranges' out_nodes) l2)"
proof -
  from breadth_plan_keys [OF fits]
  have valid: "plan_valid (greedyByOperatorBreadth graph sizes ranges' out_nodes)"
    and keys: "fst ` set (greedyByOperatorBreadth graph sizes ranges' out_nodes) =
      fst ` set (breadth_items graph sizes ranges' out_nodes)" by simp_all
  from managed_range_values_of_ranges_differ [OF m1 m2 ne] valid ov
    planMemory_ranges_in_breadth [OF gms cml m1] planMemory_ranges_in_breadth [OF gms cml m2]
  show ?thesis unfolding keys [symmetric] by (simp add: plan_valid_lookup_disjoint)
qed

text \<open>The example of C27 planned by breadth: node 1 is the broader, so \<open>v1\<close> goes first.\<close>

theorem planMemory_breadth_regions_disjoint_witness:
  "\<not> collide (lookup_default default_region
       (foldl place_range [] [(\<lparr>lr_begin = 1, lr_end = 2\<rparr>, 8), (\<lparr>lr_begin = 0, lr_end = 1\<rparr>, 8)]) \<lparr>lr_begin = 0, lr_end = 1\<rparr>)
     (lookup_default default_region
       (foldl place_range [] [(\<lparr>lr_begin = 1, lr_end = 2\<rparr>, 8), (\<lparr>lr_begin = 0, lr_end = 1\<rparr>, 8)]) \<lparr>lr_begin = 1, lr_end = 2\<rparr>)"
proof -
  have gms: "getManagedStuff (\<lambda>k. if k = ''aten::a'' then [[''self'', ''out'']] else []) \<lparr>g_nodes =
        [\<lparr>n_kind = ''aten::a'', n_inputs = [], n_outputs = [0], n_header = ''aten::a'', n_attrs = []\<rparr>,
         \<lparr>n_kind = ''aten::a'', n_inputs = [0], n_outputs = [1], n_header = ''aten::a'', n_attrs = []\<rparr>],
       g_types = \<lambda>_. TensorT \<lparr>tt_scalar_type = Some kFloat, tt_sizes = Some [2], tt_strides = Some [1], tt_numel = Some 2\<rparr>,
       g_next_value = 2\<rparr> {} [(0, \<lparr>lr_begin = 0, lr_end = 1\<rparr>), (1, \<lparr>lr_begin = 1, lr_end = 2\<rparr>)] =
      ([0, 1], [(0, 8), (1, 8)], [(0, \<lparr>lr_begin = 0, lr_end = 1\<rparr>), (1, \<lparr>lr_begin = 1, lr_end = 2\<rparr>)])"
    by code_simp
  have cml: "collect_managed_live_ranges [(0, 8), (1, 8)] [(0, \<lparr>lr_begin = 0, lr_end = 1\<rparr>), (1, \<lparr>lr_begin = 1, lr_end = 2\<rparr>)] =
      ([(\<lparr>lr_begin = 0, lr_end = 1\<rparr>, 8), (\<lparr>lr_begin = 1, lr_end = 2\<rparr>, 8)],
       [(0, \<lparr>lr_begin = 0, lr_end = 1\<rparr>), (1, \<lparr>lr_begin = 1, lr_end = 2\<rparr>)])"
    by code_simp
  have mrv: "managed_range_values_of [(0, \<lparr>lr_begin = 0, lr_end = 1\<rparr>), (1, \<lparr>lr_begin = 1, lr_end = 2\<rparr>)] =
      [(\<lparr>lr_begin = 0, lr_end = 1\<rparr>, 0), (\<lparr>lr_begin = 1, lr_end = 2\<rparr>, 1)]"
    by code_simp
  have items: "breadth_items \<lparr>g_nodes =
        [\<lparr>n_kind = ''aten::a'', n_inputs = [], n_outputs = [0], n_header = ''aten::a'', n_attrs = []\<rparr>,
         \<lparr>n_kind = ''aten::a'', n_inputs = [0], n_outputs = [1], n_header = ''aten::a'', n_attrs = []\<rparr>],
       g_types = \<lambda>_. TensorT \<lparr>tt_scalar_type = Some kFloat, tt_sizes = Some [2], tt_strides = Some [1], tt_numel = Some 2\<rparr>,
       g_next_value = 2\<rparr> [(0, 8), (1, 8)] [(0, \<lparr>lr_begin = 0, lr_end = 1\<rparr>), (1, \<lparr>lr_begin = 1, lr_end = 2\<rparr>)] [0, 1] =
      [(\<lparr>lr_begin = 1, lr_end = 2\<rparr>, 8), (\<lparr>lr_begin = 0, lr_end = 1\<rparr>, 8)]"
    by code_simp
  show ?thesis
    using planMemory_breadth_regions_disjoint [where env = "\<lparr>pe_registry = \<lambda>k. if k = ''aten::a'' then [[''self'', ''out'']] else [],
        pe_always_alive = {}, pe_liveness = [(0, \<lparr>lr_begin = 0, lr_end = 1\<rparr>), (1, \<lparr>lr_begin = 1, lr_end = 2\<rparr>)], pe_device = None\<rparr>"
      and graph = "\<lparr>g_nodes =
        [\<lparr>n_kind = ''aten::a'', n_inputs = [], n_outputs = [0], n_header = ''aten::a'', n_attrs = []\<rparr>,
         \<lparr>n_kind = ''aten::a'', n_inputs = [0], n_outputs = [1], n_header = ''aten::a'', n_attrs = []\<rparr>],
       g_types = \<lambda>_. TensorT \<lparr>tt_scalar_type = Some kFloat, tt_sizes = Some [2], tt_strides = Some [1], tt_numel = Some 2\<rparr>,
       g_next_value = 2\<rparr>" and out_nodes = "[0, 1]",
      OF _ cml, of "\<lparr>lr_begin = 0, lr_end = 1\<rparr>" 0 "\<lparr>lr_begin = 1, lr_end = 2\<rparr>" 1]
      gms mrv items by (simp add: sizes_sum_def overlap_def greedyByOperatorBreadth_def)
qed

text \<open>
  C29. The size an \<open>AllocateTensor\<close> node gets is not its value's: with
  \<open>LINEAR_SCAN\<close> or \<open>GREEDY_BY_SIZE\<close>, every value \<open>v\<close> that
  \<open>managed_range_values\<close> materialises is fed by an \<open>AllocateTensor\<close> whose
  \<open>size\<close> attribute is the size of the \<^emph>\<open>last\<close> managed value whose live range is
  \<open>v\<close>'s. The map keyed by \<open>begin\<close> keeps the first value, the size loop the last size,
  so when two values share a live range the first gets the second's size.
\<close>

theorem planMemory_alloc_size_is_last_sharing:
  assumes gms: "getManagedStuff (pe_registry env) graph (pe_always_alive env) (pe_liveness env) =
             (out_nodes, sizes, ranges)"
    and cml: "collect_managed_live_ranges sizes ranges = (mlr, ranges')"
    and fits: "sizes_sum mlr < 2 ^ 64"
    and strat: "strat = LINEAR_SCAN \<or> strat = GREEDY_BY_SIZE"
    and ok: "planMemory env graph strat = Inr graph'"
    and m: "(l, v) \<in> set (managed_range_values_of ranges')"
  shows "\<exists>r :: region. feeds_alloc graph' (to_int64 (reg_offset r)) (to_int64 (reg_size r)) v \<and>
             last_size_of sizes (lookup_default default_live_range ranges') l = Some (reg_size r)"
proof -
  define allocations where
    "allocations = (if strat = LINEAR_SCAN then linearScanHeuristic mlr else greedyBySize mlr)"
  have heur: "allocations = linearScanHeuristic mlr \<or> allocations = greedyBySize mlr"
    by (simp add: allocations_def)
  have mat: "materialize_static env graph allocations ranges' = Inr graph'"
    using ok strat by (auto simp: planMemory_def gms cml allocations_def)
  from static_plan_keys [OF fits heur]
  have keys: "fst ` set allocations = fst ` set mlr" and sizes: "set (plan_sizes allocations) = set mlr"
    by simp_all
  define r where "r = lookup_default default_region allocations l"
  have "(l, r) \<in> set allocations"
    unfolding r_def using planMemory_ranges_placed [OF gms cml m] keys by (simp add: lookup_default_mem)
  then have "(l, reg_size r) \<in> set mlr" using sizes by (force simp: plan_sizes_def)
  moreover have "distinct (map fst mlr)"
    using collect_managed_live_ranges_distinct [of sizes ranges] cml by simp
  ultimately have mlr_l: "map_of mlr l = Some (reg_size r)" by simp
  from collect_managed_live_ranges_fold [of "[]" ranges sizes l] obtain zs where
    "snd (collect_managed_live_ranges sizes ranges) = ranges @ zs"
    "map_of (fst (collect_managed_live_ranges sizes ranges)) l =
       (case last_size_of sizes (lookup_default default_live_range (ranges @ zs)) l of
          None \<Rightarrow> map_of [] l | Some s \<Rightarrow> Some s)"
    unfolding collect_managed_live_ranges_def by blast
  with cml mlr_l have last: "last_size_of sizes (lookup_default default_live_range ranges') l = Some (reg_size r)"
    by (simp split: option.splits)
  have "feeds_alloc graph' (to_int64 (reg_offset r)) (to_int64 (reg_size r)) v"
    unfolding r_def by (rule materialize_static_feeds [OF mat m])
  with last show ?thesis by (intro exI [of _ r] conjI)
qed

text \<open>
  A node with two out-variant outputs that die together, of 100 and 8 bytes: the
  100-byte tensor is fed by an \<open>AllocateTensor\<close> of 8 bytes.
\<close>

theorem planMemory_alloc_size_is_last_sharing_witness:
  "computeStorageSize (g_types \<lparr>g_nodes = [\<lparr>n_kind = ''aten::topk'', n_inputs = [], n_outputs = [0, 1], n_header = ''aten::topk'', n_attrs = []\<rparr>],
       g_types = \<lambda>v. if v = 0 then TensorT \<lparr>tt_scalar_type = Some kFloat, tt_sizes = Some [25], tt_strides = Some [1], tt_numel = Some 25\<rparr>
                      else TensorT \<lparr>tt_scalar_type = Some kFloat, tt_sizes = Some [2], tt_strides = Some [1], tt_numel = Some 2\<rparr>,
       g_next_value = 2\<rparr> 0) = Some 100 \<and>
   (\<exists>graph'. planMemory \<lparr>pe_registry = \<lambda>k. if k = ''aten::topk'' then [[''self'', ''out'']] else [], pe_always_alive = {},
       pe_liveness = [(0, \<lparr>lr_begin = 0, lr_end = 1\<rparr>), (1, \<lparr>lr_begin = 0, lr_end = 1\<rparr>)], pe_device = None\<rparr> \<lparr>g_nodes = [\<lparr>n_kind = ''aten::topk'', n_inputs = [], n_outputs = [0, 1], n_header = ''aten::topk'', n_attrs = []\<rparr>],
       g_types = \<lambda>v. if v = 0 then TensorT \<lparr>tt_scalar_type = Some kFloat, tt_sizes = Some [25], tt_strides = Some [1], tt_numel = Some 25\<rparr>
                      else TensorT \<lparr>tt_scalar_type = Some kFloat, tt_sizes = Some [2], tt_strides = Some [1], tt_numel = Some 2\<rparr>,
       g_next_value = 2\<rparr> LINEAR_SCAN = Inr graph' \<and>
      (\<exists>r :: region. feeds_alloc graph' (to_int64 (reg_offset r)) (to_int64 (reg_size r)) 0 \<and> reg_size r = 8))"
proof -
  have gms: "getManagedStuff (\<lambda>k. if k = ''aten::topk'' then [[''self'', ''out'']] else []) \<lparr>g_nodes = [\<lparr>n_kind = ''aten::topk'', n_inputs = [], n_outputs = [0, 1], n_header = ''aten::topk'', n_attrs = []\<rparr>],
       g_types = \<lambda>v. if v = 0 then TensorT \<lparr>tt_scalar_type = Some kFloat, tt_sizes = Some [25], tt_strides = Some [1], tt_numel = Some 25\<rparr>
                      else TensorT \<lparr>tt_scalar_type = Some kFloat, tt_sizes = Some [2], tt_strides = Some [1], tt_numel = Some 2\<rparr>,
       g_next_value = 2\<rparr> {} [(0, \<lparr>lr_begin = 0, lr_end = 1\<rparr>), (1, \<lparr>lr_begin = 0, lr_end = 1\<rparr>)] =
      ([0], [(0, 100), (1, 8)], [(0, \<lparr>lr_begin = 0, lr_end = 1\<rparr>), (1, \<lparr>lr_begin = 0, lr_end = 1\<rparr>)])"
    by code_simp
  have cml: "collect_managed_live_ranges [(0, 100), (1, 8)] [(0, \<lparr>lr_begin = 0, lr_end = 1\<rparr>), (1, \<lparr>lr_begin = 0, lr_end = 1\<rparr>)] = ([(\<lparr>lr_begin = 0, lr_end = 1\<rparr>, 8)], [(0, \<lparr>lr_begin = 0, lr_end = 1\<rparr>), (1, \<lparr>lr_begin = 0, lr_end = 1\<rparr>)])"
    by code_simp
  have mrv: "managed_range_values_of [(0, \<lparr>lr_begin = 0, lr_end = 1\<rparr>), (1, \<lparr>lr_begin = 0, lr_end = 1\<rparr>)] = [(\<lparr>lr_begin = 0, lr_end = 1\<rparr>, 0)]"
    by code_simp
  have size: "computeStorageSize (g_types \<lparr>g_nodes = [\<lparr>n_kind = ''aten::topk'', n_inputs = [], n_outputs = [0, 1], n_header = ''aten::topk'', n_attrs = []\<rparr>],
       g_types = \<lambda>v. if v = 0 then TensorT \<lparr>tt_scalar_type = Some kFloat, tt_sizes = Some [25], tt_strides = Some [1], tt_numel = Some 25\<rparr>
                      else TensorT \<lparr>tt_scalar_type = Some kFloat, tt_sizes = Some [2], tt_strides = Some [1], tt_numel = Some 2\<rparr>,
       g_next_value = 2\<rparr> 0) = Some 100" by code_simp
  have "\<not> isl (planMemory \<lparr>pe_registry = \<lambda>k. if k = ''aten::topk'' then [[''self'', ''out'']] else [], pe_always_alive = {},
       pe_liveness = [(0, \<lparr>lr_begin = 0, lr_end = 1\<rparr>), (1, \<lparr>lr_begin = 0, lr_end = 1\<rparr>)], pe_device = None\<rparr> \<lparr>g_nodes = [\<lparr>n_kind = ''aten::topk'', n_inputs = [], n_outputs = [0, 1], n_header = ''aten::topk'', n_attrs = []\<rparr>],
       g_types = \<lambda>v. if v = 0 then TensorT \<lparr>tt_scalar_type = Some kFloat, tt_sizes = Some [25], tt_strides = Some [1], tt_numel = Some 25\<rparr>
                      else TensorT \<lparr>tt_scalar_type = Some kFloat, tt_sizes = Some [2], tt_strides = Some [1], tt_numel = Some 2\<rparr>,
       g_next_value = 2\<rparr> LINEAR_SCAN)" by code_simp
  then obtain graph' where ok: "planMemory \<lparr>pe_registry = \<lambda>k. if k = ''aten::topk'' then [[''self'', ''out'']] else [], pe_always_alive = {},
       pe_liveness = [(0, \<lparr>lr_begin = 0, lr_end = 1\<rparr>), (1, \<lparr>lr_begin = 0, lr_end = 1\<rparr>)], pe_device = None\<rparr> \<lparr>g_nodes = [\<lparr>n_kind = ''aten::topk'', n_inputs = [], n_outputs = [0, 1], n_header = ''aten::topk'', n_attrs = []\<rparr>],
       g_types = \<lambda>v. if v = 0 then TensorT \<lparr>tt_scalar_type = Some kFloat, tt_sizes = Some [25], tt_strides = Some [1], tt_numel = Some 25\<rparr>
                      else TensorT \<lparr>tt_scalar_type = Some kFloat, tt_sizes = Some [2], tt_strides = Some [1], tt_numel = Some 2\<rparr>,
       g_next_value = 2\<rparr> LINEAR_SCAN = Inr graph'"
    by (cases "planMemory \<lparr>pe_registry = \<lambda>k. if k = ''aten::topk'' then [[''self'', ''out'']] else [], pe_always_alive = {},
       pe_liveness = [(0, \<lparr>lr_begin = 0, lr_end = 1\<rparr>), (1, \<lparr>lr_begin = 0, lr_end = 1\<rparr>)], pe_device = None\<rparr> \<lparr>g_nodes = [\<lparr>n_kind = ''aten::topk'', n_inputs = [], n_outputs = [0, 1], n_header = ''aten::topk'', n_attrs = []\<rparr>],
       g_types = \<lambda>v. if v = 0 then TensorT \<lparr>tt_scalar_type = Some kFloat, tt_sizes = Some [25], tt_strides = Some [1], tt_numel = Some 25\<rparr>
                      else TensorT \<lparr>tt_scalar_type = Some kFloat, tt_sizes = Some [2], tt_strides = Some [1], tt_numel = Some 2\<rparr>,
       g_next_value = 2\<rparr> LINEAR_SCAN") simp_all
  have "\<exists>r :: region. feeds_alloc graph' (to_int64 (reg_offset r)) (to_int64 (reg_size r)) 0 \<and>
      last_size_of [(0, 100), (1, 8)] (lookup_default default_live_range [(0, \<lparr>lr_begin = 0, lr_end = 1\<rparr>), (1, \<lparr>lr_begin = 0, lr_end = 1\<rparr>)]) \<lparr>lr_begin = 0, lr_end = 1\<rparr> = Some (reg_size r)"
    using planMemory_alloc_size_is_last_sharing [where env = "\<lparr>pe_registry = \<lambda>k. if k = ''aten::topk'' then [[''self'', ''out'']] else [], pe_always_alive = {},
       pe_liveness = [(0, \<lparr>lr_begin = 0, lr_end = 1\<rparr>), (1, \<lparr>lr_begin = 0, lr_end = 1\<rparr>)], pe_device = None\<rparr>" and graph = "\<lparr>g_nodes = [\<lparr>n_kind = ''aten::topk'', n_inputs = [], n_outputs = [0, 1], n_header = ''aten::topk'', n_attrs = []\<rparr>],
       g_types = \<lambda>v. if v = 0 then TensorT \<lparr>tt_scalar_type = Some kFloat, tt_sizes = Some [25], tt_strides = Some [1], tt_numel = Some 25\<rparr>
                      else TensorT \<lparr>tt_scalar_type = Some kFloat, tt_sizes = Some [2], tt_strides = Some [1], tt_numel = Some 2\<rparr>,
       g_next_value = 2\<rparr>" and strat = LINEAR_SCAN,
      OF _ cml, of "[0]" _ "\<lparr>lr_begin = 0, lr_end = 1\<rparr>" 0] gms mrv ok
    by (simp add: sizes_sum_def)
  moreover have "last_size_of [(0, 100), (1, 8)] (lookup_default default_live_range [(0, \<lparr>lr_begin = 0, lr_end = 1\<rparr>), (1, \<lparr>lr_begin = 0, lr_end = 1\<rparr>)]) \<lparr>lr_begin = 0, lr_end = 1\<rparr> = Some 8"
    by (simp add: last_size_of_def lookup_default_def)
  ultimately show ?thesis using size ok by auto
qed

text \<open>
  C30. End to end, on the planned graph: with \<open>LINEAR_SCAN\<close> or \<open>GREEDY_BY_SIZE\<close>
  and the managed sizes summing below \<open>2\<^sup>6\<^sup>4\<close>, two different managed values
  with overlapping live ranges are each fed by an \<open>AllocateTensor\<close> node of the graph
  \<open>planMemory\<close> returns, whose \<open>offset\<close> and \<open>size\<close> attributes are the \<open>int64_t\<close>
  images of two regions that do not collide.
\<close>

theorem planMemory_alloc_nodes_disjoint:
  assumes gms: "getManagedStuff (pe_registry env) graph (pe_always_alive env) (pe_liveness env) =
             (out_nodes, sizes, ranges)"
    and cml: "collect_managed_live_ranges sizes ranges = (mlr, ranges')"
    and fits: "sizes_sum mlr < 2 ^ 64"
    and strat: "strat = LINEAR_SCAN \<or> strat = GREEDY_BY_SIZE"
    and ok: "planMemory env graph strat = Inr graph'"
    and m1: "(l1, v1) \<in> set (managed_range_values_of ranges')"
    and m2: "(l2, v2) \<in> set (managed_range_values_of ranges')"
    and ne: "v1 \<noteq> v2" and ov: "overlap l1 l2"
  shows "\<exists>r1 r2. feeds_alloc graph' (to_int64 (reg_offset r1)) (to_int64 (reg_size r1)) v1 \<and>
                 feeds_alloc graph' (to_int64 (reg_offset r2)) (to_int64 (reg_size r2)) v2 \<and>
                 \<not> collide r1 r2"
proof -
  define allocations where
    "allocations = (if strat = LINEAR_SCAN then linearScanHeuristic mlr else greedyBySize mlr)"
  have heur: "allocations = linearScanHeuristic mlr \<or> allocations = greedyBySize mlr"
    by (simp add: allocations_def)
  have mat: "materialize_static env graph allocations ranges' = Inr graph'"
    using ok strat by (auto simp: planMemory_def gms cml allocations_def)
  from static_plan_keys [OF fits heur]
  have valid: "plan_valid allocations" and keys: "fst ` set allocations = fst ` set mlr" by simp_all
  with managed_range_values_of_ranges_differ [OF m1 m2 ne] ov
    planMemory_ranges_placed [OF gms cml m1] planMemory_ranges_placed [OF gms cml m2]
  have "\<not> collide (lookup_default default_region allocations l1) (lookup_default default_region allocations l2)"
    unfolding keys [symmetric] by (simp add: plan_valid_lookup_disjoint)
  with materialize_static_feeds [OF mat m1] materialize_static_feeds [OF mat m2] show ?thesis by blast
qed

text \<open>The example of C27, planned and materialised by \<open>planMemory\<close>.\<close>

theorem planMemory_alloc_nodes_disjoint_witness:
  "\<exists>graph'. planMemory \<lparr>pe_registry = \<lambda>k. if k = ''aten::a'' then [[''self'', ''out'']] else [],
        pe_always_alive = {}, pe_liveness = [(0, \<lparr>lr_begin = 0, lr_end = 1\<rparr>), (1, \<lparr>lr_begin = 1, lr_end = 2\<rparr>)], pe_device = None\<rparr>
      \<lparr>g_nodes =
        [\<lparr>n_kind = ''aten::a'', n_inputs = [], n_outputs = [0], n_header = ''aten::a'', n_attrs = []\<rparr>,
         \<lparr>n_kind = ''aten::a'', n_inputs = [0], n_outputs = [1], n_header = ''aten::a'', n_attrs = []\<rparr>],
       g_types = \<lambda>_. TensorT \<lparr>tt_scalar_type = Some kFloat, tt_sizes = Some [2], tt_strides = Some [1], tt_numel = Some 2\<rparr>,
       g_next_value = 2\<rparr> LINEAR_SCAN = Inr graph' \<and>
    (\<exists>r1 r2. feeds_alloc graph' (to_int64 (reg_offset r1)) (to_int64 (reg_size r1)) 0 \<and>
             feeds_alloc graph' (to_int64 (reg_offset r2)) (to_int64 (reg_size r2)) 1 \<and> \<not> collide r1 r2)"
proof -
  have gms: "getManagedStuff (\<lambda>k. if k = ''aten::a'' then [[''self'', ''out'']] else []) \<lparr>g_nodes =
        [\<lparr>n_kind = ''aten::a'', n_inputs = [], n_outputs = [0], n_header = ''aten::a'', n_attrs = []\<rparr>,
         \<lparr>n_kind = ''aten::a'', n_inputs = [0], n_outputs = [1], n_header = ''aten::a'', n_attrs = []\<rparr>],
       g_types = \<lambda>_. TensorT \<lparr>tt_scalar_type = Some kFloat, tt_sizes = Some [2], tt_strides = Some [1], tt_numel = Some 2\<rparr>,
       g_next_value = 2\<rparr> {} [(0, \<lparr>lr_begin = 0, lr_end = 1\<rparr>), (1, \<lparr>lr_begin = 1, lr_end = 2\<rparr>)] =
      ([0, 1], [(0, 8), (1, 8)], [(0, \<lparr>lr_begin = 0, lr_end = 1\<rparr>), (1, \<lparr>lr_begin = 1, lr_end = 2\<rparr>)])"
    by code_simp
  have cml: "collect_managed_live_ranges [(0, 8), (1, 8)] [(0, \<lparr>lr_begin = 0, lr_end = 1\<rparr>), (1, \<lparr>lr_begin = 1, lr_end = 2\<rparr>)] = ([(\<lparr>lr_begin = 0, lr_end = 1\<rparr>, 8), (\<lparr>lr_begin = 1, lr_end = 2\<rparr>, 8)], [(0, \<lparr>lr_begin = 0, lr_end = 1\<rparr>), (1, \<lparr>lr_begin = 1, lr_end = 2\<rparr>)])"
    by code_simp
  have mrv: "managed_range_values_of [(0, \<lparr>lr_begin = 0, lr_end = 1\<rparr>), (1, \<lparr>lr_begin = 1, lr_end = 2\<rparr>)] = [(\<lparr>lr_begin = 0, lr_end = 1\<rparr>, 0), (\<lparr>lr_begin = 1, lr_end = 2\<rparr>, 1)]"
    by code_simp
  have "\<not> isl (planMemory \<lparr>pe_registry = \<lambda>k. if k = ''aten::a'' then [[''self'', ''out'']] else [],
        pe_always_alive = {}, pe_liveness = [(0, \<lparr>lr_begin = 0, lr_end = 1\<rparr>), (1, \<lparr>lr_begin = 1, lr_end = 2\<rparr>)], pe_device = None\<rparr> \<lparr>g_nodes =
        [\<lparr>n_kind = ''aten::a'', n_inputs = [], n_outputs = [0], n_header = ''aten::a'', n_attrs = []\<rparr>,
         \<lparr>n_kind = ''aten::a'', n_inputs = [0], n_outputs = [1], n_header = ''aten::a'', n_attrs = []\<rparr>],
       g_types = \<lambda>_. TensorT \<lparr>tt_scalar_type = Some kFloat, tt_sizes = Some [2], tt_strides = Some [1], tt_numel = Some 2\<rparr>,
       g_next_value = 2\<rparr> LINEAR_SCAN)" by code_simp
  then obtain graph' where ok: "planMemory \<lparr>pe_registry = \<lambda>k. if k = ''aten::a'' then [[''self'', ''out'']] else [],
        pe_always_alive = {}, pe_liveness = [(0, \<lparr>lr_begin = 0, lr_end = 1\<rparr>), (1, \<lparr>lr_begin = 1, lr_end = 2\<rparr>)], pe_device = None\<rparr> \<lparr>g_nodes =
        [\<lparr>n_kind = ''aten::a'', n_inputs = [], n_outputs = [0], n_header = ''aten::a'', n_attrs = []\<rparr>,
         \<lparr>n_kind = ''aten::a'', n_inputs = [0], n_outputs = [1], n_header = ''aten::a'', n_attrs = []\<rparr>],
       g_types = \<lambda>_. TensorT \<lparr>tt_scalar_type = Some kFloat, tt_sizes = Some [2], tt_strides = Some [1], tt_numel = Some 2\<rparr>,
       g_next_value = 2\<rparr> LINEAR_SCAN = Inr graph'"
    by (cases "planMemory \<lparr>pe_registry = \<lambda>k. if k = ''aten::a'' then [[''self'', ''out'']] else [],
        pe_always_alive = {}, pe_liveness = [(0, \<lparr>lr_begin = 0, lr_end = 1\<rparr>), (1, \<lparr>lr_begin = 1, lr_end = 2\<rparr>)], pe_device = None\<rparr> \<lparr>g_nodes =
        [\<lparr>n_kind = ''aten::a'', n_inputs = [], n_outputs = [0], n_header = ''aten::a'', n_attrs = []\<rparr>,
         \<lparr>n_kind = ''aten::a'', n_inputs = [0], n_outputs = [1], n_header = ''aten::a'', n_attrs = []\<rparr>],
       g_types = \<lambda>_. TensorT \<lparr>tt_scalar_type = Some kFloat, tt_sizes = Some [2], tt_strides = Some [1], tt_numel = Some 2\<rparr>,
       g_next_value = 2\<rparr> LINEAR_SCAN") simp_all
  have "\<exists>r1 r2. feeds_alloc graph' (to_int64 (reg_offset r1)) (to_int64 (reg_size r1)) 0 \<and>
             feeds_alloc graph' (to_int64 (reg_offset r2)) (to_int64 (reg_size r2)) 1 \<and> \<not> collide r1 r2"
    using planMemory_alloc_nodes_disjoint [where env = "\<lparr>pe_registry = \<lambda>k. if k = ''aten::a'' then [[''self'', ''out'']] else [],
        pe_always_alive = {}, pe_liveness = [(0, \<lparr>lr_begin = 0, lr_end = 1\<rparr>), (1, \<lparr>lr_begin = 1, lr_end = 2\<rparr>)], pe_device = None\<rparr>" and graph = "\<lparr>g_nodes =
        [\<lparr>n_kind = ''aten::a'', n_inputs = [], n_outputs = [0], n_header = ''aten::a'', n_attrs = []\<rparr>,
         \<lparr>n_kind = ''aten::a'', n_inputs = [0], n_outputs = [1], n_header = ''aten::a'', n_attrs = []\<rparr>],
       g_types = \<lambda>_. TensorT \<lparr>tt_scalar_type = Some kFloat, tt_sizes = Some [2], tt_strides = Some [1], tt_numel = Some 2\<rparr>,
       g_next_value = 2\<rparr>" and strat = LINEAR_SCAN,
      OF _ cml, of "[0, 1]" _ "\<lparr>lr_begin = 0, lr_end = 1\<rparr>" 0 "\<lparr>lr_begin = 1, lr_end = 2\<rparr>" 1] gms mrv ok
    by (simp add: sizes_sum_def overlap_def)
  with ok show ?thesis by blast
qed

text \<open>
  C32. The graph-level guarantee of C30 under \<open>GREEDY_BY_BREADTH\<close>: when the sizes of
  the breadth order sum below \<open>2\<^sup>6\<^sup>4\<close>, two different managed values with
  overlapping live ranges are each fed by an \<open>AllocateTensor\<close> node of the returned
  graph whose \<open>offset\<close> and \<open>size\<close> attributes encode non-colliding regions.
\<close>

theorem planMemory_breadth_alloc_nodes_disjoint:
  assumes gms: "getManagedStuff (pe_registry env) graph (pe_always_alive env) (pe_liveness env) =
             (out_nodes, sizes, ranges)"
    and cml: "collect_managed_live_ranges sizes ranges = (mlr, ranges')"
    and fits: "sizes_sum (breadth_items graph sizes ranges' out_nodes) < 2 ^ 64"
    and ok: "planMemory env graph GREEDY_BY_BREADTH = Inr graph'"
    and m1: "(l1, v1) \<in> set (managed_range_values_of ranges')"
    and m2: "(l2, v2) \<in> set (managed_range_values_of ranges')"
    and ne: "v1 \<noteq> v2" and ov: "overlap l1 l2"
  shows "\<exists>r1 r2. feeds_alloc graph' (to_int64 (reg_offset r1)) (to_int64 (reg_size r1)) v1 \<and>
                 feeds_alloc graph' (to_int64 (reg_offset r2)) (to_int64 (reg_size r2)) v2 \<and>
                 \<not> collide r1 r2"
proof -
  let ?pl = "greedyByOperatorBreadth graph sizes ranges' out_nodes"
  have mat: "materialize_static env graph ?pl ranges' = Inr graph'"
    using ok by (simp add: planMemory_def gms cml)
  from breadth_plan_keys [OF fits]
  have valid: "plan_valid ?pl" and keys: "fst ` set ?pl = fst ` set (breadth_items graph sizes ranges' out_nodes)"
    by simp_all
  from managed_range_values_of_ranges_differ [OF m1 m2 ne] valid ov
    planMemory_ranges_in_breadth [OF gms cml m1] planMemory_ranges_in_breadth [OF gms cml m2]
  have "\<not> collide (lookup_default default_region ?pl l1) (lookup_default default_region ?pl l2)"
    unfolding keys [symmetric] by (simp add: plan_valid_lookup_disjoint)
  with materialize_static_feeds [OF mat m1] materialize_static_feeds [OF mat m2] show ?thesis by blast
qed

text \<open>The example of C28, planned and materialised by \<open>planMemory\<close>.\<close>

theorem planMemory_breadth_alloc_nodes_disjoint_witness:
  "\<exists>graph'. planMemory \<lparr>pe_registry = \<lambda>k. if k = ''aten::a'' then [[''self'', ''out'']] else [],
        pe_always_alive = {}, pe_liveness = [(0, \<lparr>lr_begin = 0, lr_end = 1\<rparr>), (1, \<lparr>lr_begin = 1, lr_end = 2\<rparr>)], pe_device = None\<rparr>
      \<lparr>g_nodes =
        [\<lparr>n_kind = ''aten::a'', n_inputs = [], n_outputs = [0], n_header = ''aten::a'', n_attrs = []\<rparr>,
         \<lparr>n_kind = ''aten::a'', n_inputs = [0], n_outputs = [1], n_header = ''aten::a'', n_attrs = []\<rparr>],
       g_types = \<lambda>_. TensorT \<lparr>tt_scalar_type = Some kFloat, tt_sizes = Some [2], tt_strides = Some [1], tt_numel = Some 2\<rparr>,
       g_next_value = 2\<rparr> GREEDY_BY_BREADTH = Inr graph' \<and>
    (\<exists>r1 r2. feeds_alloc graph' (to_int64 (reg_offset r1)) (to_int64 (reg_size r1)) 0 \<and>
             feeds_alloc graph' (to_int64 (reg_offset r2)) (to_int64 (reg_size r2)) 1 \<and> \<not> collide r1 r2)"
proof -
  have gms: "getManagedStuff (\<lambda>k. if k = ''aten::a'' then [[''self'', ''out'']] else []) \<lparr>g_nodes =
        [\<lparr>n_kind = ''aten::a'', n_inputs = [], n_outputs = [0], n_header = ''aten::a'', n_attrs = []\<rparr>,
         \<lparr>n_kind = ''aten::a'', n_inputs = [0], n_outputs = [1], n_header = ''aten::a'', n_attrs = []\<rparr>],
       g_types = \<lambda>_. TensorT \<lparr>tt_scalar_type = Some kFloat, tt_sizes = Some [2], tt_strides = Some [1], tt_numel = Some 2\<rparr>,
       g_next_value = 2\<rparr> {} [(0, \<lparr>lr_begin = 0, lr_end = 1\<rparr>), (1, \<lparr>lr_begin = 1, lr_end = 2\<rparr>)] =
      ([0, 1], [(0, 8), (1, 8)], [(0, \<lparr>lr_begin = 0, lr_end = 1\<rparr>), (1, \<lparr>lr_begin = 1, lr_end = 2\<rparr>)])"
    by code_simp
  have cml: "collect_managed_live_ranges [(0, 8), (1, 8)] [(0, \<lparr>lr_begin = 0, lr_end = 1\<rparr>), (1, \<lparr>lr_begin = 1, lr_end = 2\<rparr>)] = ([(\<lparr>lr_begin = 0, lr_end = 1\<rparr>, 8), (\<lparr>lr_begin = 1, lr_end = 2\<rparr>, 8)], [(0, \<lparr>lr_begin = 0, lr_end = 1\<rparr>), (1, \<lparr>lr_begin = 1, lr_end = 2\<rparr>)])"
    by code_simp
  have mrv: "managed_range_values_of [(0, \<lparr>lr_begin = 0, lr_end = 1\<rparr>), (1, \<lparr>lr_begin = 1, lr_end = 2\<rparr>)] = [(\<lparr>lr_begin = 0, lr_end = 1\<rparr>, 0), (\<lparr>lr_begin = 1, lr_end = 2\<rparr>, 1)]"
    by code_simp
  have items: "breadth_items \<lparr>g_nodes =
        [\<lparr>n_kind = ''aten::a'', n_inputs = [], n_outputs = [0], n_header = ''aten::a'', n_attrs = []\<rparr>,
         \<lparr>n_kind = ''aten::a'', n_inputs = [0], n_outputs = [1], n_header = ''aten::a'', n_attrs = []\<rparr>],
       g_types = \<lambda>_. TensorT \<lparr>tt_scalar_type = Some kFloat, tt_sizes = Some [2], tt_strides = Some [1], tt_numel = Some 2\<rparr>,
       g_next_value = 2\<rparr> [(0, 8), (1, 8)] [(0, \<lparr>lr_begin = 0, lr_end = 1\<rparr>), (1, \<lparr>lr_begin = 1, lr_end = 2\<rparr>)] [0, 1] = [(\<lparr>lr_begin = 1, lr_end = 2\<rparr>, 8), (\<lparr>lr_begin = 0, lr_end = 1\<rparr>, 8)]"
    by code_simp
  have "\<not> isl (planMemory \<lparr>pe_registry = \<lambda>k. if k = ''aten::a'' then [[''self'', ''out'']] else [],
        pe_always_alive = {}, pe_liveness = [(0, \<lparr>lr_begin = 0, lr_end = 1\<rparr>), (1, \<lparr>lr_begin = 1, lr_end = 2\<rparr>)], pe_device = None\<rparr> \<lparr>g_nodes =
        [\<lparr>n_kind = ''aten::a'', n_inputs = [], n_outputs = [0], n_header = ''aten::a'', n_attrs = []\<rparr>,
         \<lparr>n_kind = ''aten::a'', n_inputs = [0], n_outputs = [1], n_header = ''aten::a'', n_attrs = []\<rparr>],
       g_types = \<lambda>_. TensorT \<lparr>tt_scalar_type = Some kFloat, tt_sizes = Some [2], tt_strides = Some [1], tt_numel = Some 2\<rparr>,
       g_next_value = 2\<rparr> GREEDY_BY_BREADTH)" by code_simp
  then obtain graph' where ok: "planMemory \<lparr>pe_registry = \<lambda>k. if k = ''aten::a'' then [[''self'', ''out'']] else [],
        pe_always_alive = {}, pe_liveness = [(0, \<lparr>lr_begin = 0, lr_end = 1\<rparr>), (1, \<lparr>lr_begin = 1, lr_end = 2\<rparr>)], pe_device = None\<rparr> \<lparr>g_nodes =
        [\<lparr>n_kind = ''aten::a'', n_inputs = [], n_outputs = [0], n_header = ''aten::a'', n_attrs = []\<rparr>,
         \<lparr>n_kind = ''aten::a'', n_inputs = [0], n_outputs = [1], n_header = ''aten::a'', n_attrs = []\<rparr>],
       g_types = \<lambda>_. TensorT \<lparr>tt_scalar_type = Some kFloat, tt_sizes = Some [2], tt_strides = Some [1], tt_numel = Some 2\<rparr>,
       g_next_value = 2\<rparr> GREEDY_BY_BREADTH = Inr graph'"
    by (cases "planMemory \<lparr>pe_registry = \<lambda>k. if k = ''aten::a'' then [[''self'', ''out'']] else [],
        pe_always_alive = {}, pe_liveness = [(0, \<lparr>lr_begin = 0, lr_end = 1\<rparr>), (1, \<lparr>lr_begin = 1, lr_end = 2\<rparr>)], pe_device = None\<rparr> \<lparr>g_nodes =
        [\<lparr>n_kind = ''aten::a'', n_inputs = [], n_outputs = [0], n_header = ''aten::a'', n_attrs = []\<rparr>,
         \<lparr>n_kind = ''aten::a'', n_inputs = [0], n_outputs = [1], n_header = ''aten::a'', n_attrs = []\<rparr>],
       g_types = \<lambda>_. TensorT \<lparr>tt_scalar_type = Some kFloat, tt_sizes = Some [2], tt_strides = Some [1], tt_numel = Some 2\<rparr>,
       g_next_value = 2\<rparr> GREEDY_BY_BREADTH") simp_all
  have "\<exists>r1 r2. feeds_alloc graph' (to_int64 (reg_offset r1)) (to_int64 (reg_size r1)) 0 \<and>
             feeds_alloc graph' (to_int64 (reg_offset r2)) (to_int64 (reg_size r2)) 1 \<and> \<not> collide r1 r2"
    using planMemory_breadth_alloc_nodes_disjoint [where env = "\<lparr>pe_registry = \<lambda>k. if k = ''aten::a'' then [[''self'', ''out'']] else [],
        pe_always_alive = {}, pe_liveness = [(0, \<lparr>lr_begin = 0, lr_end = 1\<rparr>), (1, \<lparr>lr_begin = 1, lr_end = 2\<rparr>)], pe_device = None\<rparr>" and graph = "\<lparr>g_nodes =
        [\<lparr>n_kind = ''aten::a'', n_inputs = [], n_outputs = [0], n_header = ''aten::a'', n_attrs = []\<rparr>,
         \<lparr>n_kind = ''aten::a'', n_inputs = [0], n_outputs = [1], n_header = ''aten::a'', n_attrs = []\<rparr>],
       g_types = \<lambda>_. TensorT \<lparr>tt_scalar_type = Some kFloat, tt_sizes = Some [2], tt_strides = Some [1], tt_numel = Some 2\<rparr>,
       g_next_value = 2\<rparr>" and out_nodes = "[0, 1]",
      OF _ cml, of _ "\<lparr>lr_begin = 0, lr_end = 1\<rparr>" 0 "\<lparr>lr_begin = 1, lr_end = 2\<rparr>" 1] gms mrv items ok
    by (simp add: sizes_sum_def overlap_def)
  with ok show ?thesis by blast
qed

end
