(* ===== verification/Allocator.thy ===== *)
theory Allocator
  imports Trace
begin

text \<open>
  The allocators of \<open>MemoryPlanningAllocator.cpp\<close> (spec component F and the replay
  side of the plan). \<open>MemoryPlanningAllocator\<close> hands out planned buffers from a stack
  filled by \<open>push_allocation\<close>; \<open>MemoryTracingAllocator\<close> delegates to the
  allocator it replaced and records a \<open>MemEvent\<close> per allocation and per free;
  \<open>WithProfileAllocationsGuard\<close> installs a tracer for a scope. Allocators are objects
  at addresses: the model has an explicit store from addresses to allocator objects and
  the c10 registry from device types to allocator pointers, since what the guard
  registers is a question of which object an address denotes. A method that throws
  returns the object's state at the throw together with the error, because the object
  outlives the exception.
\<close>

section \<open>Data pointers\<close>

text \<open>The deleter a \<open>DataPtr\<close> carries: \<open>DoNothing\<close> or the tracer's lambda.\<close>

datatype deleter = DoNothing | TraceFree u64

record data_ptr =
  dp_data :: u64
  dp_deleter :: deleter
  dp_device :: int

text \<open>
  \<open>dataPtrAddrToStr\<close>: \<open>ss << ptr\<close> for a \<open>void*\<close>, which libstdc++ prints as
  \<open>0x\<close> and lowercase hexadecimal digits, and a null pointer as \<open>0\<close>.
\<close>

definition hex_table :: string where
  "hex_table = ''0123456789abcdef''"

definition hex_char :: "nat \<Rightarrow> char" where
  "hex_char d = hex_table ! d"

fun hex_digits :: "nat \<Rightarrow> string" where
  "hex_digits n = (if n < 16 then [hex_char n] else hex_digits (n div 16) @ [hex_char (n mod 16)])"

declare hex_digits.simps [simp del]

definition dataPtrAddrToStr :: "u64 \<Rightarrow> string" where
  "dataPtrAddrToStr ptr = (if ptr = 0 then ''0'' else ''0x'' @ hex_digits (unat ptr))"

section \<open>The replay allocator\<close>

text \<open>\<open>allocs_\<close> is a \<open>std::stack<std::pair<size_t, void*>>\<close>; its top is the head.\<close>

record planning_alloc =
  pa_device_type :: int
  pa_allocs :: "(u64 \<times> u64) list"

text \<open>
  \<open>allocate\<close> takes the top, pops it, and only then checks the size: a failed check
  has already consumed the entry. \<open>top()\<close> of an empty stack is undefined behaviour.
\<close>

definition planning_allocate :: "planning_alloc \<Rightarrow> u64 \<Rightarrow> (error + data_ptr) \<times> planning_alloc" where
  "planning_allocate pa nbytes =
     (case pa_allocs pa of
        [] \<Rightarrow> (Inl (UndefinedBehaviour ''top() of an empty stack''), pa)
      | (alloc_size, data) # rest \<Rightarrow>
          (if alloc_size = nbytes
           then Inr \<lparr>dp_data = data, dp_deleter = DoNothing, dp_device = pa_device_type pa\<rparr>
           else Inl (TorchCheck ''size == nbytes''),
           pa\<lparr>pa_allocs := rest\<rparr>))"

text \<open>\<open>push_allocation\<close>: the planned buffer at \<open>buffer.data() + offset\<close>.\<close>

definition push_allocation ::
  "planning_alloc \<Rightarrow> u64 \<Rightarrow> u64 \<Rightarrow> u64 \<Rightarrow> int \<Rightarrow> (error + unit) \<times> planning_alloc" where
  "push_allocation pa buffer_data alloc_size offset device_type =
     (if device_type = pa_device_type pa
      then (Inr (), pa\<lparr>pa_allocs := (alloc_size, buffer_data + offset) # pa_allocs pa\<rparr>)
      else (Inl (TorchCheck ''device_type == device_type_''), pa))"

section \<open>The tracing allocator\<close>

record tracing_alloc =
  ta_orig_allocator :: u64
  ta_allocation_traces :: "mem_event list"
  ta_allocations :: "(u64 \<times> u64) list"

text \<open>
  \<open>MemoryTracingAllocator::allocate\<close> once the captured allocator has returned
  \<open>orig_ptr\<close>: assert that the interpreter reports a frame, record an \<open>Allocate\<close> event
  whose time is the frame's pc, note the pointer, and hand out a pointer whose deleter
  records the free.
\<close>

definition tracer_allocate ::
  "frame_node_id option \<Rightarrow> string \<Rightarrow> u64 \<Rightarrow> int \<Rightarrow> u64 \<Rightarrow> tracing_alloc \<Rightarrow>
   (error + data_ptr) \<times> tracing_alloc" where
  "tracer_allocate current_frame bt orig_ptr device nbytes ta =
     (case current_frame of
        None \<Rightarrow> (Inl (InternalAssert ''torch::jit::currentFrameId().has_value()''), ta)
      | Some frame_node_id \<Rightarrow>
          (Inr \<lparr>dp_data = orig_ptr, dp_deleter = TraceFree nbytes, dp_device = device\<rparr>,
           ta\<lparr>ta_allocation_traces := ta_allocation_traces ta @
                 [\<lparr>me_time = fid_pc frame_node_id, me_allocation_trace = bt,
                   me_ptr_addr = dataPtrAddrToStr orig_ptr, me_node_schema = fid_schema frame_node_id,
                   me_node_header = fid_header frame_node_id, me_size = nbytes, me_type = Allocate\<rparr>],
              ta_allocations := alist_insert orig_ptr nbytes (ta_allocations ta)\<rparr>))"

text \<open>
  The deleter lambda, run when the tensor is freed: the frame is the one current at the
  free, read with \<open>value()\<close> and no check. The lambda captures \<open>bt\<close> and
  \<open>nbytes\<close> by reference to locals of \<open>allocate\<close> that have ended when it runs: the
  parameters \<open>bt\<close> and \<open>nbytes\<close> are whatever those reads yield, which C++ leaves
  undefined, so claims about the deleter hold for every value of them.
\<close>

definition tracer_free ::
  "frame_node_id option \<Rightarrow> string \<Rightarrow> u64 \<Rightarrow> u64 \<Rightarrow> tracing_alloc \<Rightarrow> (error + unit) \<times> tracing_alloc" where
  "tracer_free current_frame bt nbytes ptr ta =
     (case current_frame of
        None \<Rightarrow> (Inl BadOptionalAccess, ta)
      | Some frame_node_id \<Rightarrow>
          (Inr (),
           ta\<lparr>ta_allocation_traces := ta_allocation_traces ta @
                 [\<lparr>me_time = fid_pc frame_node_id, me_allocation_trace = bt,
                   me_ptr_addr = dataPtrAddrToStr ptr, me_node_schema = fid_schema frame_node_id,
                   me_node_header = fid_header frame_node_id, me_size = nbytes, me_type = Free\<rparr>]\<rparr>))"

section \<open>Allocator objects, the registry and the guard\<close>

text \<open>A device's own allocator is a bump allocator: enough to give fresh pointers.\<close>

datatype alloc_obj =
    BaseAllocator u64
  | Tracing tracing_alloc
  | Planning planning_alloc

record world =
  w_registry :: "int \<Rightarrow> u64"
  w_store :: "u64 \<Rightarrow> alloc_obj option"
  w_next_obj :: u64

text \<open>
  \<open>c10::GetAllocator(device)->allocate(n)\<close>: a virtual call through the registry. A
  tracer delegates to the allocator it captured (a device allocator, in the model). An
  exception leaves the objects as the throw found them: a replay allocator has popped
  its entry, a device allocator under a tracer has handed out its bytes.
\<close>

definition world_allocate ::
  "world \<Rightarrow> int \<Rightarrow> frame_node_id option \<Rightarrow> string \<Rightarrow> u64 \<Rightarrow> (error + data_ptr) \<times> world" where
  "world_allocate w device current_frame bt nbytes =
     (let a = w_registry w device
      in case w_store w a of
           None \<Rightarrow> (Inl (UndefinedBehaviour ''call through a dangling allocator pointer''), w)
         | Some (BaseAllocator next) \<Rightarrow>
             (Inr \<lparr>dp_data = next, dp_deleter = DoNothing, dp_device = device\<rparr>,
              w\<lparr>w_store := (w_store w)(a \<mapsto> BaseAllocator (next + nbytes))\<rparr>)
         | Some (Planning pa) \<Rightarrow>
             (case planning_allocate pa nbytes of
                (r, pa') \<Rightarrow> (r, w\<lparr>w_store := (w_store w)(a \<mapsto> Planning pa')\<rparr>))
         | Some (Tracing ta) \<Rightarrow>
             (case w_store w (ta_orig_allocator ta) of
                Some (BaseAllocator next) \<Rightarrow>
                  (let w1 = w\<lparr>w_store := (w_store w)(ta_orig_allocator ta \<mapsto> BaseAllocator (next + nbytes))\<rparr>
                   in case tracer_allocate current_frame bt next device nbytes ta of
                        (r, ta') \<Rightarrow> (r, w1\<lparr>w_store := (w_store w1)(a \<mapsto> Tracing ta')\<rparr>))
              | _ \<Rightarrow> (Inl (UndefinedBehaviour ''captured allocator is not a device allocator''), w)))"

text \<open>
  \<open>MemoryPlanningAllocator(device_type)\<close>: constructed at a fresh address, it installs itself.
  The sources define no destructor for the class (its header is not among them) and never
  call \<open>SetAllocator\<close> to take it out again, so the model has no step that ends its
  life: the store keeps it and the registry keeps naming it.
\<close>

definition planning_construct :: "world \<Rightarrow> int \<Rightarrow> u64 \<times> world" where
  "planning_construct w device_type =
     (let a = w_next_obj w
      in (a, w\<lparr>w_store := (w_store w)(a \<mapsto> Planning \<lparr>pa_device_type = device_type, pa_allocs = []\<rparr>),
               w_registry := (w_registry w)(device_type := a), w_next_obj := a + 1\<rparr>))"

text \<open>
  \<open>MemoryTracingAllocator(device_type)\<close>: constructed at a fresh address, it captures
  the device's current allocator and registers itself in its place.
\<close>

definition tracer_construct :: "world \<Rightarrow> int \<Rightarrow> u64 \<times> world" where
  "tracer_construct w device_type =
     (let a = w_next_obj w;
          tracer = \<lparr>ta_orig_allocator = w_registry w device_type, ta_allocation_traces = [],
                    ta_allocations = []\<rparr>
      in (a, w\<lparr>w_store := (w_store w)(a \<mapsto> Tracing tracer),
               w_registry := (w_registry w)(device_type := a), w_next_obj := a + 1\<rparr>))"

record guard =
  gd_tracer :: u64
  gd_device_type :: int

text \<open>
  \<open>WithProfileAllocationsGuard(device_type)\<close>:
  \<open>std::make_shared<MemoryTracingAllocator>(MemoryTracingAllocator{device_type})\<close>.
  The temporary is constructed first, captures the current allocator and installs
  \<^emph>\<open>its own\<close> address; \<open>make_shared\<close> copies it to a second object, which the
  guard keeps; the temporary is destroyed at the end of the full expression.
\<close>

definition guard_construct :: "world \<Rightarrow> int \<Rightarrow> guard \<times> world" where
  "guard_construct w device_type =
     (let (tmp_addr, w1) = tracer_construct w device_type;
          copy_addr = w_next_obj w1;
          w2 = w1\<lparr>w_store := (w_store w1)(copy_addr := w_store w1 tmp_addr), w_next_obj := copy_addr + 1\<rparr>;
          w3 = w2\<lparr>w_store := (w_store w2)(tmp_addr := None)\<rparr>
      in (\<lparr>gd_tracer = copy_addr, gd_device_type = device_type\<rparr>, w3))"

definition guard_getAllocationTraces :: "guard \<Rightarrow> world \<Rightarrow> error + mem_event list" where
  "guard_getAllocationTraces g w =
     (case w_store w (gd_tracer g) of
        Some (Tracing ta) \<Rightarrow> Inr (ta_allocation_traces ta)
      | _ \<Rightarrow> Inl (UndefinedBehaviour ''tracer_ is not a tracing allocator''))"

text \<open>
  \<open>~WithProfileAllocationsGuard\<close>: reinstall the captured allocator, then release the
  guard's tracer.
\<close>

definition guard_destruct :: "guard \<Rightarrow> world \<Rightarrow> error + world" where
  "guard_destruct g w =
     (case w_store w (gd_tracer g) of
        Some (Tracing ta) \<Rightarrow>
          Inr (w\<lparr>w_registry := (w_registry w)(gd_device_type g := ta_orig_allocator ta),
                 w_store := (w_store w)(gd_tracer g := None)\<rparr>)
      | _ \<Rightarrow> Inl (UndefinedBehaviour ''tracer_ is not a tracing allocator''))"

section \<open>Sequences of calls\<close>

text \<open>Planned buffers pushed in list order, as \<open>(buffer data, size, offset)\<close>.\<close>

fun push_all :: "planning_alloc \<Rightarrow> (u64 \<times> u64 \<times> u64) list \<Rightarrow> (error + unit) \<times> planning_alloc" where
  "push_all pa [] = (Inr (), pa)"
| "push_all pa ((b, sz, off) # xs) =
     (case push_allocation pa b sz off (pa_device_type pa) of
        (Inl e, pa') \<Rightarrow> (Inl e, pa')
      | (Inr _, pa') \<Rightarrow> push_all pa' xs)"

text \<open>Allocation requests in list order; the first error ends the run.\<close>

fun allocate_all :: "planning_alloc \<Rightarrow> u64 list \<Rightarrow> (error + u64 list) \<times> planning_alloc" where
  "allocate_all pa [] = (Inr [], pa)"
| "allocate_all pa (n # ns) =
     (case planning_allocate pa n of
        (Inl e, pa') \<Rightarrow> (Inl e, pa')
      | (Inr dp, pa') \<Rightarrow>
          (case allocate_all pa' ns of
             (Inl e, pa'') \<Rightarrow> (Inl e, pa'')
           | (Inr ps, pa'') \<Rightarrow> (Inr (dp_data dp # ps), pa'')))"

section \<open>The allocator registry as a state machine\<close>

text \<open>
  The operations that change the store of allocator objects or the registry: an
  allocation through the registry (successful or not), constructing a replay allocator,
  pushing a planned buffer into one, and entering and leaving a profiling scope.
\<close>

datatype world_op = OpAllocate | OpPlanningConstruct | OpPush | OpGuardConstruct | OpGuardDestruct

inductive world_step :: "world_op \<Rightarrow> world \<Rightarrow> world \<Rightarrow> bool" where
  step_allocate: "world_allocate w device current_frame bt nbytes = (r, w') \<Longrightarrow> world_step OpAllocate w w'"
| step_planning_construct: "planning_construct w device_type = (a, w') \<Longrightarrow> world_step OpPlanningConstruct w w'"
| step_push: "w_store w a = Some (Planning pa) \<Longrightarrow> push_allocation pa buffer_data alloc_size offset device_type = (r, pa') \<Longrightarrow>
    world_step OpPush w (w\<lparr>w_store := (w_store w)(a \<mapsto> Planning pa')\<rparr>)"
| step_guard_construct: "guard_construct w device_type = (g, w') \<Longrightarrow> world_step OpGuardConstruct w w'"
| step_guard_destruct: "guard_destruct g w = Inr w' \<Longrightarrow> world_step OpGuardDestruct w w'"

inductive reach :: "world_op set \<Rightarrow> world \<Rightarrow> world \<Rightarrow> bool" for ops :: "world_op set" where
  reach_refl: "reach ops w w"
| reach_step: "reach ops w w1 \<Longrightarrow> op \<in> ops \<Longrightarrow> world_step op w1 w2 \<Longrightarrow> reach ops w w2"

text \<open>The registry entries of the devices \<open>ds\<close> name live allocator objects.\<close>

definition registry_live :: "int list \<Rightarrow> world \<Rightarrow> bool" where
  "registry_live ds w \<longleftrightarrow> list_all (\<lambda>d. w_store w (w_registry w d) \<noteq> None) ds"

text \<open>
  What stays true while a profiling guard \<open>g\<close> is alive and \<open>orig\<close> is the allocator
  its tracer captured: the guard's tracer is alive and still holds \<open>orig\<close>, nothing
  else points at the tracer (no registry entry, no other tracer), and \<open>orig\<close> is a
  live object distinct from it.
\<close>

definition guard_inv :: "guard \<Rightarrow> u64 \<Rightarrow> world \<Rightarrow> bool" where
  "guard_inv g orig w \<longleftrightarrow>
     (\<exists>ta. w_store w (gd_tracer g) = Some (Tracing ta) \<and> ta_orig_allocator ta = orig) \<and>
     (\<forall>d. w_registry w d \<noteq> gd_tracer g) \<and>
     (\<forall>a ta. w_store w a = Some (Tracing ta) \<longrightarrow> ta_orig_allocator ta \<noteq> gd_tracer g) \<and>
     w_store w orig \<noteq> None \<and> orig \<noteq> gd_tracer g"

inductive_cases world_step_allocateE: "world_step OpAllocate w w'"
inductive_cases world_step_planning_constructE: "world_step OpPlanningConstruct w w'"
inductive_cases world_step_pushE: "world_step OpPush w w'"

section \<open>Lemmas\<close>

lemma push_all_stack:
  "push_all pa xs = (Inr (), pa\<lparr>pa_allocs := rev (map (\<lambda>(b, sz, off). (sz, b + off)) xs) @ pa_allocs pa\<rparr>)"
proof (induction xs arbitrary: pa)
  case Nil
  then show ?case by simp
next
  case (Cons x xs)
  obtain b sz off where x: "x = (b, sz, off)" by (cases x)
  let ?pa1 = "pa\<lparr>pa_allocs := (sz, b + off) # pa_allocs pa\<rparr>"
  have "push_all pa (x # xs) = push_all ?pa1 xs"
    by (simp add: x push_allocation_def)
  with Cons.IH [of ?pa1] show ?case by (simp add: x)
qed

lemma allocate_all_stack:
  "allocate_all (pa\<lparr>pa_allocs := map (\<lambda>(b, sz, off). (sz, b + off)) ys @ rest\<rparr>)
                (map (\<lambda>(b, sz, off). sz) ys) =
   (Inr (map (\<lambda>(b, sz, off). b + off) ys), pa\<lparr>pa_allocs := rest\<rparr>)"
proof (induction ys arbitrary: pa)
  case Nil
  then show ?case by simp
next
  case (Cons y ys)
  obtain b sz off where y: "y = (b, sz, off)" by (cases y)
  let ?pa1 = "pa\<lparr>pa_allocs := map (\<lambda>(b, sz, off). (sz, b + off)) ys @ rest\<rparr>"
  have "planning_allocate (pa\<lparr>pa_allocs := map (\<lambda>(b, sz, off). (sz, b + off)) (y # ys) @ rest\<rparr>) sz =
        (Inr \<lparr>dp_data = b + off, dp_deleter = DoNothing, dp_device = pa_device_type pa\<rparr>, ?pa1)"
    by (simp add: y planning_allocate_def)
  with Cons.IH [of pa] show ?case by (simp add: y)
qed

lemma allocate_all_append:
  "allocate_all pa (ns @ ms) =
     (case allocate_all pa ns of
        (Inl e, pa') \<Rightarrow> (Inl e, pa')
      | (Inr ps, pa') \<Rightarrow>
          (case allocate_all pa' ms of
             (Inl e, pa'') \<Rightarrow> (Inl e, pa'')
           | (Inr qs, pa'') \<Rightarrow> (Inr (ps @ qs), pa'')))"
  by (induction pa ns rule: allocate_all.induct) (auto split: prod.split sum.split)

lemma allocate_all_match:
  "length ns = length ys \<Longrightarrow>
   (\<exists>ps. fst (allocate_all (pa\<lparr>pa_allocs := map (\<lambda>(b, sz, off). (sz, b + off)) ys @ rest\<rparr>) ns) = Inr ps)
   \<longleftrightarrow> ns = map (\<lambda>(b, sz, off). sz) ys"
proof (induction ys arbitrary: ns pa)
  case Nil
  then show ?case by simp
next
  case (Cons y ys)
  obtain b sz off where y: "y = (b, sz, off)" by (cases y)
  from Cons.prems obtain n ns' where ns: "ns = n # ns'" and len: "length ns' = length ys"
    by (cases ns) auto
  let ?pa1 = "pa\<lparr>pa_allocs := map (\<lambda>(b, sz, off). (sz, b + off)) ys @ rest\<rparr>"
  show ?case
  proof (cases "sz = n")
    case True
    then have "planning_allocate (pa\<lparr>pa_allocs := map (\<lambda>(b, sz, off). (sz, b + off)) (y # ys) @ rest\<rparr>) n =
        (Inr \<lparr>dp_data = b + off, dp_deleter = DoNothing, dp_device = pa_device_type pa\<rparr>, ?pa1)"
      by (simp add: y planning_allocate_def)
    with Cons.IH [OF len, of pa] True show ?thesis
      by (auto simp: ns y split: sum.splits prod.splits)
  next
    case False
    then have "planning_allocate (pa\<lparr>pa_allocs := map (\<lambda>(b, sz, off). (sz, b + off)) (y # ys) @ rest\<rparr>) n =
        (Inl (TorchCheck ''size == nbytes''), ?pa1)"
      by (simp add: y planning_allocate_def)
    with False show ?thesis by (simp add: ns y)
  qed
qed

text \<open>An allocation never empties a store entry and leaves the registry as it is.\<close>

lemma world_allocate_store_mono:
  "world_allocate w device current_frame bt nbytes = (r, w') \<Longrightarrow> w_store w a \<noteq> None \<Longrightarrow>
   w_store w' a \<noteq> None \<and> w_registry w' = w_registry w"
  by (auto simp: world_allocate_def Let_def split: option.splits alloc_obj.splits prod.splits)

text \<open>
  What an allocation through the registry writes: only the allocator the registry names
  and, under a tracer, the allocator the tracer captured; a tracer it rewrites keeps its
  captured allocator.
\<close>

lemma world_allocate_writes:
  assumes "world_allocate w device current_frame bt nbytes = (r, w')"
  shows "w_registry w' = w_registry w \<and>
         (\<forall>a. w_store w' a \<noteq> w_store w a \<longrightarrow>
            a = w_registry w device \<or>
            (\<exists>ta. w_store w (w_registry w device) = Some (Tracing ta) \<and> a = ta_orig_allocator ta)) \<and>
         (\<forall>a ta'. w_store w' a = Some (Tracing ta') \<longrightarrow>
            (\<exists>ta. w_store w a = Some (Tracing ta) \<and> ta_orig_allocator ta = ta_orig_allocator ta'))"
  using assms
  by (auto simp: world_allocate_def Let_def tracer_allocate_def
      split: option.splits alloc_obj.splits prod.splits if_splits)

lemma guard_inv_step:
  assumes "world_step op w w'" and "op \<in> {OpAllocate, OpPush}" and "guard_inv g orig w"
  shows "guard_inv g orig w' \<and> w_registry w' = w_registry w \<and> w_store w' (gd_tracer g) = w_store w (gd_tracer g)"
  using assms
proof (induction rule: world_step.induct)
  case (step_allocate w device current_frame bt nbytes r w')
  note wr = world_allocate_writes [OF step_allocate.hyps]
  note mono = world_allocate_store_mono [OF step_allocate.hyps]
  from step_allocate.prems(2) obtain ta where
    tr: "w_store w (gd_tracer g) = Some (Tracing ta)" "ta_orig_allocator ta = orig" and
    reg: "\<forall>d. w_registry w d \<noteq> gd_tracer g" and
    tra: "\<forall>a ta. w_store w a = Some (Tracing ta) \<longrightarrow> ta_orig_allocator ta \<noteq> gd_tracer g" and
    live: "w_store w orig \<noteq> None" and ne: "orig \<noteq> gd_tracer g"
    unfolding guard_inv_def by blast
  have same: "w_store w' (gd_tracer g) = w_store w (gd_tracer g)"
    using wr reg tra by metis
  moreover have "\<forall>a ta. w_store w' a = Some (Tracing ta) \<longrightarrow> ta_orig_allocator ta \<noteq> gd_tracer g"
    using wr tra by metis
  moreover have "w_store w' orig \<noteq> None" using mono [OF live] by simp
  ultimately show ?case using wr tr reg ne same unfolding guard_inv_def by simp
next
  case (step_push w a pa buffer_data alloc_size offset device_type r pa')
  then have "a \<noteq> gd_tracer g" by (auto simp: guard_inv_def)
  with step_push show ?case by (auto simp: guard_inv_def)
qed simp_all

lemma reach_guard_inv:
  assumes "reach {OpAllocate, OpPush} w w'" and "guard_inv g orig w"
  shows "guard_inv g orig w' \<and> w_registry w' = w_registry w \<and> w_store w' (gd_tracer g) = w_store w (gd_tracer g)"
  using assms
proof (induction rule: reach.induct)
  case (reach_refl w)
  then show ?case by simp
next
  case (reach_step w w1 op w2)
  from reach_step.IH [OF reach_step.prems] have i1: "guard_inv g orig w1" and r1: "w_registry w1 = w_registry w"
    and t1: "w_store w1 (gd_tracer g) = w_store w (gd_tracer g)" by simp_all
  from guard_inv_step [OF reach_step.hyps(3) reach_step.hyps(2) i1] r1 t1 show ?case by simp
qed

text \<open>Right after the guard is built, its invariant holds, given a fresh address for the copy.\<close>

lemma guard_construct_inv:
  assumes c: "guard_construct w d = (g, w1)"
    and fresh: "w_store w (w_next_obj w) = None"
    and reg: "\<forall>d'. w_registry w d' \<noteq> w_next_obj w + 1"
    and tra: "\<forall>a ta. w_store w a = Some (Tracing ta) \<longrightarrow> ta_orig_allocator ta \<noteq> w_next_obj w + 1"
    and live: "w_store w (w_registry w d) \<noteq> None"
  shows "guard_inv g (w_registry w d) w1 \<and> w_registry w1 = (w_registry w)(d := w_next_obj w) \<and>
         gd_device_type g = d"
proof -
  let ?n = "w_next_obj w"
  have n1: "?n + 1 \<noteq> ?n" by simp
  have rd: "w_registry w d \<noteq> ?n" using fresh live by auto
  from c have g: "g = \<lparr>gd_tracer = ?n + 1, gd_device_type = d\<rparr>" and
    w1: "w1 = w\<lparr>w_registry := (w_registry w)(d := ?n),
                 w_store := ((w_store w)(?n \<mapsto> Tracing \<lparr>ta_orig_allocator = w_registry w d,
                    ta_allocation_traces = [], ta_allocations = []\<rparr>))
                   (?n + 1 \<mapsto> Tracing \<lparr>ta_orig_allocator = w_registry w d,
                    ta_allocation_traces = [], ta_allocations = []\<rparr>, ?n := None),
                 w_next_obj := ?n + 1 + 1\<rparr>"
    by (auto simp: guard_construct_def tracer_construct_def Let_def)
  show ?thesis
    unfolding guard_inv_def g w1 using n1 rd reg tra live by (auto simp: fun_upd_twist)
qed

lemma guard_construct_tracer:
  "guard_construct w d = (g, w1) \<Longrightarrow>
   w_store w1 (gd_tracer g) =
     Some (Tracing \<lparr>ta_orig_allocator = w_registry w d, ta_allocation_traces = [], ta_allocations = []\<rparr>)"
  by (auto simp: guard_construct_def tracer_construct_def Let_def)

lemma guard_destruct_inv:
  assumes "guard_inv g orig w"
  shows "\<exists>w'. guard_destruct g w = Inr w' \<and> w_registry w' = (w_registry w)(gd_device_type g := orig) \<and>
           w_store w' orig \<noteq> None"
  using assms by (auto simp: guard_inv_def guard_destruct_def)

section \<open>Properties\<close>

text \<open>
  C9. \<open>WithProfileAllocationsGuard\<close> installs the temporary \<open>MemoryTracingAllocator\<close>
  that \<open>make_shared\<close> copies from, and that temporary is destroyed at the end of the
  constructor's initialiser: right after the guard is built, the device's registry entry
  names a destroyed object, so every allocation on the device is a call through a
  dangling pointer, and the guard's own tracer has recorded nothing.
\<close>

theorem guard_construct_dangling:
  "case guard_construct w device_type of (g, w') \<Rightarrow>
     w_store w' (w_registry w' device_type) = None \<and>
     w_registry w' device_type \<noteq> gd_tracer g \<and>
     world_allocate w' device_type current_frame bt nbytes =
       (Inl (UndefinedBehaviour ''call through a dangling allocator pointer''), w') \<and>
     guard_getAllocationTraces g w' = Inr []"
  by (simp add: guard_construct_def tracer_construct_def Let_def world_allocate_def guard_getAllocationTraces_def)

text \<open>
  C10. The guard's destructor puts back the allocator the tracer captured: building and
  then destroying a guard leaves every device's registry entry as it was, and releases the
  guard's tracer.
\<close>

theorem guard_destruct_restores:
  "case guard_construct w device_type of (g, w') \<Rightarrow>
     \<exists>w''. guard_destruct g w' = Inr w'' \<and> w_registry w'' = w_registry w \<and>
           w_store w'' (gd_tracer g) = None"
  by (simp add: guard_construct_def tracer_construct_def Let_def guard_destruct_def fun_upd_idem)

text \<open>
  C11. The replay allocator is a stack: buffers pushed with \<open>push_allocation\<close> on the
  allocator's device are handed back by \<open>allocate\<close> in the reverse order of the pushes,
  each at \<open>buffer + offset\<close>, when the requests come in that order, and the allocator is
  then back where it started.
\<close>

theorem planning_replay_lifo:
  "fst (push_all pa xs) = Inr () \<and>
   allocate_all (snd (push_all pa xs)) (map (\<lambda>(b, sz, off). sz) (rev xs)) =
     (Inr (map (\<lambda>(b, sz, off). b + off) (rev xs)), pa)"
  using allocate_all_stack [where pa = pa and ys = "rev xs" and rest = "pa_allocs pa"]
  by (simp add: push_all_stack rev_map)

text \<open>
  C12. Requests that come in the order of the pushes all succeed only when the sequence of
  sizes reads the same backwards: with two planned buffers of different sizes requested in
  push order, the first request fails the size check (and has already popped its entry).
\<close>

theorem planning_replay_push_order:
  "(\<exists>ps. fst (allocate_all (snd (push_all pa xs)) (map (\<lambda>(b, sz, off). sz) xs)) = Inr ps) \<longleftrightarrow>
   map (\<lambda>(b, sz, off). sz) xs = rev (map (\<lambda>(b, sz, off). sz) xs)"
  using allocate_all_match [where ns = "map (\<lambda>(b, sz, off). sz) xs" and ys = "rev xs" and pa = pa
    and rest = "pa_allocs pa"]
  by (simp add: push_all_stack rev_map)

text \<open>
  C31. The profiling scope ends well, whatever runs inside it: after a guard is built
  on device \<open>d\<close> (whose allocator is live and with a fresh address for the tracer's
  copy), any sequence of allocations through the registry, successful or not, and of
  pushes into replay allocators leaves the guard's destructor enabled, and running it
  puts back every device's registry entry as it was before the guard, with \<open>d\<close>'s
  entry naming a live allocator again. The dangling registry entry of C9 lasts exactly
  as long as the guard.
\<close>

theorem guard_scope_restores:
  assumes c: "guard_construct w d = (g, w1)"
    and fresh: "w_store w (w_next_obj w) = None"
    and reg: "\<forall>d'. w_registry w d' \<noteq> w_next_obj w + 1"
    and tra: "\<forall>a ta. w_store w a = Some (Tracing ta) \<longrightarrow> ta_orig_allocator ta \<noteq> w_next_obj w + 1"
    and live: "registry_live [d] w"
    and run: "reach {OpAllocate, OpPush} w1 w2"
  shows "\<exists>w3. guard_destruct g w2 = Inr w3 \<and> w_registry w3 = w_registry w \<and> registry_live [d] w3"
proof -
  from live have l: "w_store w (w_registry w d) \<noteq> None" by (simp add: registry_live_def)
  from guard_construct_inv [OF c fresh reg tra l]
  have i1: "guard_inv g (w_registry w d) w1" and r1: "w_registry w1 = (w_registry w)(d := w_next_obj w)"
    and gd: "gd_device_type g = d" by simp_all
  from reach_guard_inv [OF run i1]
  have i2: "guard_inv g (w_registry w d) w2" and r2: "w_registry w2 = w_registry w1" by simp_all
  from guard_destruct_inv [OF i2] obtain w3 where
    "guard_destruct g w2 = Inr w3" "w_registry w3 = (w_registry w2)(gd_device_type g := w_registry w d)"
    "w_store w3 (w_registry w d) \<noteq> None" by blast
  with r1 r2 gd show ?thesis by (auto simp: registry_live_def)
qed

text \<open>
  A device allocator registered for every device; a guard on device 0, then an
  allocation on device 1, which goes to the device allocator.
\<close>

theorem guard_scope_restores_witness:
  "\<exists>w3. guard_destruct (fst (guard_construct \<lparr>w_registry = \<lambda>_. 0, w_store = [0 \<mapsto> BaseAllocator 4096], w_next_obj = 1\<rparr> 0))
           (snd (world_allocate (snd (guard_construct \<lparr>w_registry = \<lambda>_. 0, w_store = [0 \<mapsto> BaseAllocator 4096], w_next_obj = 1\<rparr> 0)) 1 None [] 16)) = Inr w3 \<and>
        w_registry w3 = w_registry \<lparr>w_registry = \<lambda>_. 0, w_store = [0 \<mapsto> BaseAllocator 4096], w_next_obj = 1\<rparr> \<and> registry_live [0] w3"
proof -
  have run: "reach {OpAllocate, OpPush} (snd (guard_construct \<lparr>w_registry = \<lambda>_. 0, w_store = [0 \<mapsto> BaseAllocator 4096], w_next_obj = 1\<rparr> 0))
      (snd (world_allocate (snd (guard_construct \<lparr>w_registry = \<lambda>_. 0, w_store = [0 \<mapsto> BaseAllocator 4096], w_next_obj = 1\<rparr> 0)) 1 None [] 16))"
    by (rule reach_step [OF reach_refl, where op = OpAllocate])
      (simp_all add: step_allocate [where r = "fst (world_allocate (snd (guard_construct \<lparr>w_registry = \<lambda>_. 0, w_store = [0 \<mapsto> BaseAllocator 4096], w_next_obj = 1\<rparr> 0)) 1 None [] 16)"])
  show ?thesis
    using guard_scope_restores [OF prod.collapse [symmetric] _ _ _ _ run]
    by (simp add: registry_live_def)
qed

text \<open>
  C34. One request more than was pushed: a fresh replay allocator that received the
  planned buffers \<open>xs\<close> serves them in reverse push order, and the next request reads
  \<open>allocs_.top()\<close> of the empty stack, undefined behaviour, leaving the allocator as
  it was before the pushes.
\<close>

theorem planning_replay_overrun:
  assumes "pa_allocs pa = []"
  shows "allocate_all (snd (push_all pa xs)) (map (\<lambda>(b, sz, off). sz) (rev xs) @ [n]) =
           (Inl (UndefinedBehaviour ''top() of an empty stack''), pa)"
proof -
  have id: "pa\<lparr>pa_allocs := []\<rparr> = pa" using assms by (cases pa) simp
  have "snd (push_all pa xs) = pa\<lparr>pa_allocs := map (\<lambda>(b, sz, off). (sz, b + off)) (rev xs) @ []\<rparr>"
    using assms by (simp add: push_all_stack rev_map)
  then show ?thesis
    using allocate_all_stack [where pa = pa and ys = "rev xs" and rest = "[]"]
    by (simp add: allocate_all_append planning_allocate_def id assms)
qed

text \<open>One buffer of 16 bytes pushed, then two requests.\<close>

theorem planning_replay_overrun_witness:
  "allocate_all (snd (push_all \<lparr>pa_device_type = 0, pa_allocs = []\<rparr> [(4096, 16, 0)])) [16, 8] =
     (Inl (UndefinedBehaviour ''top() of an empty stack''), \<lparr>pa_device_type = 0, pa_allocs = []\<rparr>)"
  using planning_replay_overrun [of "\<lparr>pa_device_type = 0, pa_allocs = []\<rparr>" "[(4096, 16, 0)]" 8] by simp

end
