(* ===== verification/Spec2Isabelle.thy ===== *)
theory Spec2Isabelle
  imports Static_Safety Allocator Bounds
begin

text \<open>
  \<^bold>\<open>Verification of the TorchScript offline memory planner.\<close>

  The program (\<open>src/torch/csrc/jit/passes/memory_planning.cpp\<close> and
  \<open>memory_planning/MemoryPlanningAllocator.cpp\<close>) plans, ahead of execution, one arena
  for the intermediate tensors of a graph and rewrites the graph to allocate from it. Its
  parts and how they meet:
  \<^item> the arena model (\<open>LiveRange\<close>, \<open>Region\<close>, \<open>FrameNodeId\<close>, the plan as a map
    from live ranges to regions, \<open>getTotalAllocationSize\<close>): theory \<open>Arena\<close>;
  \<^item> the static liveness extractor (\<open>computeStorageSize\<close>, \<open>hasOutVariant\<close>,
    \<open>getManagedValues\<close>, \<open>getManagedStuff\<close>), which reads the graph and the alias
    analysis: theory \<open>Liveness\<close>, over the graph model of theory \<open>Graph\<close>;
  \<^item> the trace-based extractor (\<open>getLiveRangesFromMemEvents\<close>,
    \<open>collectLiveRangesPerNode\<close>), which reads a recorded \<open>MemEvent\<close> list: theory
    \<open>Trace\<close>;
  \<^item> the packing heuristics (linear scan, greedy by size, greedy by breadth), which turn
    sized live ranges into a plan: theories \<open>Packing\<close> and \<open>Breadth\<close>, with the
    bounds of spec section 8 in theory \<open>Bounds\<close>. Their C++ is not among the sources,
    so these are modelled from the spec (section 4.D);
  \<^item> the materializer (\<open>insertAllocStorageNode\<close>, \<open>insertAllocTensorNodes\<close>,
    \<open>insertPreAllocTensorNodes\<close>), which writes the plan back into the graph: theory
    \<open>Materialize\<close>;
  \<^item> the two entry points \<open>planMemory\<close> (static: B, then D, then E) and
    \<open>planMemoryWithTracing\<close> (trace: C, then D, then E): theory \<open>Planner\<close>, with the end-to-end
    guarantees of static planning (C26 to C30, C32) in theory \<open>Static_Safety\<close>;
  \<^item> the allocators of \<open>MemoryPlanningAllocator.cpp\<close>: the replay allocator
    \<open>MemoryPlanningAllocator\<close> (\<open>planning_allocate\<close>, \<open>push_allocation\<close>),
    the tracing allocator \<open>MemoryTracingAllocator\<close> (\<open>tracer_allocate\<close> and the
    deleter \<open>tracer_free\<close>), which produces the \<open>MemEvent\<close>s the trace extractor
    reads, and the scope guard \<open>WithProfileAllocationsGuard\<close>: theory
    \<open>Allocator\<close>. Allocator objects live in an explicit store (\<open>world\<close>) indexed by
    address, with the c10 registry a map from device to address, because what the guard
    does depends on which object the registry names.

  \<^bold>\<open>How the model corresponds to the code.\<close> Structs are records, enums datatypes;
  \<open>uint64_t\<close> sizes and offsets are \<open>64 word\<close> so that the sums the code forms wrap
  as they do in C++; node attributes are the \<open>int64_t\<close> the IR stores, converted by
  \<open>to_int64\<close>/\<open>from_int64\<close>. Every \<open>TORCH_INTERNAL_ASSERT\<close>, \<open>TORCH_CHECK\<close>,
  empty-optional access and undefined-behaviour site is a value of type \<open>error\<close>, and an
  operation that may raise returns \<open>error + _\<close>. Hash maps are association lists in
  insertion order (one admissible iteration order), with \<open>insert\<close> keeping a present
  key and \<open>operator[]\<close> yielding a value-initialised default; the
  \<open>std::map\<close> keyed by \<open>live_range_start_cmp\<close> keeps one entry per \<open>begin\<close>.
  Loops are folds or structural recursion; the one loop without a structural bound, the
  trace-mode cursor, is a \<open>function\<close> whose termination measure is the number of
  nodes left. A graph is its node list in topological order with a fresh-value counter;
  the alias analysis, operator registry and device choice are parameters.

  \<^bold>\<open>What is proved.\<close>
  \<^item> Trace mode cannot succeed: \<open>getLiveRangesFromMemEvents\<close> never erases a matched
    allocation, so it accepts only the empty trace (C1), and \<open>planMemoryWithTracing\<close>
    raises for every input (C2).
  \<^item> Both linear scan and greedy by size produce correct plans -- overlapping ranges
    never share bytes, every range gets its own size, the arena is at most the sum of the
    sizes -- when the sizes sum below \<open>2\<^sup>6\<^sup>4\<close> (C3, C4). The bound is what keeps
    every candidate offset \<open>offset + size\<close> from wrapping.
  \<^item> In static mode the region check of \<open>insertAllocTensorNodes\<close> cannot fire (C5),
    and \<open>NAIVE\<close> leaves the graph unchanged (C8).
  \<^item> The static extractor manages exactly the non-always-alive outputs of out-variant
    nodes with a known positive size (C6); that size is the byte count modulo
    \<open>2\<^sup>6\<^sup>4\<close> (C7).
  \<^item> The profiling guard registers the temporary it copies from, so right after it is
    built the device's allocator is a destroyed object (C9); its destructor restores the
    registry (C10). The replay allocator
    hands buffers back in reverse push order at \<open>buffer + offset\<close> (C11), and requests
    in push order pass only for palindromic size sequences (C12). One request more than
    was pushed reads the top of the empty stack (C34). As a state machine
    (the inductive \<open>world_step\<close> and its closure \<open>reach\<close>), allocations, replay
    allocator construction and pushes leave the registry as it is and never empty a
    store entry; the guard's construction is the step that breaks liveness (C9).
    The damage is scoped (C31): given a fresh address for the guard's copy, any run of
    allocations and pushes inside the scope keeps the guard's invariant
    (\<open>guard_inv\<close>: its tracer alive and holding the captured allocator, nothing else
    pointing at it), so the destructor is always enabled and puts the whole registry
    back as it was, by rule induction over \<open>reach\<close>.
  \<^item> Trace mode inserts a frame's \<open>PreAllocateTensor\<close> nodes before the first node
    whose header \<^emph>\<open>differs\<close> from the frame's (C13); \<open>collectLiveRangesPerNode\<close>
    groups by frame, sorted, without losing a pair (C14). The \<open>std::map\<close> of managed
    values keeps, per \<open>begin\<close>, only the first value whose range starts there (C15).
  \<^item> Both heuristics need at least the peak working set, the bytes live at any one
    instant (C16).
    Linear scan's active set is an optimisation of greedy placement in \<open>begin\<close>
    order: \<open>planMemory\<close> with \<open>LINEAR_SCAN\<close> materializes exactly that plan when the
    liveness ranges are well formed (C17). Greedy by breadth gives a valid plan whose sizes are
    those of the managed outputs of the out-variant nodes, taken node by node in a
    permutation that orders the nodes by non-increasing breadth, and whose total is at
    most their sum (C18).
  \<^item> A successful iteration of \<open>insertAllocTensorNodes\<close> puts the
    \<open>AllocateTensor\<close> right before the producer, makes its output the producer's last
    input, and stores an offset and size that read back as the planned region (C19).
    A whole static materialization adds one \<open>AllocateStorage\<close> and one
    \<open>AllocateTensor\<close> per distinct \<open>begin\<close> time, not per managed value (C20).
  \<^item> Every step of the trace sweep keeps its recorded ranges distinct and well formed
    (C21). Across components, in the last section of this theory: the events the tracer
    records for one tensor pass the sweep only if the tensor is freed by an operator with
    the allocating operator's schema, at a later instruction, whatever values the
    deleter's dangling reads of \<open>bt\<close> and \<open>nbytes\<close> yield (C22). The storage node's \<open>int64_t\<close> total reads
    back as the \<open>uint64_t\<close> plan total, and its device is an \<open>int8_t\<close> (C23).
  \<^item> Refinement: \<open>getTotalAllocationSize\<close> implements the largest region end
    \<open>arena_end\<close> when nothing overflows (C24).
  \<^item> The trace-mode cursor stops inside the
    graph exactly when a node with a different header lies ahead (C25).
  \<^item> Static planning never throws (C26): the values the materializer visits are
    managed values, hence outputs of nodes and tensors with a scalar type
    (\<open>getManagedValues_tensor\<close>, \<open>planMemory_ranges_managed\<close>), so the loop of
    \<open>insertAllocTensorNodes\<close> passes every check (\<open>insert_alloc_tensors_ok\<close>).

  \<^item> End to end (C27): with \<open>LINEAR_SCAN\<close> or \<open>GREEDY_BY_SIZE\<close>, the regions
    \<open>insertAllocTensorNodes\<close> reads for two different managed values with overlapping
    live ranges are disjoint. Every range the materialiser looks up is one the heuristic
    placed (\<open>planMemory_ranges_placed\<close>: the liveness entries are those of sized
    values, the size loop keys \<open>managed_live_ranges\<close> by exactly those ranges), and the
    \<open>std::map\<close> keyed by \<open>begin\<close> never holds two entries with one begin time.
    Together with C19, which reads each region back from the node's attributes, this is
    the pass's memory-safety guarantee. The hypothesis that the sizes sum below
    \<open>2\<^sup>6\<^sup>4\<close> is the one under which the heuristics' offsets do not wrap (C3, C4).

  \<^item> The same holds under \<open>GREEDY_BY_BREADTH\<close> (C28): its plan is keyed by the
    ranges of the managed outputs of the out-variant nodes, which cover every range the
    materialiser looks up (\<open>planMemory_ranges_in_breadth\<close>).
  \<^item> The guarantee says nothing about sizes, and the code breaks it there (C29): for
    every materialised value under \<open>LINEAR_SCAN\<close> or \<open>GREEDY_BY_SIZE\<close>, the
    \<open>AllocateTensor\<close> feeding it carries the size of the \<^emph>\<open>last\<close> managed value
    sharing its live range (two outputs with one range share one key of
    \<open>managed_live_ranges\<close>, the size written last wins) while
    \<open>managed_range_values\<close> keeps the value inserted \<^emph>\<open>first\<close>. Its witness is a
    two-output node whose 100-byte first output is given an 8-byte region.
    In general (C33, theory \<open>Planner\<close>), the size loop meets the specification
    \<open>last_size_of\<close>: a live range gets the size of the last managed value whose
    range it is, because the loop only appends to \<open>managed_value_ranges\<close> and each
    \<open>operator[]\<close> write overwrites the previous one.

  \<^item> On the planned graph itself (C30): under \<open>LINEAR_SCAN\<close> or
    \<open>GREEDY_BY_SIZE\<close>, two different managed values with overlapping live ranges are
    each fed by an \<open>AllocateTensor\<close> node (\<open>feeds_alloc\<close> in theory
    \<open>Materialize\<close>: its output is an input of the value's producer) whose \<open>offset\<close>
    and \<open>size\<close> attributes encode non-colliding regions. The loop invariant behind it
    is that a step of \<open>insertAllocTensorNodes\<close> keeps every node up to inputs
    appended to the producer (\<open>alloc_tensor_step_nodes_kept\<close>).

  \<^item> The same graph-level statement holds under \<open>GREEDY_BY_BREADTH\<close> (C32), from
    the breadth plan's keys as C30 is from the keys of \<open>managed_live_ranges\<close>.
  \<^item> Profiling end to end, in the last section of this theory (C35): since the
    guard's copy of the tracer is never registered and nothing in the scope touches
    it (\<open>reach_guard_inv\<close>), the traces the guard returns are empty whatever runs, and
    \<open>planMemoryWithTracing\<close> on them stops at \<open>!mem_events.empty()\<close>. With C1
    and C22 this makes trace mode unusable three times over: no events are recorded,
    recorded events never pass the sweep, and the sweep never accepts a freed tensor
    of another operator.

  \<^bold>\<open>Bounds and fuel.\<close> No fuel is used: every loop of the pass is a \<open>fun\<close> or a
  \<open>foldl\<close> over a finite list, and the trace-mode cursor loop is a \<open>function\<close> with a
  measure (the nodes left), whose halting condition is C25. Sizes and offsets are
  \<open>64 word\<close>; the hypotheses that managed sizes sum below \<open>2\<^sup>6\<^sup>4\<close> (C3, C4,
  C18, C27, C28, C30, C32) and that no region end overflows (C24) are exactly where the
  code's \<open>uint64_t\<close> arithmetic would otherwise wrap.

  \<^bold>\<open>Not modelled.\<close> \<open>printAllocation\<close> and the \<open>GRAPH_DEBUG\<close>/\<open>TORCH_WARN\<close>
  diagnostics (output only); \<open>timeSinceEpoch\<close> and \<open>raw_deleter\<close>, which hold no
  state; the backtrace, an opaque string; the internals of the alias analysis, the operator registry
  and the device allocators, which the pass only calls.
\<close>

section \<open>Properties across components\<close>

text \<open>
  C22. The tracing allocator and the trace extractor disagree on what a \<open>Free\<close> event
  carries: the tracer stamps it with the frame current when the tensor is freed, the
  sweep demands the schema of the allocating frame. The deleter reads \<open>bt\<close> and
  \<open>nbytes\<close> through references to locals of \<open>allocate\<close> that no longer exist, so
  what it reads is left open (\<open>bt'\<close>, \<open>nbytes'\<close>). Whatever it reads, the two events
  the tracer records for one tensor, allocated in frame \<open>f1\<close> and freed in frame
  \<open>f2\<close>, pass the sweep only if \<open>f2\<close> comes later and runs the same operator schema
  as \<open>f1\<close>: a tensor freed by any other operator aborts the extraction.
\<close>

theorem tracer_events_pass_sweep_same_schema:
  assumes "\<exists>st. trace_loop trace_init
          (ta_allocation_traces
             (snd (tracer_free (Some f2) bt' nbytes' orig_ptr
                (snd (tracer_allocate (Some f1) bt orig_ptr device nbytes
                   \<lparr>ta_orig_allocator = a, ta_allocation_traces = [], ta_allocations = []\<rparr>))))) = Inr st"
  shows "fid_schema f1 = fid_schema f2 \<and> fid_pc f1 < fid_pc f2"
  using assms
  by (simp add: tracer_allocate_def tracer_free_def trace_init_def trace_step_def alist_insert_def Let_def
      split: if_splits)

text \<open>An \<open>aten::add\<close> frame at pc 1 allocates 16 bytes; one at pc 4 frees them.\<close>

theorem tracer_events_pass_sweep_same_schema_witness:
  "(\<exists>st. trace_loop trace_init
          (ta_allocation_traces
             (snd (tracer_free (Some \<lparr>fid_pc = 4, fid_schema = ''aten::add'', fid_header = ''aten::add''\<rparr>) ''bt'' 16 4096
                (snd (tracer_allocate (Some \<lparr>fid_pc = 1, fid_schema = ''aten::add'', fid_header = ''aten::add''\<rparr>) ''bt'' 4096 0 16
                   \<lparr>ta_orig_allocator = 0, ta_allocation_traces = [], ta_allocations = []\<rparr>))))) = Inr st) \<and>
   fid_schema \<lparr>fid_pc = 1, fid_schema = ''aten::add'', fid_header = ''aten::add''\<rparr> =
     fid_schema \<lparr>fid_pc = 4, fid_schema = ''aten::add'', fid_header = ''aten::add''\<rparr> \<and>
   fid_pc \<lparr>fid_pc = 1, fid_schema = ''aten::add'', fid_header = ''aten::add''\<rparr> <
     fid_pc \<lparr>fid_pc = 4, fid_schema = ''aten::add'', fid_header = ''aten::add''\<rparr>"
proof -
  have pass: "\<exists>st. trace_loop trace_init
          (ta_allocation_traces
             (snd (tracer_free (Some \<lparr>fid_pc = 4, fid_schema = ''aten::add'', fid_header = ''aten::add''\<rparr>) ''bt'' 16 4096
                (snd (tracer_allocate (Some \<lparr>fid_pc = 1, fid_schema = ''aten::add'', fid_header = ''aten::add''\<rparr>) ''bt'' 4096 0 16
                   \<lparr>ta_orig_allocator = 0, ta_allocation_traces = [], ta_allocations = []\<rparr>))))) = Inr st"
    by (simp add: tracer_allocate_def tracer_free_def trace_init_def trace_step_def alist_insert_def Let_def)
  from pass tracer_events_pass_sweep_same_schema [OF pass] show ?thesis by blast
qed

text \<open>
  C35. Profiling through the guard, end to end: the copy the guard keeps is never in
  the registry (C9), so whatever allocations and pushes run in its scope, the traces it
  hands to \<open>planMemoryWithTracing\<close> are empty, and trace-mode planning on them stops
  at its first assertion \<open>!mem_events.empty()\<close>, for every graph, device and strategy.
\<close>

theorem guard_profiling_plans_nothing:
  assumes c: "guard_construct w d = (g, w1)"
    and fresh: "w_store w (w_next_obj w) = None"
    and reg: "\<forall>d'. w_registry w d' \<noteq> w_next_obj w + 1"
    and tra: "\<forall>a ta. w_store w a = Some (Tracing ta) \<longrightarrow> ta_orig_allocator ta \<noteq> w_next_obj w + 1"
    and live: "registry_live [d] w"
    and run: "reach {OpAllocate, OpPush} w1 w2"
  shows "case guard_getAllocationTraces g w2 of
           Inl e \<Rightarrow> False
         | Inr evs \<Rightarrow> evs = [] \<and>
             planMemoryWithTracing device graph strat evs = Inl (InternalAssert ''!mem_events.empty()'')"
proof -
  from live have l: "w_store w (w_registry w d) \<noteq> None" by (simp add: registry_live_def)
  from guard_construct_inv [OF c fresh reg tra l] have i1: "guard_inv g (w_registry w d) w1" by simp
  from reach_guard_inv [OF run i1] guard_construct_tracer [OF c]
  have "w_store w2 (gd_tracer g) =
      Some (Tracing \<lparr>ta_orig_allocator = w_registry w d, ta_allocation_traces = [], ta_allocations = []\<rparr>)"
    by simp
  then show ?thesis by (simp add: guard_getAllocationTraces_def planMemoryWithTracing_def)
qed

text \<open>
  A guard on device 0, then an allocation on device 0 from inside an operator's frame:
  it goes through the dangling registry entry and is not traced.
\<close>

theorem guard_profiling_plans_nothing_witness:
  "case guard_getAllocationTraces (fst (guard_construct \<lparr>w_registry = \<lambda>_. 0, w_store = [0 \<mapsto> BaseAllocator 4096], w_next_obj = 1\<rparr> 0))
          (snd (world_allocate (snd (guard_construct \<lparr>w_registry = \<lambda>_. 0, w_store = [0 \<mapsto> BaseAllocator 4096], w_next_obj = 1\<rparr> 0)) 0 (Some \<lparr>fid_pc = 3, fid_schema = ''aten::add'', fid_header = ''aten::add''\<rparr>) ''bt'' 16)) of
     Inl e \<Rightarrow> False
   | Inr evs \<Rightarrow> evs = [] \<and>
       planMemoryWithTracing None \<lparr>g_nodes = [], g_types = \<lambda>_. OtherT ''None'', g_next_value = 0\<rparr> LINEAR_SCAN evs = Inl (InternalAssert ''!mem_events.empty()'')"
proof -
  have run: "reach {OpAllocate, OpPush} (snd (guard_construct \<lparr>w_registry = \<lambda>_. 0, w_store = [0 \<mapsto> BaseAllocator 4096], w_next_obj = 1\<rparr> 0))
      (snd (world_allocate (snd (guard_construct \<lparr>w_registry = \<lambda>_. 0, w_store = [0 \<mapsto> BaseAllocator 4096], w_next_obj = 1\<rparr> 0)) 0 (Some \<lparr>fid_pc = 3, fid_schema = ''aten::add'', fid_header = ''aten::add''\<rparr>) ''bt'' 16))"
    by (rule reach_step [OF reach_refl, where op = OpAllocate])
      (simp_all add: step_allocate [where r = "fst (world_allocate (snd (guard_construct \<lparr>w_registry = \<lambda>_. 0, w_store = [0 \<mapsto> BaseAllocator 4096], w_next_obj = 1\<rparr> 0)) 0 (Some \<lparr>fid_pc = 3, fid_schema = ''aten::add'', fid_header = ''aten::add''\<rparr>) ''bt'' 16)"])
  show ?thesis
    using guard_profiling_plans_nothing [OF prod.collapse [symmetric] _ _ _ _ run, of None "\<lparr>g_nodes = [], g_types = \<lambda>_. OtherT ''None'', g_next_value = 0\<rparr>" LINEAR_SCAN]
    by (simp add: registry_live_def)
qed

end
